(* ===== verification/Prelude.thy ===== *)
theory Prelude
  imports Complex_Main "HOL-Library.AList"
begin

text \<open>
  What every component shares: loops that may raise (\<open>fold_err\<close>, \<open>map_err\<close>), commands that
  change a state and may raise (\<open>cmd\<close>: the state reached so far survives an exception, as it
  does in Python), Python dictionaries as association lists in insertion order, and the lemma
  collections of the development.
\<close>

named_theorems result_simps \<open>unfolding of loops and commands that may raise\<close>
named_theorems py_simps \<open>evaluation of Python string and dictionary operations\<close>

section \<open>Results and loops that may raise\<close>

type_synonym ('e, 'a) result = "'e + 'a"

definition rbind :: "'e + 'a \<Rightarrow> ('a \<Rightarrow> 'e + 'b) \<Rightarrow> 'e + 'b" where
  "rbind m f = (case m of Inl e \<Rightarrow> Inl e | Inr x \<Rightarrow> f x)"

lemma rbind_simps [simp, result_simps]:
  "rbind (Inl e) f = Inl e"
  "rbind (Inr x) f = f x"
  by (simp_all add: rbind_def)

lemma rbind_eq_Inr [simp]:
  "rbind m f = Inr y \<longleftrightarrow> (\<exists>x. m = Inr x \<and> f x = Inr y)"
  by (cases m) simp_all

lemma rbind_eq_Inl:
  "rbind m f = Inl e \<longleftrightarrow> m = Inl e \<or> (\<exists>x. m = Inr x \<and> f x = Inl e)"
  by (cases m) simp_all

text \<open>\<open>check e ok\<close> is \<open>if not ok: raise e\<close>; \<open>need e v\<close> raises when there is no value.\<close>

definition check :: "'e \<Rightarrow> bool \<Rightarrow> 'e + unit" where
  "check e ok = (if ok then Inr () else Inl e)"

definition need :: "'e \<Rightarrow> 'a option \<Rightarrow> 'e + 'a" where
  "need e v = (case v of None \<Rightarrow> Inl e | Some x \<Rightarrow> Inr x)"

lemma check_need_simps [simp, result_simps]:
  "check e ok = Inr y \<longleftrightarrow> ok"
  "check e ok = Inl e' \<longleftrightarrow> \<not> ok \<and> e' = e"
  "need e v = Inr x \<longleftrightarrow> v = Some x"
  "need e v = Inl e' \<longleftrightarrow> v = None \<and> e' = e"
  "check e True = Inr ()" "check e False = Inl e"
  "need e (Some x) = Inr x" "need e None = Inl e"
  by (auto simp: check_def need_def split: option.splits)

text \<open>A \<open>for\<close> loop whose body updates an accumulator and may raise.\<close>

fun fold_err :: "('b \<Rightarrow> 'a \<Rightarrow> 'e + 'b) \<Rightarrow> 'b \<Rightarrow> 'a list \<Rightarrow> 'e + 'b" where
  "fold_err f acc [] = Inr acc"
| "fold_err f acc (x # xs) = (case f acc x of Inl e \<Rightarrow> Inl e | Inr acc' \<Rightarrow> fold_err f acc' xs)"

lemma fold_err_append:
  "fold_err f acc (xs @ ys) =
     (case fold_err f acc xs of Inl e \<Rightarrow> Inl e | Inr acc' \<Rightarrow> fold_err f acc' ys)"
  by (induction xs arbitrary: acc) (auto split: sum.splits)

lemma fold_err_invariant:
  assumes "fold_err f acc xs = Inr acc'"
    and "P acc"
    and "\<And>a x a'. x \<in> set xs \<Longrightarrow> P a \<Longrightarrow> f a x = Inr a' \<Longrightarrow> P a'"
  shows "P acc'"
  using assms
proof (induction xs arbitrary: acc)
  case Nil
  then show ?case by simp
next
  case (Cons x xs)
  then obtain a where a: "f acc x = Inr a" "fold_err f a xs = Inr acc'"
    by (auto split: sum.splits)
  from a(2) show ?case
  proof (rule Cons.IH)
    show "P a" using Cons.prems(2,3) a(1) by force
  qed (use Cons.prems(3) in auto)
qed

text \<open>An invariant that also follows the elements seen so far.\<close>

lemma fold_err_invariant_prefix:
  assumes "fold_err f acc xs = Inr acc'"
    and "P [] acc"
    and "\<And>ys x zs a a'. xs = ys @ x # zs \<Longrightarrow> P ys a \<Longrightarrow> f a x = Inr a' \<Longrightarrow> P (ys @ [x]) a'"
  shows "P xs acc'"
proof -
  have "P (ps @ xs') acc'"
    if "xs = ps @ xs'" "P ps a" "fold_err f a xs' = Inr acc'" for ps xs' a
    using that
  proof (induction xs' arbitrary: ps a)
    case Nil
    then show ?case by simp
  next
    case (Cons x xs')
    then obtain b where b: "f a x = Inr b" "fold_err f b xs' = Inr acc'"
      by (auto split: sum.splits)
    from Cons.IH [of "ps @ [x]" b] Cons.prems b assms(3) [of ps x xs' a b] show ?case
      by simp
  qed
  from this [of "[]" xs acc] assms(1,2) show ?thesis by simp
qed

lemma fold_err_step_ok:
  assumes "fold_err f acc xs = Inr acc'" and "x \<in> set xs"
  shows "\<exists>a a'. f a x = Inr a'"
  using assms by (induction xs arbitrary: acc) (auto split: sum.splits)

text \<open>A comprehension whose element expression may raise.\<close>

fun map_err :: "('a \<Rightarrow> 'e + 'b) \<Rightarrow> 'a list \<Rightarrow> 'e + 'b list" where
  "map_err f [] = Inr []"
| "map_err f (x # xs) =
     (case f x of Inl e \<Rightarrow> Inl e
      | Inr y \<Rightarrow> (case map_err f xs of Inl e \<Rightarrow> Inl e | Inr ys \<Rightarrow> Inr (y # ys)))"

lemma map_err_Inr:
  "map_err f xs = Inr ys \<longleftrightarrow> list_all2 (\<lambda>x y. f x = Inr y) xs ys"
proof (induction xs arbitrary: ys)
  case Nil
  then show ?case by auto
next
  case (Cons x xs)
  show ?case
    by (cases "f x"; cases "map_err f xs") (auto simp: list_all2_Cons1 simp flip: Cons.IH)
qed

text \<open>
  \<open>if ident(x) not in seen: seen.add(ident(x)); out.append(x)\<close>, the loop body with which the
  program removes duplicates.
\<close>

definition add_new :: "('a \<Rightarrow> 'k) \<Rightarrow> 'a \<Rightarrow> 'k set \<times> 'a list \<Rightarrow> 'k set \<times> 'a list" where
  "add_new ident x st =
     (case st of (seen, out) \<Rightarrow>
        if ident x \<in> seen then (seen, out) else (insert (ident x) seen, out @ [x]))"

definition unique_log :: "('a \<Rightarrow> 'k) \<Rightarrow> 'k set \<times> 'a list \<Rightarrow> bool" where
  "unique_log ident st \<longleftrightarrow>
     fst st = ident ` set (snd st) \<and> distinct (map ident (snd st))"

lemma unique_log_empty [simp]: "unique_log ident ({}, [])"
  by (simp add: unique_log_def)

lemma unique_log_add_new [simp, intro]:
  "unique_log ident st \<Longrightarrow> unique_log ident (add_new ident x st)"
  by (cases st) (auto simp: unique_log_def add_new_def)

lemma unique_log_step: "add_new ident x st = st' \<Longrightarrow> unique_log ident st \<Longrightarrow> unique_log ident st'"
  by auto

lemma add_new_keeps: "set (snd st) \<subseteq> set (snd (add_new ident x st))"
  by (cases st) (auto simp: add_new_def)

lemma add_new_has: "unique_log ident st \<Longrightarrow> \<exists>y \<in> set (snd (add_new ident x st)). ident y = ident x"
  by (cases st) (auto simp: add_new_def unique_log_def)

lemma add_new_inj_has: "unique_log ident st \<Longrightarrow> inj ident \<Longrightarrow> x \<in> set (snd (add_new ident x st))"
  by (drule add_new_has [where x = x]) (auto dest: injD)

lemma add_new_origin: "set (snd (add_new ident x st)) \<subseteq> insert x (set (snd st))"
  by (cases st) (auto simp: add_new_def)

section \<open>Commands: state and exceptions\<close>

text \<open>
  A command takes the state and returns a value or an exception together with the state
  reached. A raise keeps the effects made before it.
\<close>

type_synonym ('s, 'e, 'a) cmd = "'s \<Rightarrow> ('e + 'a) \<times> 's"

definition creturn :: "'a \<Rightarrow> ('s, 'e, 'a) cmd" where
  "creturn x = (\<lambda>s. (Inr x, s))"

definition craise :: "'e \<Rightarrow> ('s, 'e, 'a) cmd" where
  "craise e = (\<lambda>s. (Inl e, s))"

definition cbind :: "('s, 'e, 'a) cmd \<Rightarrow> ('a \<Rightarrow> ('s, 'e, 'b) cmd) \<Rightarrow> ('s, 'e, 'b) cmd" where
  "cbind m f = (\<lambda>s. case m s of (Inl e, s') \<Rightarrow> (Inl e, s') | (Inr x, s') \<Rightarrow> f x s')"

definition clift :: "'e + 'a \<Rightarrow> ('s, 'e, 'a) cmd" where
  "clift r = (\<lambda>s. (r, s))"

text \<open>\<open>ctry m h\<close> is \<open>try: m; except: h\<close>, where the handler decides what it re-raises.\<close>

definition ctry :: "('s, 'e, 'a) cmd \<Rightarrow> ('e \<Rightarrow> ('s, 'e, 'a) cmd) \<Rightarrow> ('s, 'e, 'a) cmd" where
  "ctry m h = (\<lambda>s. case m s of (Inl e, s') \<Rightarrow> h e s' | (Inr x, s') \<Rightarrow> (Inr x, s'))"

fun cfold :: "('b \<Rightarrow> 'a \<Rightarrow> ('s, 'e, 'b) cmd) \<Rightarrow> 'b \<Rightarrow> 'a list \<Rightarrow> ('s, 'e, 'b) cmd" where
  "cfold f acc [] = creturn acc"
| "cfold f acc (x # xs) = cbind (f acc x) (\<lambda>acc'. cfold f acc' xs)"

lemma cmd_simps [simp, result_simps, code_unfold]:
  "creturn x s = (Inr x, s)"
  "craise e s = (Inl e, s)"
  "clift r s = (r, s)"
  by (simp_all add: creturn_def craise_def clift_def)

lemma cbind_apply [result_simps, code_unfold]:
  "cbind m f s = (case m s of (Inl e, s') \<Rightarrow> (Inl e, s') | (Inr x, s') \<Rightarrow> f x s')"
  by (simp add: cbind_def)

text \<open>
  For evaluation: with the defining equations of the commands applied to a state (declared
  \<open>[THEN fun_cong, code]\<close> where a component has many), these rules pass the state on instead of
  simplifying the commands that are still to run.
\<close>

lemma branch_apply [code_unfold]:
  "(if b then m else n) s = (if b then m s else n s)"
  "(case opt of None \<Rightarrow> m1 | Some x \<Rightarrow> m2 x) s = (case opt of None \<Rightarrow> m1 s | Some x \<Rightarrow> m2 x s)"
  "(case xs of [] \<Rightarrow> m3 | y # ys \<Rightarrow> m4 y ys) s = (case xs of [] \<Rightarrow> m3 s | y # ys \<Rightarrow> m4 y ys s)"
  "(case res of Inl a \<Rightarrow> m5 a | Inr b \<Rightarrow> m6 b) s = (case res of Inl a \<Rightarrow> m5 a s | Inr b \<Rightarrow> m6 b s)"
  "(case pair of (a, b) \<Rightarrow> m7 a b) s = (case pair of (a, b) \<Rightarrow> m7 a b s)"
  "(let x = v in m8 x) s = (let x = v in m8 x s)"
  by (auto split: option.splits list.splits sum.splits prod.splits)

lemma cbind_creturn [simp, result_simps]: "cbind (creturn x) f = f x"
  by (simp add: cbind_def creturn_def)

lemma cbind_run:
  "m s = (Inr x, s') \<Longrightarrow> cbind m f s = f x s'"
  "m s = (Inl e, s') \<Longrightarrow> cbind m f s = (Inl e, s')"
  by (simp_all add: cbind_def)

lemma ctry_apply [result_simps, code_unfold]:
  "ctry m h s = (case m s of (Inl e, s') \<Rightarrow> h e s' | (Inr x, s') \<Rightarrow> (Inr x, s'))"
  by (simp add: ctry_def)

lemma cfold_Cons_apply:
  "cfold f acc (x # xs) s =
     (case f acc x s of (Inl e, s') \<Rightarrow> (Inl e, s') | (Inr acc', s') \<Rightarrow> cfold f acc' xs s')"
  by (simp add: cbind_apply)

lemmas cfold_run_equations [code] = cfold.simps [THEN fun_cong]

lemma cbind_Inr_iff:
  "cbind m f s = (Inr y, s'') \<longleftrightarrow> (\<exists>x s'. m s = (Inr x, s') \<and> f x s' = (Inr y, s''))"
  by (auto simp: cbind_def split: prod.splits sum.splits)

lemma cbind_cases:
  assumes "cbind m f s = (r, s'')"
  obtains (raised) e where "m s = (Inl e, s'')" "r = Inl e"
  | (went_on) x s' where "m s = (Inr x, s')" "f x s' = (r, s'')"
  using assms by (auto simp: cbind_def split: prod.splits sum.splits)

text \<open>
  A relation between the state before and after that every part of a command keeps, whether
  it returns or raises.
\<close>

definition keeps :: "('s \<Rightarrow> 's \<Rightarrow> bool) \<Rightarrow> ('s, 'e, 'a) cmd \<Rightarrow> bool" where
  "keeps R m \<longleftrightarrow> (\<forall>s r s'. m s = (r, s') \<longrightarrow> R s s')"

lemma keepsI: "(\<And>s r s'. m s = (r, s') \<Longrightarrow> R s s') \<Longrightarrow> keeps R m"
  by (auto simp: keeps_def)

lemma keepsD: "keeps R m \<Longrightarrow> m s = (r, s') \<Longrightarrow> R s s'"
  by (auto simp: keeps_def)

lemma keeps_pure [intro]:
  "reflp R \<Longrightarrow> keeps R (creturn x)"
  "reflp R \<Longrightarrow> keeps R (craise e)"
  "reflp R \<Longrightarrow> keeps R (clift r)"
  by (auto simp: keeps_def reflp_def)

lemma keeps_cbind [intro]:
  assumes "transp R" and "keeps R m" and "\<And>x. keeps R (f x)"
  shows "keeps R (cbind m f)"
proof (rule keepsI)
  fix s r s''
  assume "cbind m f s = (r, s'')"
  then show "R s s''"
  proof (cases rule: cbind_cases)
    case (raised e)
    then show ?thesis using assms(2) by (auto dest: keepsD)
  next
    case (went_on x s')
    then have "R s s'" "R s' s''" using assms(2,3) by (auto dest: keepsD)
    then show ?thesis using assms(1) by (blast dest: transpD)
  qed
qed

lemma keeps_ctry [intro]:
  assumes "transp R" and "keeps R m" and "\<And>e. keeps R (h e)"
  shows "keeps R (ctry m h)"
  unfolding keeps_def
proof (intro allI impI)
  fix s r s''
  assume eq: "ctry m h s = (r, s'')"
  obtain q s' where q: "m s = (q, s')" by fastforce
  then have one: "R s s'" using assms(2) by (auto dest: keepsD)
  show "R s s''"
  proof (cases q)
    case (Inl e)
    with eq q have "h e s' = (r, s'')" by (simp add: ctry_apply)
    then have "R s' s''" using assms(3) by (auto dest: keepsD)
    with one assms(1) show ?thesis by (blast dest: transpD)
  next
    case (Inr x)
    with eq q one show ?thesis by (simp add: ctry_apply)
  qed
qed

lemma keeps_cfold:
  assumes "reflp R" and "transp R" and "\<And>acc x. x \<in> set xs \<Longrightarrow> keeps R (f acc x)"
  shows "keeps R (cfold f acc xs)"
  using assms(3)
  by (induction xs arbitrary: acc) (use assms(1,2) in auto)

section \<open>Dictionaries\<close>

text \<open>
  A Python dictionary keeps insertion order: an assignment replaces in place or appends
  (\<open>AList.update\<close>), \<open>pop\<close> removes (\<open>AList.delete\<close>).
\<close>

definition dset :: "'k \<Rightarrow> 'v \<Rightarrow> ('k \<times> 'v) list \<Rightarrow> ('k \<times> 'v) list" where
  "dset k v d = AList.update k v d"

definition dpop :: "'k \<Rightarrow> ('k \<times> 'v) list \<Rightarrow> ('k \<times> 'v) list" where
  "dpop k d = AList.delete k d"

definition dupdate :: "('k \<times> 'v) list \<Rightarrow> ('k \<times> 'v) list \<Rightarrow> ('k \<times> 'v) list" where
  "dupdate d new = fold (\<lambda>(k, v). dset k v) new d"

lemma map_of_dset [simp, py_simps]: "map_of (dset k v d) = (map_of d)(k \<mapsto> v)"
  by (simp add: dset_def update_conv')

lemma map_of_dpop [simp, py_simps]: "map_of (dpop k d) = (map_of d)(k := None)"
  by (simp add: dpop_def delete_conv')

lemma keys_dset: "fst ` set (dset k v d) = insert k (fst ` set d)"
  by (metis dom_map_of_conv_image_fst map_of_dset dom_fun_upd option.distinct(1))

lemma dset_triv: "map_of d k = Some v \<Longrightarrow> dset k v d = d"
  by (simp add: dset_def update_triv)

lemma dpop_idem [simp]: "dpop k (dpop k d) = dpop k d"
  by (simp add: dpop_def delete_idem)

lemma dupdate_triv: "\<forall>(k, v) \<in> set new. map_of d k = Some v \<Longrightarrow> dupdate d new = d"
  unfolding dupdate_def by (induction new) (auto simp: dset_triv)

lemma distinct_dset [simp, intro]: "distinct (map fst d) \<Longrightarrow> distinct (map fst (dset k v d))"
  by (simp add: dset_def distinct_update)

lemma distinct_dpop [simp, intro]: "distinct (map fst d) \<Longrightarrow> distinct (map fst (dpop k d))"
  by (simp add: dpop_def distinct_delete)

lemma distinct_dupdate [simp, intro]:
  "distinct (map fst d) \<Longrightarrow> distinct (map fst (dupdate d new))"
  unfolding dupdate_def by (induction new arbitrary: d) auto

lemma map_of_dupdate:
  "distinct (map fst new) \<Longrightarrow> map_of (dupdate d new) = map_of d ++ map_of new"
  unfolding dupdate_def
proof (induction new arbitrary: d)
  case Nil
  then show ?case by simp
next
  case (Cons p new)
  obtain a b where p: "p = (a, b)" by (cases p)
  with Cons.prems have nin: "a \<notin> dom (map_of new)"
    by (simp add: dom_map_of_conv_image_fst)
  have "map_of (fold (\<lambda>(k, v). dset k v) (p # new) d) = (map_of d)(a \<mapsto> b) ++ map_of new"
    using Cons p by simp
  also have "\<dots> = (map_of d ++ map_of new)(a \<mapsto> b)"
    by (rule map_add_upd_left [OF nin])
  also have "\<dots> = map_of d ++ map_of (p # new)"
    by (simp add: p)
  finally show ?case .
qed

end
