(* ===== verification/Py_String.thy ===== *)
theory Py_String
  imports Prelude
begin

text \<open>
  The Python string operations the program uses. The operations that only compare and cut
  are stated for lists of any element, and used at two types: \<open>string\<close>, a list of code
  points below 256, for the configuration files, names and OCIDs of the cluster; and lists of
  \<open>nat\<close> code points for the notification texts, where byte lengths and display widths
  matter. A literal is written \<open>''abc''\<close>, and \<open>u ''abc''\<close> at the second type.
\<close>

section \<open>Cutting and searching\<close>

definition lstrip_by :: "('a \<Rightarrow> bool) \<Rightarrow> 'a list \<Rightarrow> 'a list" where
  "lstrip_by p xs = dropWhile p xs"

definition rstrip_by :: "('a \<Rightarrow> bool) \<Rightarrow> 'a list \<Rightarrow> 'a list" where
  "rstrip_by p xs = rev (dropWhile p (rev xs))"

definition strip_by :: "('a \<Rightarrow> bool) \<Rightarrow> 'a list \<Rightarrow> 'a list" where
  "strip_by p xs = rstrip_by p (lstrip_by p xs)"

definition starts_with :: "'a list \<Rightarrow> 'a list \<Rightarrow> bool" where
  "starts_with s p \<longleftrightarrow> take (length p) s = p"

definition ends_with :: "'a list \<Rightarrow> 'a list \<Rightarrow> bool" where
  "ends_with s p \<longleftrightarrow> starts_with (rev s) (rev p)"

text \<open>\<open>sub in s\<close>.\<close>

fun contains :: "'a list \<Rightarrow> 'a list \<Rightarrow> bool" where
  "contains [] sub = (sub = [])"
| "contains (x # xs) sub = (starts_with (x # xs) sub \<or> contains xs sub)"

text \<open>Splitting at every element that satisfies a predicate; \<open>s.split(c)\<close> is \<open>split_on c s\<close>.\<close>

fun split_by :: "('a \<Rightarrow> bool) \<Rightarrow> 'a list \<Rightarrow> 'a list list" where
  "split_by p [] = [[]]"
| "split_by p (x # xs) =
     (if p x then [] # split_by p xs
      else (case split_by p xs of [] \<Rightarrow> [[x]] | y # ys \<Rightarrow> (x # y) # ys))"

definition split_on :: "'a \<Rightarrow> 'a list \<Rightarrow> 'a list list" where
  "split_on c s = split_by (\<lambda>x. x = c) s"

text \<open>\<open>s.split()\<close> with no argument: the maximal runs free of whitespace.\<close>

definition words_by :: "('a \<Rightarrow> bool) \<Rightarrow> 'a list \<Rightarrow> 'a list list" where
  "words_by p s = filter (\<lambda>w. w \<noteq> []) (split_by p s)"

fun join :: "'a list \<Rightarrow> 'a list list \<Rightarrow> 'a list" where
  "join sep [] = []"
| "join sep [x] = x"
| "join sep (x # y # ys) = x @ sep @ join sep (y # ys)"

text \<open>\<open>s.partition(c)\<close>: the text before the first \<open>c\<close>, whether there is one, the text after it.\<close>

definition partition_at :: "'a \<Rightarrow> 'a list \<Rightarrow> 'a list \<times> bool \<times> 'a list" where
  "partition_at c s = (takeWhile (\<lambda>x. x \<noteq> c) s, c \<in> set s, tl (dropWhile (\<lambda>x. x \<noteq> c) s))"

text \<open>\<open>s.rsplit(c, 1)\<close> where \<open>c\<close> occurs in \<open>s\<close>.\<close>

definition rsplit_once :: "'a \<Rightarrow> 'a list \<Rightarrow> ('a list \<times> 'a list) option" where
  "rsplit_once c s =
     (case partition_at c (rev s) of (after, found, before) \<Rightarrow>
        if found then Some (rev before, rev after) else None)"

subsection \<open>Their laws\<close>

lemma starts_with_append [simp]: "starts_with (p @ s) p"
  by (simp add: starts_with_def)

lemma starts_with_iff: "starts_with s p \<longleftrightarrow> (\<exists>t. s = p @ t)"
  by (metis append_take_drop_id starts_with_append starts_with_def)

lemma starts_with_Nil [simp]: "starts_with s []"
  by (simp add: starts_with_def)

lemma starts_with_Cons [simp]:
  "starts_with (x # s) (y # p) \<longleftrightarrow> x = y \<and> starts_with s p"
  by (auto simp: starts_with_def)

lemma starts_with_Nil_Cons [simp]: "\<not> starts_with [] (y # p)"
  by (simp add: starts_with_def)

lemma ends_with_iff: "ends_with s p \<longleftrightarrow> (\<exists>t. s = t @ p)"
proof -
  have "rev s = rev p @ t \<longleftrightarrow> s = rev t @ p" for t
    by (metis rev_append rev_rev_ident)
  then show ?thesis
    unfolding ends_with_def starts_with_iff by (metis rev_rev_ident)
qed

lemma split_by_not_Nil [simp]: "split_by p s \<noteq> []"
  by (cases s) (auto split: list.splits)

lemma split_by_no_sep: "\<forall>x \<in> set s. \<not> p x \<Longrightarrow> split_by p s = [s]"
  by (induction s) auto

lemma split_by_append_sep:
  "\<forall>x \<in> set s. \<not> p x \<Longrightarrow> p c \<Longrightarrow> split_by p (s @ c # t) = s # split_by p t"
  by (induction s) auto

lemma split_by_all: "list_all (list_all (\<lambda>x. \<not> p x)) (split_by p s)"
  by (induction s) (auto split: list.splits)

lemma split_by_pieces: "w \<in> set (split_by p s) \<Longrightarrow> x \<in> set w \<Longrightarrow> \<not> p x"
  using split_by_all unfolding list_all_iff by metis

lemma split_by_pieces_subset: "w \<in> set (split_by p s) \<Longrightarrow> set w \<subseteq> set s"
proof (induction s arbitrary: w)
  case Nil
  then show ?case by simp
next
  case (Cons y s)
  then show ?case
    by (cases "split_by p s") (auto split: if_splits, blast+)
qed

lemma words_by_word:
  assumes "w \<in> set (words_by p s)"
  shows "w \<noteq> []" and "\<forall>x \<in> set w. \<not> p x"
  using assms split_by_pieces [of w p s] by (auto simp: words_by_def)

lemma words_by_join:
  assumes "\<forall>w \<in> set ws. w \<noteq> [] \<and> (\<forall>x \<in> set w. \<not> p x)" and "p c"
  shows "words_by p (join [c] ws) = ws"
  using assms(1)
proof (induction "[c]" ws rule: join.induct)
  case 1
  then show ?case by (simp add: words_by_def)
next
  case (2 w)
  then show ?case by (simp add: words_by_def split_by_no_sep)
next
  case (3 w v vs)
  then show ?case
    by (simp add: words_by_def split_by_append_sep assms(2))
qed

lemma join_words_elements:
  "x \<in> set (join sep ws) \<Longrightarrow> x \<in> set sep \<or> (\<exists>w \<in> set ws. x \<in> set w)"
  by (induction sep ws rule: join.induct) auto

lemma lstrip_by_id: "s = [] \<or> \<not> p (hd s) \<Longrightarrow> lstrip_by p s = s"
  by (cases s) (auto simp: lstrip_by_def)

lemma rstrip_by_id: "s = [] \<or> \<not> p (last s) \<Longrightarrow> rstrip_by p s = s"
  by (cases s rule: rev_cases) (auto simp: rstrip_by_def)

lemma strip_by_id: "s = [] \<or> (\<not> p (hd s) \<and> \<not> p (last s)) \<Longrightarrow> strip_by p s = s"
  by (auto simp: strip_by_def lstrip_by_id rstrip_by_id)

lemma strip_by_no_space: "\<forall>x \<in> set s. \<not> p x \<Longrightarrow> strip_by p s = s"
  by (rule strip_by_id) (metis hd_in_set last_in_set)

lemma rstrip_by_append_space: "p c \<Longrightarrow> rstrip_by p (s @ [c]) = rstrip_by p s"
  by (simp add: rstrip_by_def)

lemma rstrip_by_prefix: "\<exists>t. s = rstrip_by p s @ t \<and> (\<forall>x \<in> set t. p x)"
proof -
  have "rev s = takeWhile p (rev s) @ dropWhile p (rev s)" by simp
  then have "s = rstrip_by p s @ rev (takeWhile p (rev s))"
    by (metis rev_append rev_rev_ident rstrip_by_def)
  then show ?thesis by (metis set_rev set_takeWhileD)
qed

lemma rstrip_by_last: "rstrip_by p s \<noteq> [] \<Longrightarrow> \<not> p (last (rstrip_by p s))"
  unfolding rstrip_by_def by (metis hd_dropWhile last_rev rev_is_Nil_conv)

lemma lstrip_by_hd: "lstrip_by p s \<noteq> [] \<Longrightarrow> \<not> p (hd (lstrip_by p s))"
  unfolding lstrip_by_def by (rule hd_dropWhile)

lemma lstrip_by_suffix: "\<exists>t. s = t @ lstrip_by p s \<and> (\<forall>x \<in> set t. p x)"
  unfolding lstrip_by_def by (metis set_takeWhileD takeWhile_dropWhile_id)

lemma strip_by_hd: "strip_by p s \<noteq> [] \<Longrightarrow> \<not> p (hd (strip_by p s))"
proof -
  assume ne: "strip_by p s \<noteq> []"
  obtain t where t: "lstrip_by p s = strip_by p s @ t"
    using rstrip_by_prefix [of "lstrip_by p s" p] by (auto simp: strip_by_def)
  with ne have "hd (strip_by p s) = hd (lstrip_by p s)" "lstrip_by p s \<noteq> []"
    by (metis hd_append2, simp)
  then show ?thesis using lstrip_by_hd by metis
qed

lemma strip_by_last: "strip_by p s \<noteq> [] \<Longrightarrow> \<not> p (last (strip_by p s))"
  by (simp add: strip_by_def rstrip_by_last)

lemma strip_by_idem [simp]: "strip_by p (strip_by p s) = strip_by p s"
  by (rule strip_by_id) (auto simp: strip_by_hd strip_by_last)

lemma partition_at_found:
  "c \<notin> set a \<Longrightarrow> partition_at c (a @ c # b) = (a, True, b)"
  by (simp add: partition_at_def takeWhile_append dropWhile_append)

section \<open>Paths\<close>

text \<open>
  \<open>os.path.normpath\<close> on POSIX: empty and \<open>.\<close> components are dropped, \<open>..\<close> removes the
  component before it, and two leading slashes (but not three) are kept.
\<close>

fun norm_components :: "bool \<Rightarrow> string list \<Rightarrow> string list \<Rightarrow> string list" where
  "norm_components rooted out [] = out"
| "norm_components rooted out (c # cs) =
     (if c = [] \<or> c = ''.'' then norm_components rooted out cs
      else if c \<noteq> ''..'' \<or> (\<not> rooted \<and> out = []) \<or> (out \<noteq> [] \<and> last out = ''..'')
      then norm_components rooted (out @ [c]) cs
      else if out \<noteq> [] then norm_components rooted (butlast out) cs
      else norm_components rooted out cs)"

definition normpath :: "string \<Rightarrow> string" where
  "normpath path =
     (if path = [] then ''.''
      else let slashes = (if starts_with path ''//'' \<and> \<not> starts_with path ''///'' then ''//''
                          else if starts_with path ''/'' then ''/'' else []);
               normal = slashes @ join ''/''
                 (norm_components (slashes \<noteq> []) [] (split_on (CHR 0x2F) path))
           in if normal = [] then ''.'' else normal)"

section \<open>Characters\<close>

text \<open>The code points below 256 that \<open>str.isspace\<close> and \<open>str.strip\<close> treat as whitespace.\<close>

definition py_space :: "char \<Rightarrow> bool" where
  "py_space c \<longleftrightarrow>
     (let n = of_char c :: nat
      in 9 \<le> n \<and> n \<le> 13 \<or> 28 \<le> n \<and> n \<le> 32 \<or> n = 133 \<or> n = 160)"

definition py_strip :: "string \<Rightarrow> string" where
  "py_strip s = strip_by py_space s"

definition py_lower :: "string \<Rightarrow> string" where
  "py_lower s =
     map (\<lambda>c. let n = of_char c :: nat
               in if 65 \<le> n \<and> n \<le> 90 \<or> 192 \<le> n \<and> n \<le> 222 \<and> n \<noteq> 215
                  then char_of (n + 32) else c) s"

definition is_digit :: "char \<Rightarrow> bool" where
  "is_digit c \<longleftrightarrow> (let n = of_char c :: nat in 48 \<le> n \<and> n \<le> 57)"

definition is_lower_alpha :: "char \<Rightarrow> bool" where
  "is_lower_alpha c \<longleftrightarrow> (let n = of_char c :: nat in 97 \<le> n \<and> n \<le> 122)"

definition is_upper_alpha :: "char \<Rightarrow> bool" where
  "is_upper_alpha c \<longleftrightarrow> (let n = of_char c :: nat in 65 \<le> n \<and> n \<le> 90)"

definition is_lower_hex :: "char \<Rightarrow> bool" where
  "is_lower_hex c \<longleftrightarrow> is_digit c \<or> (let n = of_char c :: nat in 97 \<le> n \<and> n \<le> 102)"

section \<open>Decimal numbers\<close>

definition digit :: "nat \<Rightarrow> char" where
  "digit d = char_of (48 + d)"

fun show_nat :: "nat \<Rightarrow> string" where
  "show_nat n = (if n < 10 then [digit n] else show_nat (n div 10) @ [digit (n mod 10)])"

declare show_nat.simps [simp del]

definition show_int :: "int \<Rightarrow> string" where
  "show_int i = (if i < 0 then CHR ''-'' # show_nat (nat (- i)) else show_nat (nat i))"

definition digits_value :: "string \<Rightarrow> nat" where
  "digits_value s = foldl (\<lambda>v c. 10 * v + (of_char c - 48)) 0 s"

text \<open>
  \<open>int(s)\<close>: surrounding whitespace, an optional sign, digits with single underscores
  between them; \<open>None\<close> is \<open>ValueError\<close>. (Digits outside ASCII are not code points
  below 256.)
\<close>

definition py_int :: "string \<Rightarrow> int option" where
  "py_int s =
     (let t = py_strip s;
          neg = starts_with t ''-'';
          ds = (if neg \<or> starts_with t ''+'' then tl t else t);
          groups = split_on CHR ''_'' ds
      in if list_all (\<lambda>g. g \<noteq> [] \<and> list_all is_digit g) groups
         then Some ((if neg then -1 else 1) * int (digits_value (concat groups)))
         else None)"

lemma of_char_digit: "d < 10 \<Longrightarrow> of_char (digit d) = 48 + d"
  by (simp add: digit_def)

lemma is_digit_digit: "d < 10 \<Longrightarrow> is_digit (digit d)"
  by (simp add: is_digit_def of_char_digit)

lemma show_nat_not_Nil [simp]: "show_nat n \<noteq> []"
  by (subst show_nat.simps) simp

lemma show_nat_digits: "c \<in> set (show_nat n) \<Longrightarrow> is_digit c"
proof (induction n rule: show_nat.induct)
  case (1 n)
  then show ?case
    by (subst (asm) (2) show_nat.simps) (auto simp: is_digit_digit split: if_splits)
qed

lemma digits_value_snoc: "digits_value (s @ [c]) = 10 * digits_value s + (of_char c - 48)"
  by (simp add: digits_value_def)

lemma digits_value_show_nat [simp]: "digits_value (show_nat n) = n"
proof (induction n rule: show_nat.induct)
  case (1 n)
  show ?case
  proof (cases "n < 10")
    case True
    then show ?thesis
      by (subst show_nat.simps) (simp add: digits_value_def of_char_digit)
  next
    case False
    with 1 show ?thesis
      by (subst show_nat.simps) (simp add: digits_value_snoc of_char_digit)
  qed
qed

lemma is_digit_not_space: "is_digit c \<Longrightarrow> \<not> py_space c"
  by (auto simp: is_digit_def py_space_def Let_def)

lemma is_digit_not: "is_digit c \<Longrightarrow> c \<noteq> CHR ''_'' \<and> c \<noteq> CHR ''-'' \<and> c \<noteq> CHR ''+''"
  by (auto simp: is_digit_def)

lemma py_strip_digits: "list_all is_digit s \<Longrightarrow> py_strip s = s"
  unfolding py_strip_def list_all_iff
  by (rule strip_by_no_space) (use is_digit_not_space in blast)

lemma py_int_digits:
  assumes "list_all is_digit s" and "s \<noteq> []"
  shows "py_int s = Some (int (digits_value s))"
proof -
  obtain c cs where s: "s = c # cs" using assms(2) by (cases s) auto
  with assms(1) have c: "c \<noteq> CHR ''-''" "c \<noteq> CHR ''+''" using is_digit_not by auto
  have "split_on CHR ''_'' s = [s]"
    unfolding split_on_def using assms(1) is_digit_not
    by (intro split_by_no_sep) (auto simp: list_all_iff)
  then show ?thesis
    using assms c by (simp add: py_int_def py_strip_digits s starts_with_def)
qed

lemma py_int_show_nat [simp]: "py_int (show_nat n) = Some (int n)"
  by (simp add: py_int_digits list_all_iff show_nat_digits)

lemma py_int_show_int: "0 \<le> i \<Longrightarrow> py_int (show_int i) = Some i"
  by (simp add: show_int_def)

section \<open>Code points\<close>

type_synonym ustr = "nat list"

definition u :: "string \<Rightarrow> ustr" where
  "u s = map of_char s"

lemma u_simps [simp]: "u [] = []" "u (c # s) = of_char c # u s"
  by (simp_all add: u_def)

lemma length_u [simp]: "length (u s) = length s"
  by (simp add: u_def)

end
