(* ===== verification/Json_Data.thy ===== *)
theory Json_Data
  imports Py_String
begin

text \<open>
  The values \<open>json.load\<close> returns and Python's operations on them: \<open>d.get(k)\<close>, truth,
  \<open>==\<close>. An object lists its members in file order with distinct keys. Numbers follow Python:
  \<open>True == 1 == 1.0\<close>. (The non-standard \<open>NaN\<close> and \<open>Infinity\<close> are no values of the model.)
  The elements of strings are a parameter: \<open>char\<close> or \<open>nat\<close> code points.
\<close>

datatype 'c json =
    JNull
  | JBool bool
  | JInt int
  | JFloat rat
  | JStr "'c list"
  | JArr "'c json list"
  | JObj "('c list \<times> 'c json) list"

type_synonym 'c jdict = "('c list \<times> 'c json) list"

text \<open>What opening and parsing a JSON file gives: no file, a failure (OS error, bad text) or a value.\<close>

datatype 'c doc = Absent | Unreadable | Doc "'c json"

text \<open>\<open>d.get(k)\<close>, which is \<open>None\<close> for a missing key, and \<open>d.get(k, default)\<close>.\<close>

definition jget :: "'c jdict \<Rightarrow> 'c list \<Rightarrow> 'c json" where
  "jget d k = (case map_of d k of None \<Rightarrow> JNull | Some v \<Rightarrow> v)"

definition jget_or :: "'c jdict \<Rightarrow> 'c list \<Rightarrow> 'c json \<Rightarrow> 'c json" where
  "jget_or d k dflt = (case map_of d k of None \<Rightarrow> dflt | Some v \<Rightarrow> v)"

text \<open>\<open>k in d\<close>.\<close>

definition has_key :: "'c jdict \<Rightarrow> 'c list \<Rightarrow> bool" where
  "has_key d k \<longleftrightarrow> map_of d k \<noteq> None"

fun truthy :: "'c json \<Rightarrow> bool" where
  "truthy JNull = False"
| "truthy (JBool b) = b"
| "truthy (JInt i) = (i \<noteq> 0)"
| "truthy (JFloat r) = (r \<noteq> 0)"
| "truthy (JStr s) = (s \<noteq> [])"
| "truthy (JArr xs) = (xs \<noteq> [])"
| "truthy (JObj d) = (d \<noteq> [])"

text \<open>\<open>isinstance\<close> tests; \<open>bool\<close> is a subclass of \<open>int\<close>, and the callers that care exclude it.\<close>

fun as_str :: "'c json \<Rightarrow> 'c list option" where
  "as_str (JStr s) = Some s"
| "as_str _ = None"

fun as_obj :: "'c json \<Rightarrow> 'c jdict option" where
  "as_obj (JObj d) = Some d"
| "as_obj _ = None"

fun as_arr :: "'c json \<Rightarrow> 'c json list option" where
  "as_arr (JArr xs) = Some xs"
| "as_arr _ = None"

fun as_int :: "'c json \<Rightarrow> int option" where
  "as_int (JInt i) = Some i"
| "as_int _ = None"

fun numeric :: "'c json \<Rightarrow> rat option" where
  "numeric (JBool b) = Some (if b then 1 else 0)"
| "numeric (JInt i) = Some (of_int i)"
| "numeric (JFloat r) = Some r"
| "numeric _ = None"

text \<open>A string that is present and not empty: \<open>isinstance(v, str) and v\<close>.\<close>

fun nonempty_str :: "'c json \<Rightarrow> 'c list option" where
  "nonempty_str (JStr s) = (if s = [] then None else Some s)"
| "nonempty_str _ = None"

text \<open>Python's \<open>==\<close>: numbers by value, objects regardless of the order of their members.\<close>

function py_eq :: "'c json \<Rightarrow> 'c json \<Rightarrow> bool" where
  "py_eq (JStr s) w = (w = JStr s)"
| "py_eq JNull w = (w = JNull)"
| "py_eq (JBool b) w = (numeric w = Some (if b then 1 else 0))"
| "py_eq (JInt i) w = (numeric w = Some (of_int i))"
| "py_eq (JFloat r) w = (numeric w = Some r)"
| "py_eq (JArr xs) w =
     (case w of JArr ys \<Rightarrow> length xs = length ys \<and> list_all (\<lambda>(x, y). py_eq x y) (zip xs ys)
      | _ \<Rightarrow> False)"
| "py_eq (JObj d) w =
     (case w of JObj e \<Rightarrow>
        length d = length e \<and>
        list_all (\<lambda>(k, v). case map_of e k of None \<Rightarrow> False | Some v' \<Rightarrow> py_eq v v') d
      | _ \<Rightarrow> False)"
  by pat_completeness auto
termination
proof (relation "measure (\<lambda>(v, w). size v)", goal_cases)
  case 1
  show ?case by simp
next
  case (2 xs w ys p x y)
  then have "x \<in> set xs" by (auto dest: set_zip_leftD)
  then have "size x \<le> size_list size xs" by (rule size_list_estimation') simp
  then show ?case by simp
next
  case (3 d w e p k v v')
  then have "(k, v) \<in> set d" by simp
  then have "size v \<le> size_list (size_prod length size) d"
    by (rule size_list_estimation') simp
  then show ?case by simp
qed

lemma as_simps [simp]:
  "as_str v = Some s \<longleftrightarrow> v = JStr s"
  "as_obj v = Some d \<longleftrightarrow> v = JObj d"
  "as_arr v = Some xs \<longleftrightarrow> v = JArr xs"
  "as_int v = Some i \<longleftrightarrow> v = JInt i"
  by (cases v; simp)+

lemma nonempty_str_Some [simp]: "nonempty_str v = Some s \<longleftrightarrow> v = JStr s \<and> s \<noteq> []"
  by (cases v) auto

lemma nonempty_str_None: "nonempty_str v = None \<longleftrightarrow> (\<forall>s. v = JStr s \<longrightarrow> s = [])"
  by (cases v) auto

lemma jget_dset [simp, py_simps]: "jget (dset k v d) k' = (if k' = k then v else jget d k')"
  by (simp add: jget_def)

lemma jget_Str: "jget d k = JStr s \<Longrightarrow> map_of d k = Some (JStr s)"
  by (auto simp: jget_def split: option.splits)

text \<open>The pairs an object may hold are compared with themselves when its keys are distinct.\<close>

fun keys_distinct :: "'c json \<Rightarrow> bool" where
  "keys_distinct (JArr xs) = list_all keys_distinct xs"
| "keys_distinct (JObj d) = (distinct (map fst d) \<and> list_all (\<lambda>(k, v). keys_distinct v) d)"
| "keys_distinct _ = True"

lemma py_eq_refl: "keys_distinct v \<Longrightarrow> py_eq v v"
proof (induction v rule: keys_distinct.induct)
  case (1 xs)
  then show ?case by (auto simp: list_all_iff zip_same_conv_map)
next
  case (2 d)
  then show ?case by (fastforce simp: list_all_iff)
qed auto

end
