(* ===== verification/Registry_Seed.thy ===== *)
theory Registry_Seed
  imports Json_Data
begin

text \<open>
  \<open>playbooks/roles/slurm/files/slurm_notification_registry_seed.py\<close>: merging the bootstrap
  data Terraform writes into the notification registry the controller keeps at run time. The
  registry is the JSON document of a file (\<open>char doc\<close>); an operation returns the document it
  leaves, or the exception with which it stops before the file is replaced. The file lock
  serialises the runs, and the mode and owner bits of the file are not modelled.
\<close>

datatype seed_error =
    ValueError string
  | KeyError string
  | TypeError
  | ReadError
  | ParserError string

section \<open>Cleanup scopes\<close>

record scope =
  sc_cluster_name :: string
  sc_scope_id :: string

definition scope_identity :: "scope \<Rightarrow> string \<times> string" where
  "scope_identity sc = (sc_cluster_name sc, sc_scope_id sc)"

definition scope_json :: "scope \<Rightarrow> char json" where
  "scope_json sc =
     JObj [(''cluster_name'', JStr (sc_cluster_name sc)),
           (''cluster_scope_id'', JStr (sc_scope_id sc))]"

definition notification_scope :: "char jdict \<Rightarrow> seed_error + scope option" where
  "notification_scope config =
     (let cluster_name = jget config ''cluster_name'';
          cluster_scope_id = jget config ''cluster_scope_id''
      in if cluster_name = JNull \<and> cluster_scope_id = JNull then Inr None
         else case nonempty_str cluster_name of
           None \<Rightarrow> Inl (ValueError ''notification registry cluster_name is invalid'')
         | Some name \<Rightarrow> (case nonempty_str cluster_scope_id of
             None \<Rightarrow> Inl (ValueError ''notification registry cluster_scope_id is invalid'')
           | Some sid \<Rightarrow> Inr (Some \<lparr>sc_cluster_name = name, sc_scope_id = sid\<rparr>)))"

definition history_entry_scope :: "char json \<Rightarrow> seed_error + scope" where
  "history_entry_scope entry =
     (case as_obj entry of
        None \<Rightarrow> Inl (ValueError ''notification registry has an invalid cleanup scope'')
      | Some d \<Rightarrow> (case notification_scope d of
          Inl e \<Rightarrow> Inl e
        | Inr None \<Rightarrow> Inl (ValueError ''notification registry has an empty cleanup scope'')
        | Inr (Some sc) \<Rightarrow> Inr sc))"

definition cleanup_scope_history :: "char jdict \<Rightarrow> seed_error + scope list" where
  "cleanup_scope_history config =
     (case as_arr (jget_or config ''cleanup_scopes'' (JArr [])) of
        None \<Rightarrow> Inl (ValueError ''notification registry cleanup_scopes must be a list'')
      | Some history \<Rightarrow>
          rbind (fold_err (\<lambda>st entry. rbind (history_entry_scope entry)
                             (\<lambda>sc. Inr (add_new scope_identity sc st))) ({}, []) history)
            (\<lambda>st. Inr (snd st)))"

section \<open>Reading and merging\<close>

definition load_json :: "char doc \<Rightarrow> char jdict \<Rightarrow> seed_error + char jdict" where
  "load_json file dflt =
     (case file of
        Absent \<Rightarrow> Inr dflt
      | Unreadable \<Rightarrow> Inl ReadError
      | Doc v \<Rightarrow> Inr (case as_obj v of None \<Rightarrow> dflt | Some d \<Rightarrow> d))"

definition empty_registry :: "char jdict" where
  "empty_registry = [(''config'', JObj []), (''users'', JObj [])]"

text \<open>\<open>registry["users"]\<close> after the repair of a value that is no object; the same for \<open>config\<close>.\<close>

definition repair_users :: "char jdict \<Rightarrow> char jdict" where
  "repair_users registry =
     (case as_obj (jget registry ''users'') of
        None \<Rightarrow> dset ''users'' (JObj []) registry
      | Some _ \<Rightarrow> registry)"

definition registry_config :: "char jdict \<Rightarrow> char jdict" where
  "registry_config registry =
     (case as_obj (jget_or registry ''config'' (JObj [])) of None \<Rightarrow> [] | Some d \<Rightarrow> d)"

text \<open>\<open>d[k]\<close> raises \<open>KeyError\<close>.\<close>

definition member :: "char jdict \<Rightarrow> string \<Rightarrow> seed_error + char json" where
  "member d k = (case map_of d k of None \<Rightarrow> Inl (KeyError k) | Some v \<Rightarrow> Inr v)"

definition merge_config :: "char jdict \<Rightarrow> char jdict \<Rightarrow> seed_error + char jdict" where
  "merge_config config new_config =
     (let previous_id = jget config ''deployment_id'';
          next_id = jget new_config ''deployment_id''
      in if previous_id \<noteq> JNull \<and> \<not> py_eq previous_id next_id
         then Inl (ValueError ''notification registry belongs to another deployment'')
         else rbind (cleanup_scope_history config) (\<lambda>history.
              rbind (notification_scope config) (\<lambda>previous_scope.
              rbind (notification_scope new_config) (\<lambda>next_scope.
                let history' =
                      (case previous_scope of
                         None \<Rightarrow> history
                       | Some sc \<Rightarrow>
                           if previous_scope \<noteq> next_scope
                              \<and> scope_identity sc \<notin> scope_identity ` set history
                           then history @ [sc] else history);
                    updated = dupdate config new_config
                in Inr (if history' \<noteq> []
                        then dset ''cleanup_scopes'' (JArr (map scope_json history')) updated
                        else dpop ''cleanup_scopes'' updated)))))"

text \<open>
  The entry of the bootstrap user. The name must be a string: JSON has no other key, and a list
  or an object as a name is unhashable (\<open>TypeError\<close>). A number as a name is outside the model
  and is reported the same way.
\<close>

definition bootstrap_entry :: "char jdict \<Rightarrow> seed_error + string \<times> char json" where
  "bootstrap_entry user =
     rbind (member user ''username'') (\<lambda>username.
     rbind (member user ''email'') (\<lambda>email.
     rbind (member user ''topic_id'') (\<lambda>topic_id.
     rbind (member user ''subscription_id'') (\<lambda>subscription_id.
       case as_str username of
         None \<Rightarrow> Inl TypeError
       | Some name \<Rightarrow> Inr (name, JObj [(''email'', email), (''topic_id'', topic_id),
           (''subscription_id'', subscription_id), (''managed_by'', JStr ''terraform'')])))))"

definition merge_registry :: "char doc \<Rightarrow> char jdict \<Rightarrow> char jdict \<Rightarrow> seed_error + char doc" where
  "merge_registry file new_config user =
     rbind (load_json file empty_registry) (\<lambda>loaded.
       let registry = repair_users loaded
       in rbind (merge_config (registry_config registry) new_config) (\<lambda>config.
          let registry' = dset ''config'' (JObj config) registry
          in rbind (bootstrap_entry user) (\<lambda>(name, entry).
             case as_obj (jget registry' ''users'') of
               None \<Rightarrow> Inl TypeError
             | Some users \<Rightarrow>
                 Inr (Doc (JObj (dset ''users'' (JObj (dset name entry users)) registry'))))))"

definition disable_registry :: "char doc \<Rightarrow> seed_error + char doc" where
  "disable_registry file =
     rbind (load_json file empty_registry) (\<lambda>registry.
       let config = dset ''enabled'' (JBool False) (registry_config registry)
       in Inr (Doc (JObj (repair_users (dset ''config'' (JObj config) registry)))))"

section \<open>The command line\<close>

datatype seed_action = Disable | Bootstrap "char doc"

definition required_config :: "string list" where
  "required_config =
     [''region'', ''compartment_id'', ''cluster_name'', ''cluster_scope_id'', ''deployment_id'']"

definition required_user :: "string list" where
  "required_user = [''username'', ''email'', ''topic_id'', ''subscription_id'']"

definition seed_main :: "char doc \<Rightarrow> seed_action \<Rightarrow> seed_error + char doc" where
  "seed_main registry action =
     (case action of
        Disable \<Rightarrow> disable_registry registry
      | Bootstrap file \<Rightarrow>
          rbind (load_json file []) (\<lambda>bootstrap.
            case as_obj (jget bootstrap ''config'') of
              None \<Rightarrow> Inl (ParserError ''bootstrap file has no config object'')
            | Some config \<Rightarrow> (case as_obj (jget bootstrap ''bootstrap_user'') of
                None \<Rightarrow> Inl (ParserError ''bootstrap file has no bootstrap_user object'')
              | Some user \<Rightarrow>
                  if \<not> list_all (\<lambda>k. truthy (jget config k)) required_config
                  then Inl (ParserError ''bootstrap config is incomplete'')
                  else if \<not> list_all (\<lambda>k. truthy (jget user k)) required_user
                  then Inl (ParserError ''bootstrap user is incomplete'')
                  else merge_registry registry config user)))"

section \<open>What a registry records\<close>

text \<open>
  The scopes under which a registry knows Topics to have been created: the scope of its
  configuration and the recorded history. This is what the final destroy must be able to find.
\<close>

definition config_scopes :: "char jdict \<Rightarrow> scope set" where
  "config_scopes config =
     (case cleanup_scope_history config of Inl _ \<Rightarrow> {} | Inr h \<Rightarrow> set h)
     \<union> (case notification_scope config of Inl _ \<Rightarrow> {} | Inr None \<Rightarrow> {} | Inr (Some sc) \<Rightarrow> {sc})"

definition recorded_scopes :: "char doc \<Rightarrow> scope set" where
  "recorded_scopes file =
     (case load_json file empty_registry of Inl _ \<Rightarrow> {}
      | Inr registry \<Rightarrow> config_scopes (registry_config registry))"

lemma inj_scope_identity: "inj scope_identity"
  by (rule injI) (simp add: scope_identity_def)

lemma notification_scope_Some:
  "notification_scope config = Inr (Some sc) \<longleftrightarrow>
     jget config ''cluster_name'' = JStr (sc_cluster_name sc) \<and> sc_cluster_name sc \<noteq> [] \<and>
     jget config ''cluster_scope_id'' = JStr (sc_scope_id sc) \<and> sc_scope_id sc \<noteq> []"
  by (cases sc) (auto simp: notification_scope_def Let_def split: option.splits if_splits)

lemma notification_scope_None:
  "notification_scope config = Inr None \<longleftrightarrow>
     jget config ''cluster_name'' = JNull \<and> jget config ''cluster_scope_id'' = JNull"
  by (auto simp: notification_scope_def Let_def split: option.splits)

lemma notification_scope_cong:
  assumes "jget d ''cluster_name'' = jget e ''cluster_name''"
    and "jget d ''cluster_scope_id'' = jget e ''cluster_scope_id''"
  shows "notification_scope d = notification_scope e"
  using assms by (simp add: notification_scope_def)

definition scope_ok :: "scope \<Rightarrow> bool" where
  "scope_ok sc \<longleftrightarrow> sc_cluster_name sc \<noteq> [] \<and> sc_scope_id sc \<noteq> []"

lemma history_entry_scope_ok: "history_entry_scope v = Inr sc \<Longrightarrow> scope_ok sc"
  by (auto simp: history_entry_scope_def scope_ok_def notification_scope_Some
      split: option.splits sum.splits)

lemma history_entry_scope_json [simp]: "scope_ok sc \<Longrightarrow> history_entry_scope (scope_json sc) = Inr sc"
  by (simp add: history_entry_scope_def scope_json_def scope_ok_def notification_scope_def
      jget_def)

lemma history_fold_log:
  assumes "fold_err (\<lambda>st entry. rbind (history_entry_scope entry)
             (\<lambda>sc. Inr (add_new scope_identity sc st))) ({}, []) history = Inr st"
  shows "unique_log scope_identity st \<and> (\<forall>sc \<in> set (snd st). scope_ok sc)"
  using assms
proof (rule fold_err_invariant)
  show "unique_log scope_identity ({}, []) \<and> (\<forall>sc \<in> set (snd ({}, [])). scope_ok sc)"
    by simp
next
  fix st entry st'
  assume st: "unique_log scope_identity st \<and> (\<forall>sc \<in> set (snd st). scope_ok sc)"
    and step: "rbind (history_entry_scope entry) (\<lambda>sc. Inr (add_new scope_identity sc st)) = Inr st'"
  then obtain sc where sc: "history_entry_scope entry = Inr sc"
      and st': "st' = add_new scope_identity sc st"
    by auto
  have "set (snd st') \<subseteq> insert sc (set (snd st))"
    unfolding st' by (rule add_new_origin)
  with st sc show "unique_log scope_identity st' \<and> (\<forall>sc \<in> set (snd st'). scope_ok sc)"
    unfolding st' by (blast dest: history_entry_scope_ok intro: unique_log_add_new)
qed

lemma cleanup_scope_history_log:
  assumes "cleanup_scope_history config = Inr h"
  shows "distinct (map scope_identity h)" and "\<forall>sc \<in> set h. scope_ok sc"
  using assms history_fold_log
  by (fastforce simp: cleanup_scope_history_def unique_log_def split: option.splits)+

text \<open>Reading back a history that was written from distinct scopes gives the same history.\<close>

lemma history_fold_scope_json:
  assumes "distinct (map scope_identity (xs @ h))" and "\<forall>sc \<in> set h. scope_ok sc"
  shows "fold_err (\<lambda>st entry. rbind (history_entry_scope entry)
             (\<lambda>sc. Inr (add_new scope_identity sc st)))
           (scope_identity ` set xs, xs) (map scope_json h)
         = Inr (scope_identity ` set (xs @ h), xs @ h)"
  using assms
proof (induction h arbitrary: xs)
  case Nil
  then show ?case by simp
next
  case (Cons sc h)
  then have "scope_identity sc \<notin> scope_identity ` set xs" by auto
  then have "add_new scope_identity sc (scope_identity ` set xs, xs)
      = (scope_identity ` set (xs @ [sc]), xs @ [sc])"
    by (simp add: add_new_def)
  then show ?case using Cons.IH [of "xs @ [sc]"] Cons.prems by simp
qed

lemma cleanup_scope_history_scope_json:
  assumes "distinct (map scope_identity h)" and "\<forall>sc \<in> set h. scope_ok sc"
    and "jget_or config ''cleanup_scopes'' (JArr []) = JArr (map scope_json h)"
  shows "cleanup_scope_history config = Inr h"
  using history_fold_scope_json [of "[]" h] assms by (simp add: cleanup_scope_history_def)

section \<open>Merging loses no scope and is idempotent\<close>

lemma jget_dpop: "jget (dpop k d) k' = (if k' = k then JNull else jget d k')"
  by (simp add: jget_def)

lemma jget_dupdate:
  "distinct (map fst new) \<Longrightarrow>
   jget (dupdate d new) k = (case map_of new k of None \<Rightarrow> jget d k | Some v \<Rightarrow> v)"
  by (simp add: jget_def map_of_dupdate map_add_def split: option.splits)

text \<open>What a successful merge of the configuration computed.\<close>

lemma merge_config_Inr:
  assumes "merge_config config new_config = Inr config'"
  obtains h prev "next" h' where
    "jget config ''deployment_id'' = JNull
       \<or> py_eq (jget config ''deployment_id'') (jget new_config ''deployment_id'')"
    "cleanup_scope_history config = Inr h"
    "notification_scope config = Inr prev" "notification_scope new_config = Inr next"
    "distinct (map scope_identity h')" "\<forall>sc \<in> set h'. scope_ok sc" "set h \<subseteq> set h'"
    "\<forall>sc. prev = Some sc \<longrightarrow> prev = next \<or> sc \<in> set h'"
    "config' = (if h' \<noteq> []
       then dset ''cleanup_scopes'' (JArr (map scope_json h')) (dupdate config new_config)
       else dpop ''cleanup_scopes'' (dupdate config new_config))"
proof -
  from assms obtain h prev "next" where
    dep: "jget config ''deployment_id'' = JNull
       \<or> py_eq (jget config ''deployment_id'') (jget new_config ''deployment_id'')" and
    h: "cleanup_scope_history config = Inr h" and
    prev: "notification_scope config = Inr prev" and
    "next": "notification_scope new_config = Inr next"
    by (auto simp: merge_config_def Let_def split: if_splits)
  define h' where "h' =
    (case prev of None \<Rightarrow> h
     | Some sc \<Rightarrow> if prev \<noteq> next \<and> scope_identity sc \<notin> scope_identity ` set h then h @ [sc] else h)"
  have config': "config' = (if h' \<noteq> []
       then dset ''cleanup_scopes'' (JArr (map scope_json h')) (dupdate config new_config)
       else dpop ''cleanup_scopes'' (dupdate config new_config))"
    using assms dep h prev "next" by (simp add: merge_config_def Let_def h'_def split: if_splits)
  have "distinct (map scope_identity h')"
    using cleanup_scope_history_log(1) [OF h] by (auto simp: h'_def split: option.splits)
  moreover have "\<forall>sc \<in> set h'. scope_ok sc"
    using cleanup_scope_history_log(2) [OF h] prev
    by (auto simp: h'_def notification_scope_Some scope_ok_def split: option.splits)
  moreover have "set h \<subseteq> set h'" by (auto simp: h'_def split: option.splits)
  moreover have "prev = next \<or> sc \<in> set h'" if "prev = Some sc" for sc
    using that inj_scope_identity by (auto simp: h'_def inj_image_mem_iff)
  ultimately show thesis using that dep h prev "next" config' by blast
qed

lemma merge_config_history:
  assumes "distinct (map scope_identity h')" "\<forall>sc \<in> set h'. scope_ok sc"
    and "config' = (if h' \<noteq> []
       then dset ''cleanup_scopes'' (JArr (map scope_json h')) updated
       else dpop ''cleanup_scopes'' updated)"
  shows "cleanup_scope_history config' = Inr h'"
  by (rule cleanup_scope_history_scope_json [OF assms(1,2)]) (simp add: assms(3) jget_or_def)

lemma merge_config_scopes:
  assumes merge: "merge_config config new_config = Inr config'"
    and keys: "distinct (map fst new_config)"
  shows "config_scopes config \<subseteq> config_scopes config'"
    and "notification_scope new_config = Inr (Some sc) \<Longrightarrow> notification_scope config' = Inr (Some sc)"
proof -
  obtain h prev "next" h' where
    "jget config ''deployment_id'' = JNull
       \<or> py_eq (jget config ''deployment_id'') (jget new_config ''deployment_id'')" and
    h: "cleanup_scope_history config = Inr h" and
    prev: "notification_scope config = Inr prev" and
    "next": "notification_scope new_config = Inr next" and
    h': "distinct (map scope_identity h')" "\<forall>sc \<in> set h'. scope_ok sc" and
    sub: "set h \<subseteq> set h'" and
    cov: "\<forall>sc. prev = Some sc \<longrightarrow> prev = next \<or> sc \<in> set h'" and
    config': "config' = (if h' \<noteq> []
       then dset ''cleanup_scopes'' (JArr (map scope_json h')) (dupdate config new_config)
       else dpop ''cleanup_scopes'' (dupdate config new_config))"
    by (rule merge_config_Inr [OF merge])
  have hist: "cleanup_scope_history config' = Inr h'"
    by (rule merge_config_history [OF h' config'])
  have jget': "jget config' k = (case map_of new_config k of None \<Rightarrow> jget config k | Some v \<Rightarrow> v)"
    if "k \<noteq> ''cleanup_scopes''" for k
    using that by (simp add: config' jget_dpop jget_dupdate [OF keys])
  have cur: "notification_scope config' = Inr (Some sc)" if "next = Some sc" for sc
    using that "next" by (simp add: notification_scope_Some jget' jget_Str)
  then show "notification_scope new_config = Inr (Some sc) \<Longrightarrow>
      notification_scope config' = Inr (Some sc)"
    using "next" by simp
  show "config_scopes config \<subseteq> config_scopes config'"
    using h prev hist sub cov cur
    by (cases prev; cases "next") (auto simp: config_scopes_def)
qed

lemma merge_registry_Inr:
  assumes "merge_registry file new_config user = Inr file'"
  obtains registry config' name entry users where
    "load_json file empty_registry = Inr registry"
    "merge_config (registry_config (repair_users registry)) new_config = Inr config'"
    "bootstrap_entry user = Inr (name, entry)"
    "jget (repair_users registry) ''users'' = JObj users"
    "file' = Doc (JObj (dset ''users'' (JObj (dset name entry users))
       (dset ''config'' (JObj config') (repair_users registry))))"
  using assms by (auto simp: merge_registry_def Let_def split: option.splits)

lemma registry_config_repair [simp]: "registry_config (repair_users registry) = registry_config registry"
  by (auto simp: registry_config_def repair_users_def jget_or_def split: option.splits)

lemma registry_config_dset [simp]:
  "registry_config (dset ''config'' (JObj c) registry) = c"
  "registry_config (dset ''users'' v registry) = registry_config registry"
  by (simp_all add: registry_config_def jget_or_def)

text \<open>
  C5: merging bootstrap data into the registry forgets no scope: every scope the old file
  recorded (its current one and its history) is recorded in the new file, and so is the scope
  of the bootstrap data, which becomes the current one. So a rename of the cluster never
  makes Topics of the earlier name invisible to the final destroy.
\<close>

theorem merge_registry_keeps_scopes:
  assumes "merge_registry file new_config user = Inr file'"
    and "distinct (map fst new_config)"
  shows "recorded_scopes file \<subseteq> recorded_scopes file'
    \<and> (\<forall>sc. notification_scope new_config = Inr (Some sc) \<longrightarrow> sc \<in> recorded_scopes file')"
proof -
  obtain registry config' name entry users where
    r: "load_json file empty_registry = Inr registry" and
    c: "merge_config (registry_config (repair_users registry)) new_config = Inr config'" and
    f: "file' = Doc (JObj (dset ''users'' (JObj (dset name entry users))
       (dset ''config'' (JObj config') (repair_users registry))))"
    by (rule merge_registry_Inr [OF assms(1)])
  have "recorded_scopes file' = config_scopes config'"
    by (simp add: recorded_scopes_def load_json_def f)
  moreover have "recorded_scopes file = config_scopes (registry_config registry)"
    by (simp add: recorded_scopes_def r)
  moreover have "sc \<in> config_scopes config'" if "notification_scope config' = Inr (Some sc)" for sc
    using that by (simp add: config_scopes_def)
  ultimately show ?thesis
    using merge_config_scopes [OF c assms(2)] by auto
qed

text \<open>A registry of the deployment before a rename, and the bootstrap data after it.\<close>

definition sample_config :: "string \<Rightarrow> string \<Rightarrow> char jdict" where
  "sample_config name sid =
     [(''region'', JStr ''r1''), (''compartment_id'', JStr ''ocid1.compartment.c''),
      (''cluster_name'', JStr name), (''cluster_scope_id'', JStr sid),
      (''deployment_id'', JStr ''d1''), (''enabled'', JBool True)]"

definition sample_user :: "char jdict" where
  "sample_user =
     [(''username'', JStr ''opc''), (''email'', JStr ''a@b''), (''topic_id'', JStr ''t''),
      (''subscription_id'', JStr ''s'')]"

definition sample_registry :: "char doc" where
  "sample_registry = Doc (JObj [(''config'', JObj (sample_config ''old'' ''old:p:0'')), (''users'', JObj [])])"

definition sample_bootstrap :: "char json" where
  "sample_bootstrap =
     JObj [(''config'', JObj (sample_config ''new'' ''new:p:0'')), (''bootstrap_user'', JObj sample_user)]"

theorem merge_registry_keeps_scopes_witness:
  "\<exists>file'. merge_registry sample_registry (sample_config ''new'' ''new:p:0'') sample_user = Inr file'
     \<and> recorded_scopes sample_registry \<subseteq> recorded_scopes file'"
proof -
  have "\<not> isl (merge_registry sample_registry (sample_config ''new'' ''new:p:0'') sample_user)"
    by code_simp
  then obtain file' where
    m: "merge_registry sample_registry (sample_config ''new'' ''new:p:0'') sample_user = Inr file'"
    by (cases "merge_registry sample_registry (sample_config ''new'' ''new:p:0'') sample_user") auto
  have "distinct (map fst (sample_config ''new'' ''new:p:0''))"
    by (simp add: sample_config_def)
  from merge_registry_keeps_scopes [OF m this] m show ?thesis by blast
qed

lemma merge_config_again:
  assumes merge: "merge_config config new_config = Inr config'"
    and keys: "distinct (map fst new_config)"
    and scope: "notification_scope new_config = Inr (Some sc)"
    and dep: "keys_distinct (jget new_config ''deployment_id'')"
    and clean: "\<not> has_key new_config ''cleanup_scopes''"
  shows "merge_config config' new_config = Inr config'"
proof -
  obtain h prev "next" h' where
    id: "jget config ''deployment_id'' = JNull
       \<or> py_eq (jget config ''deployment_id'') (jget new_config ''deployment_id'')" and
    h: "cleanup_scope_history config = Inr h" and
    prev: "notification_scope config = Inr prev" and
    "next": "notification_scope new_config = Inr next" and
    h': "distinct (map scope_identity h')" "\<forall>sc \<in> set h'. scope_ok sc" and
    sub: "set h \<subseteq> set h'" and
    cov: "\<forall>sc. prev = Some sc \<longrightarrow> prev = next \<or> sc \<in> set h'" and
    config': "config' = (if h' \<noteq> []
       then dset ''cleanup_scopes'' (JArr (map scope_json h')) (dupdate config new_config)
       else dpop ''cleanup_scopes'' (dupdate config new_config))"
    by (rule merge_config_Inr [OF merge])
  have no_cs: "k \<noteq> ''cleanup_scopes''" if "(k, v) \<in> set new_config" for k v
    using that clean by (force simp: has_key_def map_of_eq_None_iff)
  have new_in: "\<forall>(k, v) \<in> set new_config. map_of config' k = Some v"
    using no_cs keys by (auto simp: config' map_of_dupdate map_add_Some_iff)
  have id': "jget config' ''deployment_id'' = JNull
       \<or> py_eq (jget config' ''deployment_id'') (jget new_config ''deployment_id'')"
  proof (cases "map_of new_config ''deployment_id''")
    case None
    then have "jget config' ''deployment_id'' = jget config ''deployment_id''"
      by (simp add: config' jget_dpop jget_dupdate [OF keys])
    with id None show ?thesis by (simp add: jget_def)
  next
    case (Some v)
    then have "(''deployment_id'', v) \<in> set new_config" by (rule map_of_SomeD)
    with new_in have "map_of config' ''deployment_id'' = Some v" by fast
    with Some have "jget config' ''deployment_id'' = jget new_config ''deployment_id''"
      by (simp add: jget_def)
    then show ?thesis using dep by (simp add: py_eq_refl)
  qed
  have hist: "cleanup_scope_history config' = Inr h'"
    by (rule merge_config_history [OF h' config'])
  have cur: "notification_scope config' = Inr (Some sc)"
    by (rule merge_config_scopes(2) [OF merge keys scope])
  have "(if h' \<noteq> [] then dset ''cleanup_scopes'' (JArr (map scope_json h')) config'
         else dpop ''cleanup_scopes'' config') = config'"
    by (auto simp: config' dset_triv)
  then show ?thesis
    using id' hist cur scope
    by (auto simp: merge_config_def Let_def dupdate_triv [OF new_in])
qed

lemma repair_users_dset_users: "repair_users (dset ''users'' (JObj users) r) = dset ''users'' (JObj users) r"
  by (simp add: repair_users_def)

text \<open>
  Applying the same bootstrap file twice is the same as applying it once, so Ansible may
  rerun the role at will: the second run succeeds and leaves the registry exactly as the
  first left it.
\<close>

lemma seed_main_idempotent:
  assumes "seed_main file (Bootstrap (Doc v)) = Inr file'"
    and "keys_distinct v"
    and "\<And>b c. v = JObj b \<Longrightarrow> jget b ''config'' = JObj c \<Longrightarrow> \<not> has_key c ''cleanup_scopes''"
  shows "seed_main file' (Bootstrap (Doc v)) = Inr file'"
proof -
  obtain b config user where
    v: "v = JObj b" and c: "jget b ''config'' = JObj config" and
    us: "jget b ''bootstrap_user'' = JObj user" and
    req: "list_all (\<lambda>k. truthy (jget config k)) required_config"
      "list_all (\<lambda>k. truthy (jget user k)) required_user" and
    m: "merge_registry file config user = Inr file'"
    using assms(1) by (cases v)
      (auto simp: seed_main_def load_json_def jget_def split: option.splits if_splits)
  have kd: "keys_distinct (JObj config)"
    using assms(2) c v by (fastforce simp: jget_def list_all_iff dest!: map_of_SomeD
        split: option.splits)
  then have keys: "distinct (map fst config)" by simp
  have dep: "keys_distinct (jget config ''deployment_id'')"
    using kd by (fastforce simp: jget_def list_all_iff dest!: map_of_SomeD split: option.splits)
  obtain registry config' name entry users where
    mc: "merge_config (registry_config (repair_users registry)) config = Inr config'" and
    be: "bootstrap_entry user = Inr (name, entry)" and
    f: "file' = Doc (JObj (dset ''users'' (JObj (dset name entry users))
       (dset ''config'' (JObj config') (repair_users registry))))"
    by (rule merge_registry_Inr [OF m])
  obtain "next" where "notification_scope config = Inr next"
    by (rule merge_config_Inr [OF mc])
  moreover have "truthy (jget config ''cluster_name'')"
    using req(1) by (simp add: required_config_def)
  ultimately obtain sc where sc: "notification_scope config = Inr (Some sc)"
    by (cases "next") (auto simp: notification_scope_None)
  have again: "merge_config config' config = Inr config'"
    by (rule merge_config_again [OF mc keys sc dep assms(3) [OF v c]])
  define R where "R = dset ''users'' (JObj (dset name entry users))
       (dset ''config'' (JObj config') (repair_users registry))"
  have R: "map_of R ''config'' = Some (JObj config')"
      "map_of R ''users'' = Some (JObj (dset name entry users))"
      "repair_users R = R" "registry_config R = config'"
    by (simp_all add: R_def repair_users_dset_users)
  have "merge_registry (Doc (JObj R)) config user = Inr (Doc (JObj R))"
    using again be R by (simp add: merge_registry_def load_json_def Let_def dset_triv jget_def)
  then show ?thesis
    using v c us req by (simp add: seed_main_def load_json_def f R_def)
qed

lemma seed_main_idempotent_witness:
  "\<exists>file'. seed_main sample_registry (Bootstrap (Doc sample_bootstrap)) = Inr file'
     \<and> seed_main file' (Bootstrap (Doc sample_bootstrap)) = Inr file'"
proof -
  have "\<not> isl (seed_main sample_registry (Bootstrap (Doc sample_bootstrap)))"
    by code_simp
  then obtain file' where
    m: "seed_main sample_registry (Bootstrap (Doc sample_bootstrap)) = Inr file'"
    by (cases "seed_main sample_registry (Bootstrap (Doc sample_bootstrap))") auto
  have "keys_distinct sample_bootstrap"
    by (simp add: sample_bootstrap_def sample_config_def sample_user_def)
  moreover have "\<And>b c. sample_bootstrap = JObj b \<Longrightarrow> jget b ''config'' = JObj c \<Longrightarrow>
      \<not> has_key c ''cleanup_scopes''"
    by (auto simp: sample_bootstrap_def jget_def has_key_def sample_config_def)
  ultimately have "seed_main file' (Bootstrap (Doc sample_bootstrap)) = Inr file'"
    by (rule seed_main_idempotent [OF m])
  with m show ?thesis by blast
qed

end
