(* ===== verification/Topic_Cleanup.thy ===== *)
theory Topic_Cleanup
  imports Registry_Seed
begin

text \<open>
  \<open>playbooks/roles/slurm/files/slurm_oci_notification_cleanup.py\<close>: deleting, when a cluster is
  destroyed, the Notifications Topics \<open>cluster-cli\<close> created for it, and no other Topic of the
  compartment. The OCI command line, the JSON text parser, SHA-256 and the file system are the
  parameters collected in \<open>cleanup_env\<close>; the state is the world they act on and the log of the
  commands run with their outcomes.
\<close>

datatype cleanup_error =
    CleanupError string
  | Drifted "string set"
  | StillThere "string set"

text \<open>What running the command line came to: a timeout, a failure to start, or an exit.\<close>

datatype outcome = TimedOut | NotStarted string | Exited int string string

record 'w cleanup_env =
  oci_cli :: "string list \<Rightarrow> 'w \<Rightarrow> outcome \<times> 'w"
  json_loads :: "string \<Rightarrow> char json option"
  b64_json_decode :: "string \<Rightarrow> char json option"
  sha256_hex :: "string \<Rightarrow> string"
  read_doc :: "string \<Rightarrow> 'w \<Rightarrow> char doc"
  sleep_for :: "nat \<Rightarrow> 'w \<Rightarrow> 'w"
  home_directory :: string
  is_executable :: "string \<Rightarrow> bool"
  which_oci :: string

record 'w cleanup_state =
  world :: 'w
  calls :: "(string list \<times> outcome) list"

definition poll_attempts :: nat where
  "poll_attempts = 30"

definition poll_interval :: nat where
  "poll_interval = 2"

definition topic_ocid_prefix :: string where
  "topic_ocid_prefix = ''ocid1.onstopic.''"

section \<open>Deterministic Topic names\<close>

definition topic_char :: "char \<Rightarrow> bool" where
  "topic_char c \<longleftrightarrow> is_lower_alpha c \<or> is_digit c \<or> c = CHR ''_'' \<or> c = CHR ''-''"

text \<open>\<open>re.sub("[^a-z0-9_-]+", "-", s)\<close>; the flag says that the previous character was replaced.\<close>

fun dash_runs :: "bool \<Rightarrow> string \<Rightarrow> string" where
  "dash_runs inside [] = []"
| "dash_runs inside (c # cs) =
     (if topic_char c then c # dash_runs False cs
      else if inside then dash_runs True cs else CHR ''-'' # dash_runs True cs)"

definition topic_component :: "string \<Rightarrow> string" where
  "topic_component value =
     (let component = strip_by (\<lambda>c. c = CHR ''-'' \<or> c = CHR ''_'') (dash_runs False (py_lower value))
      in take 48 (if component = [] then ''user'' else component))"

definition notification_topic_name :: "(string \<Rightarrow> string) \<Rightarrow> scope \<Rightarrow> string \<Rightarrow> string" where
  "notification_topic_name sha sc user =
     (let suffix = take 12 (sha (sc_scope_id sc @ '':'' @ user))
      in ''slurm-'' @ topic_component (sc_cluster_name sc) @ ''-'' @ topic_component user
           @ ''-'' @ suffix)"

section \<open>The configuration of a cleanup\<close>

record cleanup_config =
  region :: string
  compartment_id :: string
  cluster_name :: string
  cluster_scope_id :: string
  deployment_id :: string
  registry_path :: string
  protected_topic_ids :: "string set"

definition required_field :: "char jdict \<Rightarrow> string \<Rightarrow> cleanup_error + string" where
  "required_field config field =
     (case nonempty_str (jget config field) of
        None \<Rightarrow> Inl (CleanupError (''cleanup configuration field '' @ field @ '' is invalid''))
      | Some s \<Rightarrow> Inr s)"

definition valid_region :: "string \<Rightarrow> bool" where
  "valid_region s \<longleftrightarrow> s \<noteq> [] \<and> list_all (\<lambda>c. is_lower_alpha c \<or> is_digit c \<or> c = CHR ''-'') s"

definition lower_hex :: "nat \<Rightarrow> string \<Rightarrow> bool" where
  "lower_hex n s \<longleftrightarrow> length s = n \<and> list_all is_lower_hex s"

definition valid_deployment_id :: "string \<Rightarrow> bool" where
  "valid_deployment_id s \<longleftrightarrow> lower_hex 32 s"

definition protected_topic :: "string set \<Rightarrow> char json \<Rightarrow> cleanup_error + string set" where
  "protected_topic ids v =
     (case as_str v of
        Some t \<Rightarrow> (if starts_with t topic_ocid_prefix then Inr (insert t ids)
                    else Inl (CleanupError ''cleanup configuration contains an invalid protected Topic OCID''))
      | None \<Rightarrow> Inl (CleanupError ''cleanup configuration contains an invalid protected Topic OCID''))"

definition decode_config :: "'w cleanup_env \<Rightarrow> string \<Rightarrow> cleanup_error + cleanup_config" where
  "decode_config env encoded =
     rbind (need (CleanupError ''cleanup configuration is not valid base64 JSON'')
              (b64_json_decode env encoded)) (\<lambda>v.
     rbind (need (CleanupError ''cleanup configuration must be a JSON object'') (as_obj v)) (\<lambda>config.
     rbind (required_field config ''region'') (\<lambda>rg.
     rbind (required_field config ''compartment_id'') (\<lambda>comp.
     rbind (required_field config ''cluster_name'') (\<lambda>name.
     rbind (required_field config ''cluster_scope_id'') (\<lambda>sid.
     rbind (required_field config ''deployment_id'') (\<lambda>dep.
     rbind (required_field config ''registry_path'') (\<lambda>path.
     rbind (check (CleanupError ''cleanup configuration region is invalid'') (valid_region rg)) (\<lambda>_.
     rbind (check (CleanupError ''cleanup configuration deployment_id is invalid'')
              (valid_deployment_id dep)) (\<lambda>_.
     rbind (check (CleanupError ''cleanup configuration compartment_id is invalid'')
              (starts_with comp ''ocid1.compartment.'' \<or> starts_with comp ''ocid1.tenancy.'')) (\<lambda>_.
     rbind (check (CleanupError ''cleanup configuration registry_path is invalid'')
              (starts_with path ''/'' \<and> normpath path = path)) (\<lambda>_.
     rbind (need (CleanupError ''cleanup configuration protected_topic_ids must be a list'')
              (as_arr (jget config ''protected_topic_ids''))) (\<lambda>protected.
     rbind (fold_err protected_topic {} protected) (\<lambda>ids.
     Inr \<lparr>region = rg, compartment_id = comp, cluster_name = name,
          cluster_scope_id = sid, deployment_id = dep, registry_path = path,
          protected_topic_ids = ids\<rparr>))))))))))))))"

section \<open>Scopes and the registry\<close>

definition scope_pair :: "char json \<Rightarrow> string \<Rightarrow> cleanup_error + scope" where
  "scope_pair v ctxt =
     (case as_obj v of
        None \<Rightarrow> Inl (CleanupError (ctxt @ '' must be an object''))
      | Some d \<Rightarrow> (case nonempty_str (jget d ''cluster_name'') of
          None \<Rightarrow> Inl (CleanupError (ctxt @ '' field cluster_name is invalid''))
        | Some name \<Rightarrow> (case nonempty_str (jget d ''cluster_scope_id'') of
            None \<Rightarrow> Inl (CleanupError (ctxt @ '' field cluster_scope_id is invalid''))
          | Some sid \<Rightarrow> Inr \<lparr>sc_cluster_name = name, sc_scope_id = sid\<rparr>)))"

text \<open>The scope of a decoded configuration, whose two fields are known to be non-empty strings.\<close>

definition config_scope :: "cleanup_config \<Rightarrow> scope" where
  "config_scope cfg = \<lparr>sc_cluster_name = cluster_name cfg, sc_scope_id = cluster_scope_id cfg\<rparr>"

text \<open>\<open>scope["cluster_scope_id"].rsplit(":", 2)\<close> must have three parts, name, random name, hash.\<close>

definition scope_deployment_identity :: "scope \<Rightarrow> string \<Rightarrow> cleanup_error + string \<times> string" where
  "scope_deployment_identity sc ctxt =
     (case rsplit_once CHR '':'' (sc_scope_id sc) of
        None \<Rightarrow> Inl (CleanupError (ctxt @ '' has an invalid cluster_scope_id''))
      | Some (rest, compartment_hash) \<Rightarrow> (case rsplit_once CHR '':'' rest of
          None \<Rightarrow> Inl (CleanupError (ctxt @ '' has an invalid cluster_scope_id''))
        | Some (scope_name, random_name) \<Rightarrow>
            if scope_name \<noteq> take 128 (sc_cluster_name sc) \<or> random_name = []
            then Inl (CleanupError (ctxt @ '' does not match its cluster_name''))
            else if \<not> lower_hex 12 compartment_hash
            then Inl (CleanupError (ctxt @ '' has an invalid compartment hash''))
            else Inr (random_name, compartment_hash)))"

definition registry_topic_id ::
  "char json \<Rightarrow> string \<Rightarrow> string set \<Rightarrow> bool \<Rightarrow> cleanup_error + string option" where
  "registry_topic_id entry ctxt protected_ids required =
     (case as_obj entry of
        None \<Rightarrow> Inl (CleanupError (ctxt @ '' must be an object''))
      | Some d \<Rightarrow>
          if jget d ''managed_by'' \<noteq> JStr ''cluster-cli'' then Inr None
          else let topic_id = jget d ''topic_id''
               in if (topic_id = JNull \<or> topic_id = JStr []) \<and> \<not> required then Inr None
                  else (case as_str topic_id of
                    None \<Rightarrow> Inl (CleanupError (ctxt @ '' contains an invalid Topic OCID''))
                  | Some t \<Rightarrow>
                      if \<not> starts_with t topic_ocid_prefix \<or> t = topic_ocid_prefix
                         \<or> list_ex py_space t
                      then Inl (CleanupError (ctxt @ '' contains an invalid Topic OCID''))
                      else if t \<in> protected_ids then Inr None else Inr (Some t)))"

definition add_known :: "string option \<Rightarrow> string set \<Rightarrow> string set" where
  "add_known t known = (case t of None \<Rightarrow> known | Some i \<Rightarrow> insert i known)"

definition history_step ::
  "string \<times> string \<Rightarrow> (string \<times> string) set \<times> scope list \<Rightarrow> char json
     \<Rightarrow> cleanup_error + (string \<times> string) set \<times> scope list" where
  "history_step identity st entry =
     (let ctxt = ''notification registry cleanup_scopes entry''
      in rbind (scope_pair entry ctxt) (\<lambda>sc.
         rbind (scope_deployment_identity sc ctxt) (\<lambda>i.
         rbind (check (CleanupError (ctxt @ '' belongs to another deployment'')) (i = identity)) (\<lambda>_.
         Inr (add_new scope_identity sc st)))))"

definition history_scopes ::
  "string \<times> string \<Rightarrow> char json list \<Rightarrow> (string \<times> string) set \<times> scope list
     \<Rightarrow> cleanup_error + (string \<times> string) set \<times> scope list" where
  "history_scopes identity history st = fold_err (history_step identity) st history"

definition known_user_topics :: "string set \<Rightarrow> char jdict \<Rightarrow> cleanup_error + string set" where
  "known_user_topics protected_ids users =
     fold_err (\<lambda>known (username, entry).
       if username = [] then Inl (CleanupError ''notification registry has an invalid username'')
       else rbind (registry_topic_id entry (''notification registry user '' @ username)
                     protected_ids True)
              (\<lambda>t. Inr (add_known t known))) {} users"

definition known_pending_topics ::
  "string set \<Rightarrow> char json list \<Rightarrow> string set \<Rightarrow> cleanup_error + string set" where
  "known_pending_topics protected_ids pending known =
     fold_err (\<lambda>known entry.
       rbind (registry_topic_id entry ''notification registry pending_cleanup entry''
                protected_ids False)
         (\<lambda>t. Inr (add_known t known))) known pending"

definition load_cleanup_metadata ::
  "cleanup_config \<Rightarrow> char doc \<Rightarrow> cleanup_error + scope list \<times> string set" where
  "load_cleanup_metadata cfg file =
     (let current = config_scope cfg
      in rbind (scope_deployment_identity current ''cleanup configuration'') (\<lambda>identity.
         case file of
           Absent \<Rightarrow> Inr ([current], {})
         | Unreadable \<Rightarrow> Inl (CleanupError ''notification registry could not be read'')
         | Doc v \<Rightarrow>
             rbind (need (CleanupError ''notification registry is malformed'') (as_obj v)) (\<lambda>registry.
             rbind (need (CleanupError ''notification registry is malformed'')
                      (as_obj (jget registry ''config''))) (\<lambda>rc.
             rbind (need (CleanupError ''notification registry deployment_id is invalid'')
                      (as_str (jget rc ''deployment_id''))) (\<lambda>dep.
             rbind (check (CleanupError ''notification registry deployment_id is invalid'')
                      (valid_deployment_id dep)) (\<lambda>_.
             rbind (check (CleanupError ''notification registry belongs to another deployment'')
                      (dep = deployment_id cfg)) (\<lambda>_.
             rbind (scope_pair (JObj rc) ''notification registry config'') (\<lambda>rsc.
             rbind (scope_deployment_identity rsc ''notification registry config'') (\<lambda>i.
             rbind (check (CleanupError ''notification registry config belongs to another deployment'')
                      (i = identity)) (\<lambda>_.
             rbind (need (CleanupError ''notification registry cleanup_scopes must be a list'')
                      (as_arr (jget_or rc ''cleanup_scopes'' (JArr [])))) (\<lambda>history.
             rbind (history_scopes identity history
                      (add_new scope_identity rsc ({scope_identity current}, [current]))) (\<lambda>st.
             rbind (need (CleanupError ''notification registry users must be an object'')
                      (as_obj (jget registry ''users''))) (\<lambda>users.
             rbind (known_user_topics (protected_topic_ids cfg) users) (\<lambda>known.
             rbind (need (CleanupError ''notification registry pending_cleanup must be a list'')
                      (as_arr (jget_or rc ''pending_cleanup'' (JArr [])))) (\<lambda>pending.
             rbind (known_pending_topics (protected_topic_ids cfg) pending known) (\<lambda>known'.
             Inr (snd st, known')))))))))))))))))"

definition load_cleanup_scopes :: "cleanup_config \<Rightarrow> char doc \<Rightarrow> cleanup_error + scope list" where
  "load_cleanup_scopes cfg file = rbind (load_cleanup_metadata cfg file) (\<lambda>(scopes, _). Inr scopes)"

section \<open>Running the OCI command line\<close>

type_synonym ('w, 'a) cleanup = "('w cleanup_state, cleanup_error, 'a) cmd"

definition find_oci :: "'w cleanup_env \<Rightarrow> cleanup_error + string" where
  "find_oci env =
     (let candidates = [home_directory env @ ''/.local/bin/oci'', home_directory env @ ''/bin/oci'',
                        ''/usr/local/bin/oci'', ''/usr/bin/oci'']
      in case find (is_executable env) candidates of
           Some c \<Rightarrow> Inr c
         | None \<Rightarrow> if which_oci env \<noteq> [] then Inr (which_oci env)
                   else Inl (CleanupError ''OCI CLI executable was not found''))"

definition oci_command :: "cleanup_config \<Rightarrow> string \<Rightarrow> string list \<Rightarrow> string list" where
  "oci_command cfg executable arguments =
     executable # arguments
       @ [''--auth'', ''instance_principal'', ''--region'', region cfg, ''--max-retries'', ''0'']"

definition cli_error :: "string \<Rightarrow> string \<Rightarrow> string" where
  "cli_error stderr stdout =
     take 500 (map (\<lambda>c. if c = char_of (10::nat) then CHR '' '' else c)
       (if stderr \<noteq> [] then stderr else if stdout \<noteq> [] then stdout else ''OCI CLI failed''))"

text \<open>One call of the command line: the command and its outcome are logged.\<close>

definition call_oci :: "'w cleanup_env \<Rightarrow> string list \<Rightarrow> ('w, outcome) cleanup" where
  "call_oci env command =
     (\<lambda>st. case oci_cli env command (world st) of
        (out, w) \<Rightarrow> (Inr out, st\<lparr>world := w, calls := calls st @ [(command, out)]\<rparr>))"

definition run_oci ::
  "'w cleanup_env \<Rightarrow> cleanup_config \<Rightarrow> string list \<Rightarrow> string option \<Rightarrow> ('w, string) cleanup" where
  "run_oci env cfg arguments executable =
     cbind (clift (case executable of Some e \<Rightarrow> if e \<noteq> [] then Inr e else find_oci env
                   | None \<Rightarrow> find_oci env)) (\<lambda>exe.
     cbind (call_oci env (oci_command cfg exe arguments)) (\<lambda>out.
     case out of
       TimedOut \<Rightarrow> craise (CleanupError ''OCI CLI timed out after 120 seconds'')
     | NotStarted e \<Rightarrow> craise (CleanupError (''unable to execute OCI CLI: '' @ e))
     | Exited code stdout stderr \<Rightarrow>
         if code \<noteq> 0 then craise (CleanupError (cli_error stderr stdout)) else creturn stdout))"

section \<open>Listing and selecting Topics\<close>

text \<open>A listed Topic: its OCID and the whole entry.\<close>

type_synonym topic = "string \<times> char jdict"

definition topic_step ::
  "string set \<times> topic list \<Rightarrow> char json \<Rightarrow> cleanup_error + string set \<times> topic list" where
  "topic_step st entry =
     rbind (need (CleanupError ''OCI CLI returned a malformed Topic entry'') (as_obj entry)) (\<lambda>d.
     rbind (need (CleanupError ''OCI CLI returned a malformed Topic OCID'')
              (as_str (jget d ''topic-id''))) (\<lambda>topic_id.
     rbind (check (CleanupError ''OCI CLI returned a malformed Topic OCID'')
              (starts_with topic_id topic_ocid_prefix)) (\<lambda>_.
     rbind (check (CleanupError ''OCI CLI returned a duplicate Topic OCID'')
              (topic_id \<notin> fst st)) (\<lambda>_.
     Inr (add_new fst (topic_id, d) st)))))"

definition parse_topic_list :: "(string \<Rightarrow> char json option) \<Rightarrow> string \<Rightarrow> cleanup_error + topic list" where
  "parse_topic_list loads stdout =
     (let out = py_strip stdout
      in rbind (check (CleanupError ''OCI CLI returned an empty Topic list response'') (out \<noteq> [])) (\<lambda>_.
         rbind (need (CleanupError ''OCI CLI returned malformed Topic list JSON'') (loads out)) (\<lambda>v.
         rbind (need (CleanupError ''OCI CLI returned malformed Topic list output'')
                  (case as_obj v of None \<Rightarrow> None | Some payload \<Rightarrow> as_arr (jget payload ''data''))) (\<lambda>data.
         rbind (fold_err topic_step ({}, []) data) (\<lambda>st. Inr (snd st))))))"

definition list_arguments :: "cleanup_config \<Rightarrow> string list" where
  "list_arguments cfg =
     [''ons'', ''topic'', ''list'', ''--compartment-id'', compartment_id cfg, ''--all'',
      ''--output'', ''json'', ''--query'', ''@'']"

definition list_topics ::
  "'w cleanup_env \<Rightarrow> cleanup_config \<Rightarrow> string option \<Rightarrow> ('w, topic list) cleanup" where
  "list_topics env cfg executable =
     cbind (run_oci env cfg (list_arguments cfg) executable) (\<lambda>stdout.
     clift (parse_topic_list (json_loads env) stdout))"

definition ownership_tags :: "scope \<Rightarrow> (string \<times> string) list" where
  "ownership_tags sc =
     [(''managed_by'', ''cluster-cli''), (''notification_scope'', sc_scope_id sc),
      (''cluster_name'', sc_cluster_name sc), (''parent_cluster'', sc_cluster_name sc)]"

text \<open>
  The scope under which a Topic is owned, if it is: by its deployment tag, which takes
  precedence, or else by the tags of one of the known scopes.
\<close>

definition tagged_scope ::
  "cleanup_config \<Rightarrow> string \<times> string \<Rightarrow> string \<Rightarrow> char jdict \<Rightarrow> cleanup_error + scope option" where
  "tagged_scope cfg identity topic_id tags =
     (let ctxt = ''deployment-tagged Topic '' @ topic_id
      in if jget tags ''notification_deployment_id'' \<noteq> JStr (deployment_id cfg) then Inr None
         else
           rbind (check (CleanupError (ctxt @ '' has invalid ownership tags''))
                    (jget tags ''managed_by'' = JStr ''cluster-cli'')) (\<lambda>_.
           rbind (scope_pair (JObj [(''cluster_name'', jget tags ''cluster_name''),
                                    (''cluster_scope_id'', jget tags ''notification_scope'')]) ctxt) (\<lambda>sc.
           rbind (check (CleanupError (ctxt @ '' has invalid cluster tags''))
                    (jget tags ''parent_cluster'' = JStr (sc_cluster_name sc))) (\<lambda>_.
           rbind (scope_deployment_identity sc ctxt) (\<lambda>i.
           rbind (check (CleanupError (ctxt @ '' has an incompatible notification scope''))
                    (i = identity)) (\<lambda>_.
           Inr (Some sc)))))))"

definition legacy_scope :: "scope list \<Rightarrow> char jdict \<Rightarrow> scope option" where
  "legacy_scope scopes tags =
     find (\<lambda>sc. list_all (\<lambda>(k, v). jget tags k = JStr v) (ownership_tags sc)) scopes"

definition topic_tags :: "char jdict \<Rightarrow> cleanup_error + char jdict" where
  "topic_tags d =
     (case jget d ''freeform-tags'' of
        JNull \<Rightarrow> Inr []
      | JObj tags \<Rightarrow> Inr tags
      | _ \<Rightarrow> Inl (CleanupError ''OCI CLI returned malformed Topic tags''))"

text \<open>The name and state checks on a Topic owned under a scope.\<close>

definition check_owned ::
  "(string \<Rightarrow> string) \<Rightarrow> scope \<Rightarrow> string \<Rightarrow> char jdict \<Rightarrow> char jdict \<Rightarrow> cleanup_error + string" where
  "check_owned sha sc topic_id d tags =
     rbind (need (CleanupError ''OCI CLI returned a malformed Topic name'')
              (as_str (jget d ''name''))) (\<lambda>name.
     rbind (need (CleanupError (''owned Topic '' @ topic_id @ '' has no valid slurm_user tag''))
              (as_str (jget tags ''slurm_user''))) (\<lambda>username.
     rbind (check (CleanupError (''owned Topic '' @ topic_id @ '' has no valid slurm_user tag''))
              (py_strip username \<noteq> [])) (\<lambda>_.
     rbind (check (CleanupError (''owned Topic '' @ topic_id @ '' does not match its deterministic name''))
              (name = notification_topic_name sha sc username)) (\<lambda>_.
     case as_str (jget d ''lifecycle-state'') of
       Some state \<Rightarrow>
         if state \<in> {''ACTIVE'', ''CREATING'', ''DELETING''} then Inr state
         else Inl (CleanupError (''owned Topic '' @ topic_id @ '' has an invalid lifecycle state''))
     | None \<Rightarrow> Inl (CleanupError (''owned Topic '' @ topic_id @ '' has an invalid lifecycle state''))))))"

definition owned_step ::
  "(string \<Rightarrow> string) \<Rightarrow> cleanup_config \<Rightarrow> scope list \<Rightarrow> string \<times> string
     \<Rightarrow> string list \<times> string list \<Rightarrow> topic \<Rightarrow> cleanup_error + string list \<times> string list" where
  "owned_step sha cfg scopes identity acc t =
     (case (acc, t) of ((delete_ids, wait_ids), (topic_id, d)) \<Rightarrow>
        if topic_id \<in> protected_topic_ids cfg then Inr acc
        else rbind (topic_tags d) (\<lambda>tags.
             rbind (if has_key tags ''notification_deployment_id''
                    then tagged_scope cfg identity topic_id tags
                    else Inr (legacy_scope scopes tags)) (\<lambda>matching.
             case matching of
               None \<Rightarrow> Inr acc
             | Some sc \<Rightarrow>
                 rbind (check_owned sha sc topic_id d tags) (\<lambda>state.
                 Inr (if state \<noteq> ''DELETING'' then delete_ids @ [topic_id] else delete_ids,
                      wait_ids @ [topic_id])))))"

definition owned_topic_ids ::
  "(string \<Rightarrow> string) \<Rightarrow> cleanup_config \<Rightarrow> topic list \<Rightarrow> scope list
     \<Rightarrow> cleanup_error + string list \<times> string list" where
  "owned_topic_ids sha cfg topics scopes =
     (let scopes' = (if scopes = [] then [config_scope cfg] else scopes)
      in rbind (scope_deployment_identity (config_scope cfg) ''cleanup configuration'') (\<lambda>identity.
         fold_err (owned_step sha cfg scopes' identity) ([], []) topics))"

definition validate_known_topics ::
  "string set \<Rightarrow> topic list \<Rightarrow> string list \<Rightarrow> cleanup_error + unit" where
  "validate_known_topics known topics owned =
     (let drifted = known \<inter> set (map fst topics) - set owned
      in check (Drifted drifted) (drifted = {}))"

section \<open>The cleanup\<close>

definition delete_arguments :: "string \<Rightarrow> string list" where
  "delete_arguments topic_id = [''ons'', ''topic'', ''delete'', ''--topic-id'', topic_id, ''--force'']"

definition delete_topic ::
  "'w cleanup_env \<Rightarrow> cleanup_config \<Rightarrow> string option \<Rightarrow> string \<Rightarrow> ('w, unit) cleanup" where
  "delete_topic env cfg executable topic_id =
     cbind (run_oci env cfg (delete_arguments topic_id) executable) (\<lambda>_. creturn ())"

definition delete_new ::
  "'w cleanup_env \<Rightarrow> cleanup_config \<Rightarrow> string option \<Rightarrow> string set \<Rightarrow> string
     \<Rightarrow> ('w, string set) cleanup" where
  "delete_new env cfg executable requested topic_id =
     (if topic_id \<in> requested then creturn requested
      else cbind (delete_topic env cfg executable topic_id) (\<lambda>_. creturn (insert topic_id requested)))"

definition pause :: "'w cleanup_env \<Rightarrow> ('w, unit) cleanup" where
  "pause env = (\<lambda>st. (Inr (), st\<lparr>world := sleep_for env poll_interval (world st)\<rparr>))"

text \<open>One reading of the Topics with all the checks on it, the same at the start and in each poll.\<close>

definition discover ::
  "'w cleanup_env \<Rightarrow> cleanup_config \<Rightarrow> string option \<Rightarrow> scope list \<Rightarrow> string set
     \<Rightarrow> ('w, topic list \<times> string list \<times> string list) cleanup" where
  "discover env cfg executable scopes known =
     cbind (list_topics env cfg executable) (\<lambda>topics.
     clift (rbind (owned_topic_ids (sha256_hex env) cfg topics scopes) (\<lambda>(delete_ids, owned_ids).
            rbind (validate_known_topics known topics owned_ids) (\<lambda>_.
            Inr (topics, delete_ids, owned_ids)))))"

text \<open>
  The polling loop, with the number of attempts left: \<open>attempt + 1 < poll_attempts\<close> is that at
  least one more is left after this one.
\<close>

fun poll_topics ::
  "'w cleanup_env \<Rightarrow> cleanup_config \<Rightarrow> string option \<Rightarrow> scope list \<Rightarrow> string set \<Rightarrow> nat
     \<Rightarrow> string set \<Rightarrow> string set \<Rightarrow> string set \<Rightarrow> ('w, nat) cleanup" where
  "poll_topics env cfg executable scopes known 0 remaining observed requested =
     craise (StillThere remaining)"
| "poll_topics env cfg executable scopes known (Suc attempts) remaining observed requested =
     cbind (discover env cfg executable scopes known) (\<lambda>(topics, delete_ids, owned_ids).
     let remaining' = remaining \<inter> set (map fst topics) \<union> set owned_ids;
         observed' = observed \<union> set owned_ids
     in cbind (cfold (delete_new env cfg executable) requested delete_ids) (\<lambda>requested'.
        if remaining' = {} then creturn (card observed')
        else cbind (if 0 < attempts then pause env else creturn ()) (\<lambda>_.
             poll_topics env cfg executable scopes known attempts remaining' observed' requested')))"

definition cleanup_topics ::
  "'w cleanup_env \<Rightarrow> cleanup_config \<Rightarrow> string option \<Rightarrow> nat \<Rightarrow> ('w, nat) cleanup" where
  "cleanup_topics env cfg executable attempts =
     cbind (\<lambda>st. (load_cleanup_metadata cfg (read_doc env (registry_path cfg) (world st)), st)) (\<lambda>(scopes, known).
     cbind (discover env cfg executable scopes known) (\<lambda>(topics, delete_ids, wait_ids).
     cbind (cfold (\<lambda>_ topic_id. delete_topic env cfg executable topic_id) () delete_ids) (\<lambda>_.
     poll_topics env cfg executable scopes known attempts
       (set wait_ids) (set wait_ids) (set delete_ids))))"

text \<open>The exit code of the command: 0 with the number of Topics deleted, or 1.\<close>

definition cleanup_main :: "'w cleanup_env \<Rightarrow> string \<Rightarrow> 'w cleanup_state \<Rightarrow> int \<times> 'w cleanup_state" where
  "cleanup_main env encoded st =
     (case cbind (clift (decode_config env encoded))
             (\<lambda>cfg. cleanup_topics env cfg None poll_attempts) st of
        (Inl _, st') \<Rightarrow> (1, st')
      | (Inr _, st') \<Rightarrow> (0, st'))"

section \<open>Which Topics are owned\<close>

text \<open>
  The specification of ownership: not protected, tagged with this deployment (or, without any
  deployment tag, with all the tags of a known scope), and carrying the deterministic name of
  its scope and user.
\<close>

definition scope_of_topic :: "cleanup_config \<Rightarrow> scope list \<Rightarrow> char jdict \<Rightarrow> scope \<Rightarrow> bool" where
  "scope_of_topic cfg scopes tags sc \<longleftrightarrow>
     (if has_key tags ''notification_deployment_id''
      then jget tags ''notification_deployment_id'' = JStr (deployment_id cfg)
           \<and> (\<forall>(k, v) \<in> set (ownership_tags sc). jget tags k = JStr v)
      else legacy_scope scopes tags = Some sc)"

definition owned_topic ::
  "(string \<Rightarrow> string) \<Rightarrow> cleanup_config \<Rightarrow> scope list \<Rightarrow> topic \<Rightarrow> bool" where
  "owned_topic sha cfg scopes t \<longleftrightarrow>
     (case t of (topic_id, d) \<Rightarrow>
        topic_id \<notin> protected_topic_ids cfg
        \<and> (\<exists>tags sc user. topic_tags d = Inr tags \<and> scope_of_topic cfg scopes tags sc
             \<and> jget tags ''slurm_user'' = JStr user
             \<and> jget d ''name'' = JStr (notification_topic_name sha sc user)))"

lemma scope_pair_Inr [simp]:
  "scope_pair v c = Inr sc \<longleftrightarrow> (\<exists>d. v = JObj d \<and> scope_ok sc
     \<and> jget d ''cluster_name'' = JStr (sc_cluster_name sc)
     \<and> jget d ''cluster_scope_id'' = JStr (sc_scope_id sc))"
  by (cases sc) (auto simp: scope_pair_def scope_ok_def split: option.splits if_splits)

lemma tagged_scope_Inr:
  assumes "tagged_scope cfg identity topic_id tags = Inr m"
    and "has_key tags ''notification_deployment_id''"
  shows "m = Some sc \<Longrightarrow> scope_of_topic cfg scopes tags sc"
    and "m = None \<Longrightarrow> \<not> scope_of_topic cfg scopes tags sc"
  using assms
  by (auto simp: tagged_scope_def scope_of_topic_def Let_def ownership_tags_def jget_def
      split: if_splits)

lemma owned_step_Inr:
  assumes "owned_step sha cfg scopes identity (del, wait) (topic_id, d) = Inr acc"
  shows "acc = (del, wait) \<and> \<not> owned_topic sha cfg scopes (topic_id, d)
    \<or> acc = (if jget d ''lifecycle-state'' \<noteq> JStr ''DELETING'' then del @ [topic_id] else del,
             wait @ [topic_id])
      \<and> owned_topic sha cfg scopes (topic_id, d)"
proof (cases "topic_id \<in> protected_topic_ids cfg")
  case True
  with assms show ?thesis by (simp add: owned_step_def owned_topic_def)
next
  case False
  with assms obtain tags m where
    tags: "topic_tags d = Inr tags" and
    m: "(if has_key tags ''notification_deployment_id''
         then tagged_scope cfg identity topic_id tags
         else Inr (legacy_scope scopes tags)) = Inr m" and
    rest: "(case m of None \<Rightarrow> Inr (del, wait)
         | Some sc \<Rightarrow> rbind (check_owned sha sc topic_id d tags) (\<lambda>state.
             Inr (if state \<noteq> ''DELETING'' then del @ [topic_id] else del, wait @ [topic_id])))
        = Inr acc"
    by (auto simp: owned_step_def)
  show ?thesis
  proof (cases m)
    case None
    then have "\<not> scope_of_topic cfg scopes tags sc" for sc
      using m tagged_scope_Inr(2) [of cfg identity topic_id tags m]
      by (cases "has_key tags ''notification_deployment_id''") (auto simp: scope_of_topic_def)
    then show ?thesis using rest None tags by (auto simp: owned_topic_def)
  next
    case (Some sc)
    then have sc: "scope_of_topic cfg scopes tags sc"
      using m tagged_scope_Inr(1) [of cfg identity topic_id tags m]
      by (cases "has_key tags ''notification_deployment_id''") (auto simp: scope_of_topic_def)
    from rest Some obtain state where
      "check_owned sha sc topic_id d tags = Inr state" and
      acc: "acc = (if state \<noteq> ''DELETING'' then del @ [topic_id] else del, wait @ [topic_id])"
      by auto
    then obtain user where "jget tags ''slurm_user'' = JStr user"
        "jget d ''name'' = JStr (notification_topic_name sha sc user)"
        "jget d ''lifecycle-state'' = JStr state"
      by (auto simp: check_owned_def split: option.splits if_splits)
    then show ?thesis
      using False tags sc acc by (auto simp: owned_topic_def)
  qed
qed

lemma owned_fold:
  assumes "fold_err (owned_step sha cfg scopes identity) ([], []) topics = Inr (del, wait)"
  shows "wait = map fst (filter (owned_topic sha cfg scopes) topics)
    \<and> del = map fst (filter (\<lambda>t. owned_topic sha cfg scopes t
                \<and> jget (snd t) ''lifecycle-state'' \<noteq> JStr ''DELETING'') topics)"
proof -
  let ?P = "\<lambda>topics acc. acc =
    (map fst (filter (\<lambda>t. owned_topic sha cfg scopes t
                \<and> jget (snd t) ''lifecycle-state'' \<noteq> JStr ''DELETING'') topics),
     map fst (filter (owned_topic sha cfg scopes) topics))"
  have "?P topics (del, wait)"
    using assms
  proof (rule fold_err_invariant_prefix)
    fix ys t zs a a'
    assume "?P ys a" and "owned_step sha cfg scopes identity a t = Inr a'"
    then show "?P (ys @ [t]) a'"
      using owned_step_Inr [of sha cfg scopes identity "fst a" "snd a" "fst t" "snd t" a']
      by (cases t) auto
  qed simp
  then show ?thesis by simp
qed

lemma owned_topic_ids_selection:
  assumes "owned_topic_ids sha cfg topics scopes = Inr (delete_ids, wait_ids)"
    and "scopes \<noteq> []"
  shows "wait_ids = map fst (filter (owned_topic sha cfg scopes) topics)
    \<and> delete_ids = map fst (filter (\<lambda>t. owned_topic sha cfg scopes t
                \<and> jget (snd t) ''lifecycle-state'' \<noteq> JStr ''DELETING'') topics)"
proof -
  obtain identity where
    "fold_err (owned_step sha cfg scopes identity) ([], []) topics = Inr (delete_ids, wait_ids)"
    using assms by (auto simp: owned_topic_ids_def Let_def)
  then show ?thesis by (rule owned_fold)
qed

text \<open>
  C3: the selection of Topics is exactly the ownership specification. The ids to wait for are
  those of the owned Topics of the listing, the ids to delete those of the owned Topics that
  are not already being deleted; a protected Topic is in neither.
\<close>

theorem owned_topic_ids_spec:
  assumes "owned_topic_ids sha cfg topics scopes = Inr (delete_ids, wait_ids)"
    and "scopes \<noteq> []"
  shows "wait_ids = map fst (filter (owned_topic sha cfg scopes) topics)
    \<and> delete_ids = map fst (filter (\<lambda>t. owned_topic sha cfg scopes t
                \<and> jget (snd t) ''lifecycle-state'' \<noteq> JStr ''DELETING'') topics)
    \<and> set delete_ids \<inter> protected_topic_ids cfg = {}"
  using owned_topic_ids_selection [OF assms] by (auto simp: owned_topic_def)

lemma parse_topic_list_distinct:
  assumes "parse_topic_list loads stdout = Inr topics"
  shows "distinct (map fst topics)"
proof -
  obtain data st where
    st: "fold_err topic_step ({}, []) data = Inr st" and topics: "topics = snd st"
    using assms by (auto simp: parse_topic_list_def Let_def)
  from st have "unique_log fst st"
    by (rule fold_err_invariant) (auto simp: topic_step_def dest: unique_log_step)
  then show ?thesis by (simp add: unique_log_def topics)
qed

section \<open>What a run deletes\<close>

text \<open>The Topics for which the log holds a delete command, and the listings it holds.\<close>

fun delete_target :: "string list \<Rightarrow> string option" where
  "delete_target (exe # a # b # c # opt # topic_id # rest) =
     (if [a, b, c] = [''ons'', ''topic'', ''delete''] then Some topic_id else None)"
| "delete_target _ = None"

definition deleted_ids :: "(string list \<times> outcome) list \<Rightarrow> string list" where
  "deleted_ids l = List.map_filter (\<lambda>(command, _). delete_target command) l"

definition listings ::
  "(string \<Rightarrow> char json option) \<Rightarrow> (string list \<times> outcome) list \<Rightarrow> topic list set" where
  "listings loads l =
     {topics. \<exists>command stdout stderr. (command, Exited 0 stdout stderr) \<in> set l
        \<and> take 3 (tl command) = [''ons'', ''topic'', ''list'']
        \<and> parse_topic_list loads stdout = Inr topics}"

definition seen_owned ::
  "'w cleanup_env \<Rightarrow> cleanup_config \<Rightarrow> scope list \<Rightarrow> (string list \<times> outcome) list \<Rightarrow> string \<Rightarrow> bool" where
  "seen_owned env cfg scopes l i \<longleftrightarrow>
     (\<exists>topics \<in> listings (json_loads env) l. \<exists>d.
        (i, d) \<in> set topics \<and> owned_topic (sha256_hex env) cfg scopes (i, d))"

lemma deleted_ids_simps [simp]:
  "deleted_ids [] = []"
  "deleted_ids (l @ l') = deleted_ids l @ deleted_ids l'"
  "deleted_ids ((c, out) # l) =
     (case delete_target c of None \<Rightarrow> deleted_ids l | Some i \<Rightarrow> i # deleted_ids l)"
  by (simp_all add: deleted_ids_def map_filter_def split: option.splits)

lemma listings_append: "listings loads (l @ l') = listings loads l \<union> listings loads l'"
  unfolding listings_def set_append by blast

text \<open>Running a command either logs it, or fails for lack of an executable.\<close>

lemma run_oci_log:
  assumes "run_oci env cfg arguments executable st = (r, st')"
  shows "(\<exists>e. r = Inl e \<and> calls st' = calls st)
    \<or> (\<exists>exe out. calls st' = calls st @ [(oci_command cfg exe arguments, out)]
         \<and> (\<forall>stdout. r = Inr stdout \<longrightarrow> (\<exists>stderr. out = Exited 0 stdout stderr)))"
  using assms
  unfolding run_oci_def
  by (auto simp: cbind_apply call_oci_def split: sum.splits prod.splits outcome.splits if_splits
      option.splits)

lemma list_topics_log:
  assumes "list_topics env cfg executable st = (r, st')"
  shows "deleted_ids (calls st') = deleted_ids (calls st)"
    and "listings loads (calls st) \<subseteq> listings loads (calls st')"
    and "r = Inr topics \<Longrightarrow> topics \<in> listings (json_loads env) (calls st') \<and> distinct (map fst topics)"
proof -
  obtain q s where q: "run_oci env cfg (list_arguments cfg) executable st = (q, s)" by fastforce
  note l = run_oci_log [OF q]
  have st': "st' = s"
    using assms q by (auto simp: list_topics_def cbind_apply split: sum.splits)
  have none: "delete_target (oci_command cfg exe (list_arguments cfg)) = None" for exe
    by (simp add: oci_command_def list_arguments_def)
  show "deleted_ids (calls st') = deleted_ids (calls st)"
    using l none by (auto simp: st')
  show "listings loads (calls st) \<subseteq> listings loads (calls st')"
    using l by (auto simp: st' listings_append)
  assume "r = Inr topics"
  then obtain stdout where so: "q = Inr stdout" "parse_topic_list (json_loads env) stdout = Inr topics"
    using assms q by (auto simp: list_topics_def cbind_apply split: sum.splits)
  from so(1) l obtain exe stderr where
    "calls s = calls st @ [(oci_command cfg exe (list_arguments cfg), Exited 0 stdout stderr)]"
    by auto
  then have "(oci_command cfg exe (list_arguments cfg), Exited 0 stdout stderr) \<in> set (calls st')"
    by (simp add: st')
  moreover have "take 3 (tl (oci_command cfg exe (list_arguments cfg))) = [''ons'', ''topic'', ''list'']"
    by (simp add: oci_command_def list_arguments_def)
  ultimately have "topics \<in> listings (json_loads env) (calls st')"
    using so(2) unfolding listings_def by blast
  then show "topics \<in> listings (json_loads env) (calls st') \<and> distinct (map fst topics)"
    using parse_topic_list_distinct [OF so(2)] by simp
qed

lemma delete_topic_log:
  assumes "delete_topic env cfg executable topic_id st = (r, st')"
  shows "listings loads (calls st) \<subseteq> listings loads (calls st')"
    and "deleted_ids (calls st') = deleted_ids (calls st) @ [topic_id]
      \<or> deleted_ids (calls st') = deleted_ids (calls st) \<and> (\<exists>e. r = Inl e)"
proof -
  obtain q s where q: "run_oci env cfg (delete_arguments topic_id) executable st = (q, s)"
    by fastforce
  note l = run_oci_log [OF q]
  have st': "st' = s" "\<And>e. q = Inl e \<Longrightarrow> r = Inl e"
    using assms q by (auto simp: delete_topic_def cbind_apply split: sum.splits)
  have some: "delete_target (oci_command cfg exe (delete_arguments topic_id)) = Some topic_id" for exe
    by (simp add: oci_command_def delete_arguments_def)
  show "listings loads (calls st) \<subseteq> listings loads (calls st')"
    using l by (auto simp: st'(1) listings_append)
  show "deleted_ids (calls st') = deleted_ids (calls st) @ [topic_id]
      \<or> deleted_ids (calls st') = deleted_ids (calls st) \<and> (\<exists>e. r = Inl e)"
    using l some st'(2) by (auto simp: st'(1))
qed

text \<open>
  The invariant of a run: no Topic is deleted twice, the deleted ones are among those recorded
  as requested, and each of them was seen as an owned Topic in a listing of the log.
\<close>

definition run_inv ::
  "'w cleanup_env \<Rightarrow> cleanup_config \<Rightarrow> scope list \<Rightarrow> string set \<Rightarrow> (string list \<times> outcome) list \<Rightarrow> bool" where
  "run_inv env cfg scopes requested l \<longleftrightarrow>
     distinct (deleted_ids l) \<and> set (deleted_ids l) \<subseteq> requested
     \<and> (\<forall>i \<in> set (deleted_ids l). seen_owned env cfg scopes l i)"

lemma seen_owned_mono:
  "listings (json_loads env) l \<subseteq> listings (json_loads env) l' \<Longrightarrow>
   seen_owned env cfg scopes l i \<Longrightarrow> seen_owned env cfg scopes l' i"
  unfolding seen_owned_def by blast

lemma discover_log:
  assumes "discover env cfg executable scopes known st = (r, st')"
  shows "deleted_ids (calls st') = deleted_ids (calls st)"
    and "listings loads (calls st) \<subseteq> listings loads (calls st')"
    and "r = Inr (topics, delete_ids, owned_ids) \<Longrightarrow>
      topics \<in> listings (json_loads env) (calls st') \<and> distinct (map fst topics)
      \<and> owned_topic_ids (sha256_hex env) cfg topics scopes = Inr (delete_ids, owned_ids)
      \<and> validate_known_topics known topics owned_ids = Inr ()"
proof -
  obtain q where q: "list_topics env cfg executable st = (q, st')"
    using assms by (auto simp: discover_def cbind_apply split: prod.splits sum.splits)
  show "deleted_ids (calls st') = deleted_ids (calls st)"
    and "listings loads (calls st) \<subseteq> listings loads (calls st')"
    by (rule list_topics_log [OF q])+
  assume r: "r = Inr (topics, delete_ids, owned_ids)"
  then have "q = Inr topics \<and> owned_topic_ids (sha256_hex env) cfg topics scopes = Inr (delete_ids, owned_ids)
      \<and> validate_known_topics known topics owned_ids = Inr ()"
    using assms q by (auto simp: discover_def cbind_apply split: sum.splits)
  then show "topics \<in> listings (json_loads env) (calls st') \<and> distinct (map fst topics)
      \<and> owned_topic_ids (sha256_hex env) cfg topics scopes = Inr (delete_ids, owned_ids)
      \<and> validate_known_topics known topics owned_ids = Inr ()"
    using list_topics_log(3) [OF q] by blast
qed

lemma run_inv_discover:
  assumes "discover env cfg executable scopes known st = (r, st')"
    and "run_inv env cfg scopes requested (calls st)"
  shows "run_inv env cfg scopes requested (calls st')"
  using assms(2) discover_log(1) [OF assms(1)]
    seen_owned_mono [OF discover_log(2) [OF assms(1)], of env cfg scopes]
  by (auto simp: run_inv_def)

lemma run_inv_delete:
  assumes "delete_topic env cfg executable i st = (r, st')"
    and "run_inv env cfg scopes requested (calls st)"
    and "i \<notin> requested" and "seen_owned env cfg scopes (calls st) i"
  shows "run_inv env cfg scopes (insert i requested) (calls st')"
    and "seen_owned env cfg scopes (calls st) j \<Longrightarrow> seen_owned env cfg scopes (calls st') j"
proof -
  note mono = seen_owned_mono [OF delete_topic_log(1) [OF assms(1)], of env cfg scopes]
  show "seen_owned env cfg scopes (calls st) j \<Longrightarrow> seen_owned env cfg scopes (calls st') j"
    by (rule mono)
  show "run_inv env cfg scopes (insert i requested) (calls st')"
    using assms(2,3) mono [OF assms(4)] mono delete_topic_log(2) [OF assms(1)]
    by (auto simp: run_inv_def)
qed


lemma delete_new_apply:
  "delete_new env cfg executable requested i st =
     (if i \<in> requested then (Inr requested, st)
      else case delete_topic env cfg executable i st of
          (Inl e, s) \<Rightarrow> (Inl e, s)
        | (Inr _, s) \<Rightarrow> (Inr (insert i requested), s))"
  by (simp add: delete_new_def cbind_apply split: prod.splits sum.splits)

text \<open>
  A loop of delete requests. Whatever happens, the invariant holds at the end for some set of
  requested ids; where the loop returns, it is the set the loop computed.
\<close>

lemma run_inv_delete_new:
  assumes "cfold (delete_new env cfg executable) requested ids st = (r, st')"
    and "run_inv env cfg scopes requested (calls st)"
    and "\<forall>i \<in> set ids. seen_owned env cfg scopes (calls st) i"
  shows "\<exists>requested'. run_inv env cfg scopes requested' (calls st')
    \<and> (\<forall>q. r = Inr q \<longrightarrow> q = requested')"
  using assms
proof (induction ids arbitrary: requested st)
  case Nil
  then show ?case by auto
next
  case (Cons i ids)
  show ?case
  proof (cases "i \<in> requested")
    case True
    then have "cfold (delete_new env cfg executable) requested ids st = (r, st')"
      using Cons.prems(1)
      by (simp add: cfold_Cons_apply delete_new_apply [of _ _ _ requested i st] del: cfold.simps)
    then show ?thesis using Cons.IH Cons.prems(2,3) by simp
  next
    case False
    obtain q s where q: "delete_topic env cfg executable i st = (q, s)" by fastforce
    have inv: "run_inv env cfg scopes (insert i requested) (calls s)"
      using run_inv_delete(1) [OF q Cons.prems(2) False] Cons.prems(3) by simp
    have seen: "\<forall>j \<in> set ids. seen_owned env cfg scopes (calls s) j"
      using run_inv_delete(2) [OF q Cons.prems(2) False] Cons.prems(3) by simp
    show ?thesis
    proof (cases q)
      case (Inl e)
      then have "r = Inl e" "st' = s"
        using Cons.prems(1) q False
        by (simp_all add: cfold_Cons_apply delete_new_apply [of _ _ _ requested i st] del: cfold.simps)
      then show ?thesis using inv by auto
    next
      case (Inr x)
      then have "cfold (delete_new env cfg executable) (insert i requested) ids s = (r, st')"
        using Cons.prems(1) q False
        by (simp add: cfold_Cons_apply delete_new_apply [of _ _ _ requested i st] del: cfold.simps)
      then show ?thesis using Cons.IH inv seen by simp
    qed
  qed
qed

lemma delete_all_is_delete_new:
  assumes "distinct ids" and "set ids \<inter> requested = {}"
  shows "cbind (cfold (\<lambda>_ i. delete_topic env cfg executable i) () ids)
            (\<lambda>_. creturn (requested \<union> set ids)) st
       = cfold (delete_new env cfg executable) requested ids st"
  using assms
proof (induction ids arbitrary: requested st)
  case Nil
  then show ?case by (simp add: cbind_apply)
next
  case (Cons i ids)
  then have "i \<notin> requested" "distinct ids" "set ids \<inter> insert i requested = {}" by auto
  then show ?case
    using Cons.IH [of "insert i requested", symmetric]
    by (auto simp: cbind_apply cfold_Cons_apply delete_new_apply [of _ _ _ requested i st]
        simp del: cfold.simps split: prod.splits sum.splits)
qed

lemma owned_ids_seen:
  assumes "owned_topic_ids (sha256_hex env) cfg topics scopes = Inr (delete_ids, owned_ids)"
    and "scopes \<noteq> []" and "topics \<in> listings (json_loads env) l"
  shows "\<forall>i \<in> set delete_ids. seen_owned env cfg scopes l i"
    and "distinct (map fst topics) \<Longrightarrow> distinct delete_ids"
  using owned_topic_ids_selection [OF assms(1,2)] assms(3)
  by (auto simp: seen_owned_def distinct_map inj_on_def)

lemma poll_topics_step:
  assumes "discover env cfg executable scopes known st = (Inr (topics, delete_ids, owned_ids), s)"
    and "cfold (delete_new env cfg executable) requested delete_ids s = (p, s')"
  shows "poll_topics env cfg executable scopes known (Suc attempts) remaining observed requested st =
    (let remaining' = remaining \<inter> set (map fst topics) \<union> set owned_ids;
         observed' = observed \<union> set owned_ids
     in case p of Inl e \<Rightarrow> (Inl e, s')
        | Inr requested' \<Rightarrow>
            if remaining' = {} then (Inr (card observed'), s')
            else poll_topics env cfg executable scopes known attempts remaining' observed' requested'
                   (if 0 < attempts then s'\<lparr>world := sleep_for env poll_interval (world s')\<rparr> else s'))"
  using assms
  by (cases p) (simp_all add: cbind_run Let_def pause_def cbind_apply [of "\<lambda>st. (Inr (), _ st)"]
      cbind_apply [of "creturn ()"])

lemma run_inv_poll:
  assumes "poll_topics env cfg executable scopes known attempts remaining observed requested st = (r, st')"
    and "run_inv env cfg scopes requested (calls st)" and "scopes \<noteq> []"
  shows "\<exists>requested'. run_inv env cfg scopes requested' (calls st')"
  using assms(1,2)
proof (induction attempts arbitrary: remaining observed requested st)
  case 0
  then show ?case by auto
next
  case (Suc attempts)
  obtain q s where q: "discover env cfg executable scopes known st = (q, s)" by fastforce
  have inv: "run_inv env cfg scopes requested (calls s)"
    by (rule run_inv_discover [OF q Suc.prems(2)])
  show ?case
  proof (cases q)
    case (Inl e)
    then have "st' = s" using Suc.prems(1) q by (simp add: cbind_apply)
    then show ?thesis using inv by blast
  next
    case (Inr f)
    obtain topics delete_ids owned_ids where f: "f = (topics, delete_ids, owned_ids)"
      by (cases f) blast
    have "topics \<in> listings (json_loads env) (calls s)"
      and "owned_topic_ids (sha256_hex env) cfg topics scopes = Inr (delete_ids, owned_ids)"
      using discover_log(3) [OF q, of topics delete_ids owned_ids] Inr f by simp_all
    then have seen: "\<forall>i \<in> set delete_ids. seen_owned env cfg scopes (calls s) i"
      using owned_ids_seen(1) [OF _ assms(3)] by blast
    obtain p s' where p: "cfold (delete_new env cfg executable) requested delete_ids s = (p, s')"
      by fastforce
    obtain requested' where
      inv': "run_inv env cfg scopes requested' (calls s')" and
      eq: "\<forall>x. p = Inr x \<longrightarrow> x = requested'"
      using run_inv_delete_new [OF p inv seen] by blast
    note step = poll_topics_step [OF q [unfolded Inr f] p]
    show ?thesis
    proof (cases p)
      case (Inl e)
      then show ?thesis using step Suc.prems(1) inv' by auto
    next
      case (Inr requested2)
      then have "requested2 = requested'" using eq by blast
      then show ?thesis
        using step Suc.prems(1) inv' Inr Suc.IH by (auto simp: Let_def split: if_splits)
    qed
  qed
qed

text \<open>The scopes collected always start from the current one.\<close>

lemma history_step_Inr:
  "history_step identity st entry = Inr st' \<Longrightarrow>
   \<exists>sc c. scope_pair entry c = Inr sc \<and> scope_deployment_identity sc c = Inr identity
     \<and> st' = add_new scope_identity sc st"
  unfolding history_step_def Let_def by (simp del: scope_pair_Inr) blast

lemma history_scopes_keeps:
  assumes "history_scopes identity history st = Inr st'"
  shows "set (snd st) \<subseteq> set (snd st')"
  using assms unfolding history_scopes_def
proof (rule fold_err_invariant)
  fix entry a a'
  assume sub: "set (snd st) \<subseteq> set (snd a)" and step: "history_step identity a entry = Inr a'"
  obtain sc where a': "a' = add_new scope_identity sc a"
    using history_step_Inr [OF step] by (elim exE conjE)
  have "set (snd a) \<subseteq> set (snd a')" unfolding a' by (rule add_new_keeps)
  with sub show "set (snd st) \<subseteq> set (snd a')" by (rule subset_trans)
qed (rule subset_refl)

lemma load_cleanup_metadata_current:
  assumes "load_cleanup_metadata cfg doc = Inr (scopes, known)"
  shows "config_scope cfg \<in> set scopes"
proof (cases doc)
  case (Doc v)
  then obtain identity history rsc st where
    h: "history_scopes identity history
       (add_new scope_identity rsc ({scope_identity (config_scope cfg)}, [config_scope cfg])) = Inr st"
    and scopes: "scopes = snd st"
    using assms by (auto simp: load_cleanup_metadata_def Let_def)
  have "config_scope cfg \<in> set (snd (add_new scope_identity rsc
      ({scope_identity (config_scope cfg)}, [config_scope cfg])))"
    using add_new_keeps [of "({scope_identity (config_scope cfg)}, [config_scope cfg])"] by auto
  then show ?thesis using history_scopes_keeps [OF h] scopes by auto
qed (use assms in \<open>auto simp: load_cleanup_metadata_def Let_def\<close>)

text \<open>The phases of a run: reading the registry and discovery, deletion, polling.\<close>

lemma cleanup_topics_cases:
  assumes "cleanup_topics env cfg executable attempts st = (r, st')"
  obtains (no_metadata) e where
      "load_cleanup_metadata cfg (read_doc env (registry_path cfg) (world st)) = Inl e"
      "r = Inl e" "st' = st"
  | (rejected) scopes known e where
      "load_cleanup_metadata cfg (read_doc env (registry_path cfg) (world st)) = Inr (scopes, known)"
      "discover env cfg executable scopes known st = (Inl e, st')" "r = Inl e"
  | (accepted) scopes known topics delete_ids wait_ids p s s' where
      "load_cleanup_metadata cfg (read_doc env (registry_path cfg) (world st)) = Inr (scopes, known)"
      "discover env cfg executable scopes known st = (Inr (topics, delete_ids, wait_ids), s)"
      "cfold (\<lambda>_ i. delete_topic env cfg executable i) () delete_ids s = (p, s')"
      "case p of Inl e \<Rightarrow> (r, st') = (Inl e, s')
       | Inr _ \<Rightarrow> poll_topics env cfg executable scopes known attempts
           (set wait_ids) (set wait_ids) (set delete_ids) s' = (r, st')"
proof (cases "load_cleanup_metadata cfg (read_doc env (registry_path cfg) (world st))")
  case (Inl e)
  then have "r = Inl e \<and> st' = st"
    using assms by (simp add: cleanup_topics_def cbind_run)
  then show thesis using no_metadata Inl by blast
next
  case (Inr m)
  obtain scopes known where m: "m = (scopes, known)" by fastforce
  obtain q s where q: "discover env cfg executable scopes known st = (q, s)" by fastforce
  show thesis
  proof (cases q)
    case (Inl e)
    then have "r = Inl e \<and> st' = s"
      using assms q \<open>_ = Inr m\<close> m by (simp add: cleanup_topics_def cbind_run)
    then show thesis using rejected \<open>_ = Inr m\<close> m q Inl by blast
  next
    case q': (Inr f)
    obtain topics delete_ids wait_ids where f: "f = (topics, delete_ids, wait_ids)"
      by (cases f) blast
    obtain p s' where p: "cfold (\<lambda>_ i. delete_topic env cfg executable i) () delete_ids s = (p, s')"
      by fastforce
    have "case p of Inl e \<Rightarrow> (r, st') = (Inl e, s')
       | Inr _ \<Rightarrow> poll_topics env cfg executable scopes known attempts
           (set wait_ids) (set wait_ids) (set delete_ids) s' = (r, st')"
      using assms q q' f p Inr m
      by (cases p) (simp_all add: cleanup_topics_def cbind_run)
    then show thesis using accepted Inr m q q' f p by blast
  qed
qed

lemma cleanup_topics_run_inv:
  assumes "cleanup_topics env cfg executable attempts st = (r, st')" and "calls st = []"
  shows "deleted_ids (calls st') = [] \<or> (\<exists>scopes known requested.
     load_cleanup_metadata cfg (read_doc env (registry_path cfg) (world st)) = Inr (scopes, known)
     \<and> run_inv env cfg scopes requested (calls st'))"
  using assms(1)
proof (cases rule: cleanup_topics_cases)
  case (no_metadata e)
  then show ?thesis using assms(2) by simp
next
  case (rejected scopes known e)
  then show ?thesis using discover_log(1) [OF rejected(2)] assms(2) by simp
next
  case (accepted scopes known topics delete_ids wait_ids p s s')
  have scopes: "scopes \<noteq> []"
    using load_cleanup_metadata_current [OF accepted(1)] by auto
  have empty: "run_inv env cfg scopes {} (calls s)"
    using run_inv_discover [OF accepted(2), of "{}"] assms(2) by (simp add: run_inv_def)
  note d = discover_log(3) [OF accepted(2) refl]
  have seen: "\<forall>i \<in> set delete_ids. seen_owned env cfg scopes (calls s) i"
    and dist: "distinct delete_ids"
    using d owned_ids_seen [OF _ scopes] by blast+
  have loop: "cfold (delete_new env cfg executable) {} delete_ids s
      = (case p of Inl e \<Rightarrow> (Inl e, s') | Inr _ \<Rightarrow> (Inr (set delete_ids), s'))"
    using delete_all_is_delete_new [of delete_ids "{}" env cfg executable s] dist accepted(3)
    by (cases p) (simp_all add: cbind_apply)
  show ?thesis
  proof (cases p)
    case (Inl e)
    with loop have l: "cfold (delete_new env cfg executable) {} delete_ids s = (Inl e, s')"
      by simp
    from run_inv_delete_new [OF l empty seen] show ?thesis using accepted(1,4) Inl by auto
  next
    case (Inr x)
    with loop have l: "cfold (delete_new env cfg executable) {} delete_ids s = (Inr (set delete_ids), s')"
      by simp
    then have inv: "run_inv env cfg scopes (set delete_ids) (calls s')"
      using run_inv_delete_new [OF l empty seen] by simp
    from Inr accepted(4) have "poll_topics env cfg executable scopes known attempts
        (set wait_ids) (set wait_ids) (set delete_ids) s' = (r, st')" by simp
    from run_inv_poll [OF this inv scopes] show ?thesis using accepted(1) by blast
  qed
qed

lemma seen_owned_not_protected:
  "seen_owned env cfg scopes l i \<Longrightarrow> i \<notin> protected_topic_ids cfg"
  by (auto simp: seen_owned_def owned_topic_def)

text \<open>
  C1: whatever the command line answers and however the run ends, a cleanup asks for the
  deletion of each Topic at most once, never of a Topic Terraform protects, and only of Topics
  that a listing of this same run showed to be owned by the deployment being destroyed.
\<close>

theorem cleanup_deletes_only_owned:
  assumes "cleanup_topics env cfg executable attempts st = (r, st')" and "calls st = []"
  shows "distinct (deleted_ids (calls st'))
    \<and> set (deleted_ids (calls st')) \<inter> protected_topic_ids cfg = {}
    \<and> (\<forall>i \<in> set (deleted_ids (calls st')). \<exists>scopes known.
         load_cleanup_metadata cfg (read_doc env (registry_path cfg) (world st)) = Inr (scopes, known)
         \<and> seen_owned env cfg scopes (calls st') i)"
  using cleanup_topics_run_inv [OF assms]
  by (auto simp: run_inv_def dest: seen_owned_not_protected)

subsection \<open>What a successful run reports\<close>

lemma listings_snoc:
  "listings loads (l @ [(command, out)]) = listings loads l \<union>
     (case out of Exited code stdout stderr \<Rightarrow>
        if code = 0 \<and> take 3 (tl command) = [''ons'', ''topic'', ''list'']
        then {topics. parse_topic_list loads stdout = Inr topics} else {}
      | _ \<Rightarrow> {})"
  by (cases out) (auto simp: listings_append listings_def)

lemma discover_listing:
  assumes "discover env cfg executable scopes known st = (Inr (topics, delete_ids, owned_ids), st')"
  shows "\<exists>command stdout stderr. calls st' = calls st @ [(command, Exited 0 stdout stderr)]
      \<and> parse_topic_list (json_loads env) stdout = Inr topics"
    and "listings (json_loads env) (calls st') = insert topics (listings (json_loads env) (calls st))"
proof -
  obtain stdout where
    q: "run_oci env cfg (list_arguments cfg) executable st = (Inr stdout, st')" and
    t: "parse_topic_list (json_loads env) stdout = Inr topics"
    using assms by (auto simp: discover_def list_topics_def cbind_apply split: prod.splits sum.splits)
  obtain exe stderr where
    c: "calls st' = calls st @ [(oci_command cfg exe (list_arguments cfg), Exited 0 stdout stderr)]"
    using run_oci_log [OF q] by auto
  then show "\<exists>command stdout stderr. calls st' = calls st @ [(command, Exited 0 stdout stderr)]
      \<and> parse_topic_list (json_loads env) stdout = Inr topics"
    using t by blast
  have "take 3 (tl (oci_command cfg exe (list_arguments cfg))) = [''ons'', ''topic'', ''list'']"
    by (simp add: oci_command_def list_arguments_def)
  then show "listings (json_loads env) (calls st') = insert topics (listings (json_loads env) (calls st))"
    using t by (simp add: c listings_snoc)
qed

lemma delete_topic_listings:
  assumes "delete_topic env cfg executable i st = (r, st')"
  shows "listings loads (calls st') = listings loads (calls st)"
proof -
  obtain q where q: "run_oci env cfg (delete_arguments i) executable st = (q, st')"
    using assms by (auto simp: delete_topic_def cbind_apply split: prod.splits sum.splits)
  have "take 3 (tl (oci_command cfg exe (delete_arguments i))) = [''ons'', ''topic'', ''delete'']" for exe
    by (simp add: oci_command_def delete_arguments_def)
  then show ?thesis using run_oci_log [OF q] by (auto simp: listings_snoc split: outcome.splits)
qed

lemma delete_new_listings:
  assumes "cfold (delete_new env cfg executable) requested ids st = (r, st')"
  shows "listings loads (calls st') = listings loads (calls st)"
proof -
  let ?R = "\<lambda>s s'. listings loads (calls s') = listings loads (calls s)"
  have "keeps ?R (delete_new env cfg executable requested i)" for requested i
    by (rule keepsI)
      (auto simp: delete_new_apply split: if_splits prod.splits sum.splits dest: delete_topic_listings)
  then have "keeps ?R (cfold (delete_new env cfg executable) requested ids)"
    by (intro keeps_cfold) (auto simp: reflp_def transp_def)
  then show ?thesis using assms by (rule keepsD)
qed

definition owned_seen ::
  "'w cleanup_env \<Rightarrow> cleanup_config \<Rightarrow> scope list \<Rightarrow> (string list \<times> outcome) list \<Rightarrow> string set" where
  "owned_seen env cfg scopes l =
     (\<Union>topics \<in> listings (json_loads env) l.
        fst ` set (filter (owned_topic (sha256_hex env) cfg scopes) topics))"

lemma owned_seen_discover:
  assumes "discover env cfg executable scopes known st = (Inr (topics, delete_ids, owned_ids), st')"
    and "scopes \<noteq> []"
  shows "owned_seen env cfg scopes (calls st') = owned_seen env cfg scopes (calls st) \<union> set owned_ids"
    and "owned_ids = map fst (filter (owned_topic (sha256_hex env) cfg scopes) topics)"
    and "owned_ids = [] \<Longrightarrow> delete_ids = []"
proof -
  have o: "owned_topic_ids (sha256_hex env) cfg topics scopes = Inr (delete_ids, owned_ids)"
    using discover_log(3) [OF assms(1) refl] by blast
  show owned: "owned_ids = map fst (filter (owned_topic (sha256_hex env) cfg scopes) topics)"
    using owned_topic_ids_selection [OF o assms(2)] by simp
  show "owned_ids = [] \<Longrightarrow> delete_ids = []"
    using owned_topic_ids_selection [OF o assms(2)] by (auto simp: filter_empty_conv)
  show "owned_seen env cfg scopes (calls st') = owned_seen env cfg scopes (calls st) \<union> set owned_ids"
    by (simp add: owned_seen_def discover_listing(2) [OF assms(1)] owned Un_commute)
qed

definition ends_without_owned ::
  "'w cleanup_env \<Rightarrow> cleanup_config \<Rightarrow> scope list \<Rightarrow> (string list \<times> outcome) list \<Rightarrow> bool" where
  "ends_without_owned env cfg scopes l \<longleftrightarrow>
     (\<exists>l' command stdout stderr topics. l = l' @ [(command, Exited 0 stdout stderr)]
        \<and> parse_topic_list (json_loads env) stdout = Inr topics
        \<and> filter (owned_topic (sha256_hex env) cfg scopes) topics = [])"

lemma poll_topics_success:
  assumes "poll_topics env cfg executable scopes known attempts remaining observed requested st = (Inr n, st')"
    and "observed = owned_seen env cfg scopes (calls st)" and "scopes \<noteq> []"
  shows "n = card (owned_seen env cfg scopes (calls st')) \<and> ends_without_owned env cfg scopes (calls st')"
  using assms(1,2)
proof (induction attempts arbitrary: remaining observed requested st)
  case 0
  then show ?case by simp
next
  case (Suc attempts)
  obtain topics delete_ids owned_ids s where
    q: "discover env cfg executable scopes known st = (Inr (topics, delete_ids, owned_ids), s)"
    using Suc.prems(1) by (auto simp: cbind_apply split: prod.splits sum.splits)
  obtain p s' where p: "cfold (delete_new env cfg executable) requested delete_ids s = (p, s')"
    by fastforce
  note o = owned_seen_discover [OF q assms(3)]
  note step = poll_topics_step [OF q p, of attempts remaining observed]
  have seen: "owned_seen env cfg scopes (calls s') = observed \<union> set owned_ids"
    using o(1) Suc.prems(2) delete_new_listings [OF p, of "json_loads env"] by (simp add: owned_seen_def)
  obtain requested' where p': "p = Inr requested'"
    using step Suc.prems(1) by (cases p) (auto simp: Let_def)
  show ?case
  proof (cases "remaining \<inter> set (map fst topics) \<union> set owned_ids = {}")
    case True
    then have none: "owned_ids = []" "delete_ids = []" using o(3) by auto
    then have "st' = s" "n = card (observed \<union> set owned_ids)" "s' = s"
      using step Suc.prems(1) p p' True by (simp_all add: Let_def)
    then show ?thesis
      using seen o(2) none(1) discover_listing(1) [OF q]
      by (auto simp: ends_without_owned_def)
  next
    case False
    let ?s = "if 0 < attempts then s'\<lparr>world := sleep_for env poll_interval (world s')\<rparr> else s'"
    have "poll_topics env cfg executable scopes known attempts
        (remaining \<inter> set (map fst topics) \<union> set owned_ids) (observed \<union> set owned_ids) requested' ?s = (Inr n, st')"
      using step Suc.prems(1) p' False by (simp only: Let_def sum.case if_False)
    then show ?thesis
      by (rule Suc.IH) (simp add: seen)
  qed
qed

text \<open>
  C2: a cleanup that reports success has really finished: its last reading of the Topics showed
  no owned Topic left, and the number it reports is the number of distinct owned Topics that
  its readings showed, those created while it ran included.
\<close>

theorem cleanup_success:
  assumes "cleanup_topics env cfg executable attempts st = (Inr n, st')" and "calls st = []"
  shows "\<exists>scopes known.
    load_cleanup_metadata cfg (read_doc env (registry_path cfg) (world st)) = Inr (scopes, known)
    \<and> n = card (owned_seen env cfg scopes (calls st'))
    \<and> ends_without_owned env cfg scopes (calls st')"
  using assms(1)
proof (cases rule: cleanup_topics_cases)
  case (accepted scopes known topics delete_ids wait_ids p s s')
  have scopes: "scopes \<noteq> []"
    using load_cleanup_metadata_current [OF accepted(1)] by auto
  have dist: "distinct delete_ids"
    using discover_log(3) [OF accepted(2) refl] owned_ids_seen(2) [OF _ scopes] by blast
  obtain x where p: "p = Inr x"
    using accepted(4) by (cases p) auto
  have "cfold (delete_new env cfg executable) {} delete_ids s = (Inr (set delete_ids), s')"
    using delete_all_is_delete_new [of delete_ids "{}" env cfg executable s] dist accepted(3) p
    by (simp add: cbind_run)
  then have "listings (json_loads env) (calls s') = listings (json_loads env) (calls s)"
    by (rule delete_new_listings)
  moreover have "listings (json_loads env) [] = {}" by (simp add: listings_def)
  ultimately have "owned_seen env cfg scopes (calls s') = set wait_ids"
    using owned_seen_discover(1) [OF accepted(2) scopes] assms(2) by (simp add: owned_seen_def)
  moreover have "poll_topics env cfg executable scopes known attempts
      (set wait_ids) (set wait_ids) (set delete_ids) s' = (Inr n, st')"
    using accepted(4) p by simp
  ultimately show ?thesis
    using poll_topics_success [OF _ _ scopes] accepted(1) by metis
qed simp_all

text \<open>
  Nothing is deleted before everything has been checked. If the first reading of the Topics
  fails, shows a malformed or misnamed owned Topic, or shows a registered Topic that has lost
  its ownership tags, then the run ends with an error and its log holds no delete command.
\<close>

lemma cleanup_validates_before_deleting:
  assumes "cleanup_topics env cfg executable attempts st = (r, st')" and "calls st = []"
    and "load_cleanup_metadata cfg (read_doc env (registry_path cfg) (world st)) = Inr (scopes, known)"
    and "list_topics env cfg executable st = (q, s)"
    and "\<not> (\<exists>topics delete_ids wait_ids. q = Inr topics
       \<and> owned_topic_ids (sha256_hex env) cfg topics scopes = Inr (delete_ids, wait_ids)
       \<and> known \<inter> set (map fst topics) \<subseteq> set wait_ids)"
  shows "(\<exists>e. r = Inl e) \<and> st' = s \<and> deleted_ids (calls st') = []"
proof -
  have "\<exists>e. discover env cfg executable scopes known st = (Inl e, s)"
  proof (cases q)
    case (Inl e)
    then show ?thesis using assms(4) by (simp add: discover_def cbind_run)
  next
    case (Inr topics)
    then show ?thesis
      using assms(4,5)
      by (cases "owned_topic_ids (sha256_hex env) cfg topics scopes")
        (auto simp: discover_def cbind_run validate_known_topics_def check_def Let_def)
  qed
  then obtain e where d: "discover env cfg executable scopes known st = (Inl e, s)" by blast
  then have "r = Inl e" "st' = s"
    using assms(1,3) by (simp_all add: cleanup_topics_def cbind_run)
  then show ?thesis using discover_log(1) [OF d] assms(2) by simp
qed

section \<open>Names and scopes\<close>

lemma dash_runs_chars: "list_all topic_char (dash_runs b s)"
  by (induction b s rule: dash_runs.induct) (auto simp: topic_char_def)

lemma strip_by_subset: "set (strip_by p s) \<subseteq> set s"
proof -
  obtain t where "lstrip_by p s = strip_by p s @ t"
    using rstrip_by_prefix [of "lstrip_by p s" p] by (auto simp: strip_by_def)
  then have "set (strip_by p s) \<subseteq> set (lstrip_by p s)" by (metis Un_upper1 set_append)
  also have "\<dots> \<subseteq> set s"
    unfolding lstrip_by_def by (metis set_dropWhileD subsetI)
  finally show ?thesis .
qed

text \<open>
  Whatever the cluster and the user are called, each component of a Topic name is between
  1 and 48 characters long and made of lower-case letters, digits, underscores and dashes
  only, and the whole name is at most 116 characters long.
\<close>

lemma topic_name_bounds:
  "list_all topic_char (topic_component s) \<and> topic_component s \<noteq> [] \<and> length (topic_component s) \<le> 48
   \<and> length (notification_topic_name sha sc user) \<le> 116"
proof -
  have len: "length (topic_component v) \<le> 48" for v
    by (simp add: topic_component_def Let_def)
  have "list_all topic_char (strip_by (\<lambda>c. c = CHR ''-'' \<or> c = CHR ''_'') (dash_runs False (py_lower s)))"
    using dash_runs_chars strip_by_subset by (fastforce simp: list_all_iff)
  then have "list_all topic_char (topic_component s)"
    by (auto simp: topic_component_def Let_def list_all_iff topic_char_def is_lower_alpha_def
        dest: in_set_takeD)
  moreover have "topic_component s \<noteq> []"
    by (simp add: topic_component_def Let_def)
  moreover have "length (notification_topic_name sha sc user) \<le> 116"
    using len [of "sc_cluster_name sc"] len [of user]
    by (simp add: notification_topic_name_def Let_def)
  ultimately show ?thesis using len by blast
qed

text \<open>The seed's reading of a scope and the cleanup's agree.\<close>

lemma history_entry_scope_pair:
  "history_entry_scope entry = Inr sc \<Longrightarrow> scope_pair entry c = Inr sc"
  by (auto simp: history_entry_scope_def notification_scope_Some scope_ok_def
      split: option.splits sum.splits)

lemma seed_history_origin:
  assumes "cleanup_scope_history config = Inr h" and "sc \<in> set h"
  shows "\<exists>history entry. jget_or config ''cleanup_scopes'' (JArr []) = JArr history
    \<and> entry \<in> set history \<and> history_entry_scope entry = Inr sc"
proof -
  obtain history st where
    hist: "jget_or config ''cleanup_scopes'' (JArr []) = JArr history" and
    f: "fold_err (\<lambda>st entry. rbind (history_entry_scope entry)
          (\<lambda>sc. Inr (add_new scope_identity sc st))) ({}, []) history = Inr st" and
    h: "h = snd st"
    using assms(1) by (auto simp: cleanup_scope_history_def split: option.splits)
  from f have "\<forall>sc \<in> set (snd st). \<exists>entry \<in> set history. history_entry_scope entry = Inr sc"
  proof (rule fold_err_invariant)
    fix a entry a'
    assume entry: "entry \<in> set history"
      and a: "\<forall>sc \<in> set (snd a). \<exists>entry \<in> set history. history_entry_scope entry = Inr sc"
      and step: "rbind (history_entry_scope entry) (\<lambda>sc. Inr (add_new scope_identity sc a)) = Inr a'"
    then obtain sc where sc: "history_entry_scope entry = Inr sc" "a' = add_new scope_identity sc a"
      by auto
    have "set (snd a') \<subseteq> insert sc (set (snd a))" unfolding sc(2) by (rule add_new_origin)
    then show "\<forall>sc \<in> set (snd a'). \<exists>entry \<in> set history. history_entry_scope entry = Inr sc"
      using entry a sc(1) by blast
  qed simp
  then show ?thesis using assms(2) hist h by blast
qed

lemma history_scopes_covers:
  assumes "history_scopes identity history st = Inr st'" and "unique_log scope_identity st"
  shows "unique_log scope_identity st'
    \<and> (\<forall>entry \<in> set history. \<forall>c sc. scope_pair entry c = Inr sc \<longrightarrow> sc \<in> set (snd st'))
    \<and> (\<forall>sc \<in> set (snd st') - set (snd st). \<exists>c. scope_deployment_identity sc c = Inr identity)"
  using assms(1) unfolding history_scopes_def
proof (rule fold_err_invariant_prefix)
  fix ys entry zs a a'
  assume a: "unique_log scope_identity a
      \<and> (\<forall>entry \<in> set ys. \<forall>c sc. scope_pair entry c = Inr sc \<longrightarrow> sc \<in> set (snd a))
      \<and> (\<forall>sc \<in> set (snd a) - set (snd st). \<exists>c. scope_deployment_identity sc c = Inr identity)"
    and step: "history_step identity a entry = Inr a'"
  obtain sc c where sc: "scope_pair entry c = Inr sc"
      "scope_deployment_identity sc c = Inr identity" and a': "a' = add_new scope_identity sc a"
    using history_step_Inr [OF step] by (elim exE conjE)
  have same: "sc' = sc" if "scope_pair entry c' = Inr sc'" for c' sc'
  proof (cases sc, cases sc')
    fix n i n' i'
    assume "sc = \<lparr>sc_cluster_name = n, sc_scope_id = i\<rparr>" "sc' = \<lparr>sc_cluster_name = n', sc_scope_id = i'\<rparr>"
    then show ?thesis using that sc(1) by auto
  qed
  have "set (snd a) \<subseteq> set (snd a')" "set (snd a') \<subseteq> insert sc (set (snd a))"
    unfolding a' by (rule add_new_keeps, rule add_new_origin)
  moreover have "unique_log scope_identity a'" "sc \<in> set (snd a')"
    unfolding a' using a by (auto intro: add_new_inj_has inj_scope_identity)
  ultimately show "unique_log scope_identity a'
      \<and> (\<forall>entry \<in> set (ys @ [entry]). \<forall>c sc. scope_pair entry c = Inr sc \<longrightarrow> sc \<in> set (snd a'))
      \<and> (\<forall>sc \<in> set (snd a') - set (snd st). \<exists>c. scope_deployment_identity sc c = Inr identity)"
    using a sc(2) same by (simp only: set_append list.set Ball_def) blast
qed (use assms(2) in simp)

text \<open>
  C4: the final destroy searches under every scope the registry ever recorded. If the cleanup
  accepts a registry document, the scopes it uses include each scope that the seed's readers see in
  the document, current or in the history, and the scope of its own configuration; they are pairwise
  distinct.
\<close>

theorem cleanup_covers_recorded_scopes:
  assumes "load_cleanup_metadata cfg doc = Inr (scopes, known)"
  shows "recorded_scopes doc \<subseteq> set scopes \<and> distinct (map scope_identity scopes)
    \<and> config_scope cfg \<in> set scopes"
proof (cases doc)
  case Absent
  then show ?thesis
    using assms by (auto simp: load_cleanup_metadata_def recorded_scopes_def load_json_def
        empty_registry_def registry_config_def jget_or_def config_scopes_def
        cleanup_scope_history_def notification_scope_def jget_def Let_def)
next
  case Unreadable
  then show ?thesis using assms by (auto simp: load_cleanup_metadata_def Let_def)
next
  case (Doc v)
  let ?st = "\<lambda>rsc. add_new scope_identity rsc ({scope_identity (config_scope cfg)}, [config_scope cfg])"
  obtain registry rc rsc c identity history st where
    v: "v = JObj registry" and rc: "jget registry ''config'' = JObj rc" and
    rsc: "scope_pair (JObj rc) c = Inr rsc" and
    hist: "jget_or rc ''cleanup_scopes'' (JArr []) = JArr history" and
    h: "history_scopes identity history (?st rsc) = Inr st" and scopes: "scopes = snd st"
    using assms Doc by (auto simp: load_cleanup_metadata_def Let_def simp del: scope_pair_Inr)
  have log: "unique_log scope_identity (?st rsc)"
    by (rule unique_log_add_new) (simp add: unique_log_def)
  note cov = history_scopes_covers [OF h log]
  have "rsc \<in> set (snd (?st rsc))"
    by (rule add_new_inj_has [OF _ inj_scope_identity]) (simp add: unique_log_def)
  then have "rsc \<in> set scopes"
    using history_scopes_keeps [OF h] scopes by blast
  moreover have "registry_config registry = rc"
    using rc by (auto simp: registry_config_def jget_def jget_or_def split: option.splits)
  moreover have "notification_scope rc = Inr (Some rsc)"
    using rsc by (auto simp: notification_scope_Some scope_ok_def)
  moreover have "sc \<in> set scopes" if "cleanup_scope_history rc = Inr h'" "sc \<in> set h'" for h' sc
    using seed_history_origin [OF that] hist cov history_entry_scope_pair scopes by fastforce
  ultimately have "recorded_scopes doc \<subseteq> set scopes"
    by (auto simp: Doc v recorded_scopes_def load_json_def config_scopes_def split: sum.splits)
  then show ?thesis
    using cov scopes load_cleanup_metadata_current [OF assms] by (simp add: unique_log_def)
qed

section \<open>A concrete run\<close>

text \<open>
  A compartment with one owned Topic and one that Terraform protects; the listing is empty once
  a delete command has run. The world counts the commands.
\<close>

definition sample_cleanup_config :: cleanup_config where
  "sample_cleanup_config =
     \<lparr>region = ''r1'', compartment_id = ''ocid1.tenancy.t'', cluster_name = ''c'',
      cluster_scope_id = ''c:r:0123456789ab'',
      deployment_id = ''0123456789abcdef0123456789abcdef'', registry_path = ''/r'',
      protected_topic_ids = {''ocid1.onstopic.p''}\<rparr>"

definition sample_topic :: "char jdict" where
  "sample_topic =
     [(''topic-id'', JStr ''ocid1.onstopic.a''), (''name'', JStr ''slurm-c-bob-00''),
      (''lifecycle-state'', JStr ''ACTIVE''),
      (''freeform-tags'', JObj [(''managed_by'', JStr ''cluster-cli''),
        (''notification_scope'', JStr ''c:r:0123456789ab''), (''cluster_name'', JStr ''c''),
        (''parent_cluster'', JStr ''c''), (''slurm_user'', JStr ''bob'')])]"

definition sample_payload :: "char json" where
  "sample_payload = JObj [(''data'', JArr [JObj sample_topic,
     JObj [(''topic-id'', JStr ''ocid1.onstopic.p'')]])]"

definition sample_env :: "nat cleanup_env" where
  "sample_env =
     \<lparr>oci_cli = (\<lambda>command n. (Exited 0 (if n = 0 then ''one'' else ''none'') [], Suc n)),
      json_loads = (\<lambda>s. Some (if s = ''one'' then sample_payload else JObj [(''data'', JArr [])])),
      b64_json_decode = (\<lambda>_. None), sha256_hex = (\<lambda>_. ''00''), read_doc = (\<lambda>_ _. Absent),
      sleep_for = (\<lambda>_ n. n), home_directory = [], is_executable = (\<lambda>_. True), which_oci = []\<rparr>"

definition sample_start :: "nat cleanup_state" where
  "sample_start = \<lparr>world = 0, calls = []\<rparr>"

definition sample_run :: "(cleanup_error + nat) \<times> nat cleanup_state" where
  "sample_run = cleanup_topics sample_env sample_cleanup_config (Some ''oci'') 3 sample_start"

lemma sample_run: "fst sample_run = Inr 1 \<and> deleted_ids (calls (snd sample_run)) = [''ocid1.onstopic.a'']"
  by code_simp

lemma sample_metadata:
  "load_cleanup_metadata sample_cleanup_config (read_doc sample_env (registry_path sample_cleanup_config)
     (world sample_start)) = Inr ([config_scope sample_cleanup_config], {})"
  by code_simp

theorem owned_topic_ids_spec_witness:
  "owned_topic_ids (\<lambda>_. ''00'') sample_cleanup_config [(''ocid1.onstopic.a'', sample_topic)]
      [config_scope sample_cleanup_config] = Inr ([''ocid1.onstopic.a''], [''ocid1.onstopic.a''])
   \<and> {''ocid1.onstopic.a''} \<inter> protected_topic_ids sample_cleanup_config = {}"
proof -
  have o: "owned_topic_ids (\<lambda>_. ''00'') sample_cleanup_config [(''ocid1.onstopic.a'', sample_topic)]
      [config_scope sample_cleanup_config] = Inr ([''ocid1.onstopic.a''], [''ocid1.onstopic.a''])"
    by code_simp
  show ?thesis using owned_topic_ids_spec [OF o] o by simp
qed

theorem cleanup_deletes_only_owned_witness:
  "deleted_ids (calls (snd sample_run)) \<noteq> []
   \<and> set (deleted_ids (calls (snd sample_run))) \<inter> protected_topic_ids sample_cleanup_config = {}"
proof -
  have run: "cleanup_topics sample_env sample_cleanup_config (Some ''oci'') 3 sample_start
      = (fst sample_run, snd sample_run)" and start: "calls sample_start = []"
    by (simp_all add: sample_run_def sample_start_def)
  show ?thesis using cleanup_deletes_only_owned [OF run start] sample_run by simp
qed

theorem cleanup_success_witness:
  "fst sample_run = Inr 1 \<and> (\<exists>scopes. 1 = card (owned_seen sample_env sample_cleanup_config scopes
     (calls (snd sample_run))))"
proof -
  have run: "cleanup_topics sample_env sample_cleanup_config (Some ''oci'') 3 sample_start
      = (Inr 1, snd sample_run)" and start: "calls sample_start = []"
    using sample_run by (simp_all add: sample_run_def sample_start_def prod_eq_iff)
  show ?thesis using cleanup_success [OF run start] sample_run by blast
qed

text \<open>With a registered Topic that is listed but not owned, the run stops before any deletion.\<close>

definition sample_drift_env :: "nat cleanup_env" where
  "sample_drift_env = sample_env\<lparr>oci_cli := (\<lambda>command n. (TimedOut, Suc n))\<rparr>"

lemma cleanup_validates_before_deleting_witness:
  "\<exists>e st'. cleanup_topics sample_drift_env sample_cleanup_config (Some ''oci'') 3 sample_start = (Inl e, st')
     \<and> deleted_ids (calls st') = []"
proof -
  obtain r st' where
    run: "cleanup_topics sample_drift_env sample_cleanup_config (Some ''oci'') 3 sample_start = (r, st')"
    by fastforce
  have m: "load_cleanup_metadata sample_cleanup_config (read_doc sample_drift_env
      (registry_path sample_cleanup_config) (world sample_start))
      = Inr ([config_scope sample_cleanup_config], {})"
    using sample_metadata by (simp add: sample_drift_env_def)
  obtain q s where l: "list_topics sample_drift_env sample_cleanup_config (Some ''oci'') sample_start = (q, s)"
    by fastforce
  have "q = Inl (CleanupError ''OCI CLI timed out after 120 seconds'')"
    using l by (simp add: list_topics_def run_oci_def call_oci_def cbind_apply sample_drift_env_def)
  then have "\<not> (\<exists>topics delete_ids wait_ids. q = Inr topics
       \<and> owned_topic_ids (sha256_hex sample_drift_env) sample_cleanup_config topics
           [config_scope sample_cleanup_config] = Inr (delete_ids, wait_ids)
       \<and> {} \<inter> set (map fst topics) \<subseteq> set wait_ids)" by simp
  from cleanup_validates_before_deleting [OF run _ m l this] run show ?thesis
    by (auto simp: sample_start_def)
qed

definition sample_cleanup_registry :: "char doc" where
  "sample_cleanup_registry = Doc (JObj [(''config'', JObj
     [(''deployment_id'', JStr ''0123456789abcdef0123456789abcdef''),
      (''cluster_name'', JStr ''d''), (''cluster_scope_id'', JStr ''d:r:0123456789ab'')]),
     (''users'', JObj [])])"

theorem cleanup_covers_recorded_scopes_witness:
  "recorded_scopes sample_cleanup_registry \<noteq> {} \<and> (\<exists>scopes known.
     load_cleanup_metadata sample_cleanup_config sample_cleanup_registry = Inr (scopes, known)
     \<and> recorded_scopes sample_cleanup_registry \<subseteq> set scopes)"
proof -
  have "load_cleanup_metadata sample_cleanup_config sample_cleanup_registry
    = Inr ([config_scope sample_cleanup_config,
        \<lparr>sc_cluster_name = ''d'', sc_scope_id = ''d:r:0123456789ab''\<rparr>], {})"
    by code_simp
  moreover have "recorded_scopes sample_cleanup_registry \<noteq> {}"
    by (simp add: recorded_scopes_def sample_cleanup_registry_def load_json_def registry_config_def
        jget_or_def config_scopes_def notification_scope_def jget_def)
  ultimately show ?thesis using cleanup_covers_recorded_scopes by blast
qed

end
