(* ===== verification/Notification_Text.thy ===== *)
theory Notification_Text
  imports Json_Data "HOL-Library.Code_Target_Nat"
begin

text \<open>
  Texts of notifications, as lists of Unicode code points: their size in UTF-8, the JSON text
  the OCI SDK sends for a title and a body, and the limits both
  \<open>slurm_oci_mailprog.py\<close> and \<open>slurm_oci_notify_worker.py\<close> impose.
\<close>

section \<open>UTF-8\<close>

text \<open>A code point a Python string may hold but UTF-8 cannot: \<open>encode\<close> raises on it.\<close>

definition surrogate :: "nat \<Rightarrow> bool" where
  "surrogate c \<longleftrightarrow> 55296 \<le> c \<and> c \<le> 57343"

definition encodable :: "ustr \<Rightarrow> bool" where
  "encodable s \<longleftrightarrow> list_all (\<lambda>c. \<not> surrogate c) s"

definition utf8_width :: "nat \<Rightarrow> nat" where
  "utf8_width c = (if c < 128 then 1 else if c < 2048 then 2 else if c < 65536 then 3 else 4)"

definition utf8_size :: "ustr \<Rightarrow> nat" where
  "utf8_size s = sum_list (map utf8_width s)"

text \<open>Every string of a JSON value can be written as UTF-8.\<close>

fun json_encodable :: "nat json \<Rightarrow> bool" where
  "json_encodable (JStr s) = encodable s"
| "json_encodable (JArr xs) = list_all json_encodable xs"
| "json_encodable (JObj d) = list_all (\<lambda>(k, v). encodable k \<and> json_encodable v) d"
| "json_encodable _ = True"

section \<open>The published JSON text\<close>

definition hex_digit :: "nat \<Rightarrow> nat" where
  "hex_digit d = (if d < 10 then 48 + d else 87 + d)"

definition unicode_escape :: "nat \<Rightarrow> ustr" where
  "unicode_escape c = [92, 117] @ [hex_digit (c div 4096 mod 16), hex_digit (c div 256 mod 16),
     hex_digit (c div 16 mod 16), hex_digit (c mod 16)]"

text \<open>\<open>json.dumps\<close> with \<open>ensure_ascii\<close>: everything outside \<open>' '..'~'\<close> is escaped.\<close>

definition json_escape :: "nat \<Rightarrow> ustr" where
  "json_escape c =
     (if c = 34 then [92, 34] else if c = 92 then [92, 92]
      else if c = 10 then [92, 110] else if c = 13 then [92, 114] else if c = 9 then [92, 116]
      else if c = 12 then [92, 102] else if c = 8 then [92, 98]
      else if 32 \<le> c \<and> c \<le> 126 then [c]
      else if c < 65536 then unicode_escape c
      else unicode_escape (55296 + (c - 65536) div 1024) @ unicode_escape (56320 + (c - 65536) mod 1024))"

definition json_string :: "ustr \<Rightarrow> ustr" where
  "json_string s = [34] @ concat (map json_escape s) @ [34]"

definition publish_payload :: "ustr \<Rightarrow> ustr \<Rightarrow> ustr" where
  "publish_payload title body =
     u ''{'' @ json_string (u ''title'') @ u '': '' @ json_string title @ u '', ''
     @ json_string (u ''body'') @ u '': '' @ json_string body @ u ''}''"

text \<open>The text is ASCII, so its size in UTF-8 is its length.\<close>

definition publish_payload_size :: "ustr \<Rightarrow> ustr \<Rightarrow> nat" where
  "publish_payload_size title body = utf8_size (publish_payload title body)"

definition max_title_bytes :: nat where
  "max_title_bytes = 512"

definition max_publish_payload_bytes :: nat where
  "max_publish_payload_bytes = 60 * 1024"

section \<open>Fields\<close>

definition lower_digit_dash :: "nat \<Rightarrow> bool" where
  "lower_digit_dash c \<longleftrightarrow> 97 \<le> c \<and> c \<le> 122 \<or> 48 \<le> c \<and> c \<le> 57 \<or> c = 45"

text \<open>
  \<open>re.match(r"^[a-z0-9-]+$", s)\<close>: \<open>$\<close> also matches before a final line end.
\<close>

definition valid_region :: "ustr \<Rightarrow> bool" where
  "valid_region s \<longleftrightarrow>
     (let t = (if s \<noteq> [] \<and> last s = 10 then butlast s else s)
      in t \<noteq> [] \<and> list_all lower_digit_dash t)"

definition topic_prefix :: ustr where
  "topic_prefix = u ''ocid1.onstopic.''"

section \<open>Sizes\<close>

definition json_size :: "ustr \<Rightarrow> nat" where
  "json_size s = sum_list (map (length \<circ> json_escape) s)"

lemma json_size_simps [simp]:
  "json_size [] = 0" "json_size (c # s) = length (json_escape c) + json_size s"
  "json_size (s @ t) = json_size s + json_size t"
  by (simp_all add: json_size_def)

lemma length_concat_escape: "length (concat (map json_escape s)) = json_size s"
  by (simp add: json_size_def length_concat comp_def)

lemma hex_digit_ascii: "d < 16 \<Longrightarrow> hex_digit d < 128"
  by (simp add: hex_digit_def)

lemma json_escape_ascii: "x \<in> set (json_escape c) \<Longrightarrow> x < 128"
  by (auto simp: json_escape_def unicode_escape_def hex_digit_ascii split: if_splits)

lemma utf8_size_append [simp]: "utf8_size (s @ t) = utf8_size s + utf8_size t"
  by (simp add: utf8_size_def)

lemma utf8_size_ascii: "\<forall>x \<in> set s. x < 128 \<Longrightarrow> utf8_size s = length s"
  by (induction s) (auto simp: utf8_size_def utf8_width_def)

lemma publish_payload_ascii: "x \<in> set (publish_payload title body) \<Longrightarrow> x < 128"
  by (auto simp: publish_payload_def json_string_def u_def dest: json_escape_ascii)

lemma publish_payload_size: "publish_payload_size title body = 25 + json_size title + json_size body"
proof -
  have "publish_payload_size title body = length (publish_payload title body)"
    unfolding publish_payload_size_def by (rule utf8_size_ascii) (use publish_payload_ascii in blast)
  also have "\<dots> = 25 + json_size title + json_size body"
    by (simp add: publish_payload_def json_string_def length_concat_escape json_escape_def)
  finally show ?thesis .
qed

lemma json_escape_length: "1 \<le> length (json_escape c)" "length (json_escape c) \<le> 12"
  by (auto simp: json_escape_def unicode_escape_def)

lemma json_size_bounds: "length s \<le> json_size s" "json_size s \<le> 12 * length s"
proof (induction s)
  case (Cons c s)
  {
    case 1
    then show ?case using Cons json_escape_length [of c] by simp
  next
    case 2
    then show ?case using Cons json_escape_length [of c] by simp
  }
qed simp_all

lemma encodable_simps [simp]:
  "encodable []" "encodable (c # s) \<longleftrightarrow> \<not> surrogate c \<and> encodable s"
  "encodable (s @ t) \<longleftrightarrow> encodable s \<and> encodable t"
  by (auto simp: encodable_def)

end
