(* ===== verification/Utf8.thy ===== *)
theory Utf8
  imports Notification_Text
begin

text \<open>
  UTF-8 as Python's codec does it: encoding code points to bytes, decoding with
  \<open>errors="ignore"\<close>, and what cutting an encoded text at a byte does to it.
\<close>

definition utf8_bytes :: "nat \<Rightarrow> nat list" where
  "utf8_bytes c =
     (if c < 128 then [c]
      else if c < 2048 then [192 + c div 64, 128 + c mod 64]
      else if c < 65536 then [224 + c div 4096, 128 + c div 64 mod 64, 128 + c mod 64]
      else [240 + c div 262144, 128 + c div 4096 mod 64, 128 + c div 64 mod 64, 128 + c mod 64])"

definition utf8_encode :: "ustr \<Rightarrow> nat list" where
  "utf8_encode s = concat (map utf8_bytes s)"

text \<open>How many bytes must follow a lead byte; \<open>None\<close> for a byte that starts nothing.\<close>

definition continuation_count :: "nat \<Rightarrow> nat option" where
  "continuation_count b =
     (if b < 128 then Some 0
      else if 194 \<le> b \<and> b \<le> 223 then Some 1
      else if 224 \<le> b \<and> b \<le> 239 then Some 2
      else if 240 \<le> b \<and> b \<le> 244 then Some 3
      else None)"

definition continuation :: "nat \<Rightarrow> bool" where
  "continuation b \<longleftrightarrow> 128 \<le> b \<and> b \<le> 191"

text \<open>
  The first continuation byte of some lead bytes has a smaller range: no overlong forms, no
  surrogates, nothing above U+10FFFF.
\<close>

definition first_continuation :: "nat \<Rightarrow> nat \<Rightarrow> bool" where
  "first_continuation lead b \<longleftrightarrow> continuation b
     \<and> (lead = 224 \<longrightarrow> 160 \<le> b) \<and> (lead = 237 \<longrightarrow> b \<le> 159)
     \<and> (lead = 240 \<longrightarrow> 144 \<le> b) \<and> (lead = 244 \<longrightarrow> b \<le> 143)"

text \<open>The valid continuation bytes that follow a lead byte, at most \<open>n\<close>.\<close>

definition continuations :: "nat \<Rightarrow> nat \<Rightarrow> nat list \<Rightarrow> nat list" where
  "continuations lead n bs =
     (case take n bs of [] \<Rightarrow> []
      | b # rest \<Rightarrow> if first_continuation lead b then b # takeWhile continuation rest else [])"

definition lead_value :: "nat \<Rightarrow> nat \<Rightarrow> nat" where
  "lead_value n b = (if n = 0 then b else if n = 1 then b - 192 else if n = 2 then b - 224 else b - 240)"

definition code_point :: "nat \<Rightarrow> nat \<Rightarrow> nat list \<Rightarrow> nat" where
  "code_point n lead cs = foldl (\<lambda>v b. 64 * v + (b - 128)) (lead_value n lead) cs"

lemma continuations_length: "length (continuations lead n bs) \<le> length bs"
proof (cases "take n bs")
  case (Cons b rest)
  have "length (takeWhile continuation rest) \<le> length rest" by (rule length_takeWhile_le)
  moreover have "Suc (length rest) \<le> length bs"
    using arg_cong [OF Cons, of length] by (simp add: min_def split: if_splits)
  ultimately show ?thesis using Cons by (simp add: continuations_def)
qed (auto simp: continuations_def split: list.split)

text \<open>
  An invalid lead byte is skipped; an incomplete sequence is skipped up to the byte that does
  not continue it.
\<close>

function utf8_decode_ignore :: "nat list \<Rightarrow> ustr" where
  "utf8_decode_ignore [] = []"
| "utf8_decode_ignore (b # bs) =
     (case continuation_count b of
        None \<Rightarrow> utf8_decode_ignore bs
      | Some n \<Rightarrow>
          (let cs = continuations b n bs
           in if length cs = n then code_point n b cs # utf8_decode_ignore (drop n bs)
              else utf8_decode_ignore (drop (length cs) bs)))"
  by pat_completeness auto
termination
  by (relation "measure length") (auto simp: less_Suc_eq_le)

definition valid_code_point :: "nat \<Rightarrow> bool" where
  "valid_code_point c \<longleftrightarrow> c < 1114112"

lemma utf8_bytes_length: "length (utf8_bytes c) = utf8_width c"
  by (simp add: utf8_bytes_def utf8_width_def)

lemma utf8_encode_simps [simp]:
  "utf8_encode [] = []" "utf8_encode (c # s) = utf8_bytes c @ utf8_encode s"
  "utf8_encode (s @ t) = utf8_encode s @ utf8_encode t"
  by (simp_all add: utf8_encode_def)

lemma length_utf8_encode: "length (utf8_encode s) = utf8_size s"
  by (induction s) (simp_all add: utf8_size_def utf8_bytes_length)

lemma three_bytes:
  assumes "a \<le> 15" "x < 64" "y < 64" "a = 0 \<longrightarrow> 32 \<le> x" "a = 13 \<longrightarrow> x < 32"
  shows "continuation_count (224 + a) = Some 2 \<and> first_continuation (224 + a) (128 + x)
    \<and> continuation (128 + x) \<and> continuation (128 + y)
    \<and> code_point (Suc (Suc 0)) (224 + a) [128 + x, 128 + y] = 64 * (64 * a + x) + y"
  using assms by (auto simp: continuation_count_def code_point_def lead_value_def
      first_continuation_def continuation_def)

lemma four_bytes:
  assumes "a \<le> 4" "x < 64" "y < 64" "z < 64" "a = 0 \<longrightarrow> 16 \<le> x" "a = 4 \<longrightarrow> x < 16"
  shows "continuation_count (240 + a) = Some 3 \<and> first_continuation (240 + a) (128 + x)
    \<and> continuation (128 + x) \<and> continuation (128 + y) \<and> continuation (128 + z)
    \<and> code_point (Suc (Suc (Suc 0))) (240 + a) [128 + x, 128 + y, 128 + z] = 64 * (64 * (64 * a + x) + y) + z"
  using assms by (auto simp: continuation_count_def code_point_def lead_value_def
      first_continuation_def continuation_def)

text \<open>The bytes of a code point, as lead byte and continuations.\<close>

lemma utf8_bytes_parts:
  assumes "\<not> surrogate c" and "c < 1114112"
  shows "\<exists>b cs. utf8_bytes c = b # cs \<and> continuation_count b = Some (length cs)
    \<and> (cs \<noteq> [] \<longrightarrow> first_continuation b (hd cs)) \<and> list_all continuation cs
    \<and> code_point (length cs) b cs = c"
proof -
  consider "c < 128" | "128 \<le> c" "c < 2048" | "2048 \<le> c" "c < 65536" | "65536 \<le> c" by linarith
  then show ?thesis
  proof cases
    case 1
    then show ?thesis
      by (simp add: utf8_bytes_def continuation_count_def code_point_def lead_value_def)
  next
    case 2
    then have "2 \<le> c div 64" "c div 64 \<le> 31" by auto
    then show ?thesis using 2
      by (auto simp: utf8_bytes_def continuation_count_def code_point_def lead_value_def
          first_continuation_def continuation_def mod_less_eq_dividend less_Suc_eq_le [symmetric])
  next
    case 3
    have d: "c div 64 div 64 = c div 4096" by (simp add: div_mult2_eq [symmetric])
    have "c = 64 * (64 * (c div 4096) + c div 64 mod 64) + c mod 64"
      using d by (metis div_mult_mod_eq mult.commute)
    moreover have "c div 4096 \<le> 15" using 3 by auto
    moreover have "c div 64 mod 64 < 64" "c mod 64 < 64" by simp_all
    moreover have "c div 4096 = 0 \<longrightarrow> 32 \<le> c div 64 mod 64" using 3 by auto
    moreover have "c div 4096 = 13 \<longrightarrow> c div 64 mod 64 < 32"
    proof
      assume "c div 4096 = 13"
      then have "53248 \<le> c" "c \<le> 57343" by auto
      then have "c < 55296" using assms(1) by (auto simp: surrogate_def)
      moreover have "c = 64 * (c div 64) + c mod 64" "c mod 64 < 64" by simp_all
      ultimately have "832 \<le> c div 64" "c div 64 < 864" using \<open>53248 \<le> c\<close> by linarith+
      then obtain k where k: "c div 64 = 13 * 64 + k" "k < 32" by (auto simp: le_iff_add)
      show "c div 64 mod 64 < 32" unfolding k(1) mod_mult_self3 using k(2) by simp
    qed
    ultimately show ?thesis
      using 3 three_bytes [of "c div 4096" "c div 64 mod 64" "c mod 64"]
      by (intro exI [of _ "224 + c div 4096"] exI [of _ "[128 + c div 64 mod 64, 128 + c mod 64]"])
        (simp add: utf8_bytes_def)
  next
    case 4
    have d: "c div 64 div 64 = c div 4096" "c div 4096 div 64 = c div 262144"
      by (simp_all add: div_mult2_eq [symmetric])
    have "c = 64 * (64 * (64 * (c div 262144) + c div 4096 mod 64) + c div 64 mod 64) + c mod 64"
      using d by (metis div_mult_mod_eq mult.commute)
    moreover have "c div 262144 \<le> 4" using assms(2) by auto
    moreover have "c div 4096 mod 64 < 64" "c div 64 mod 64 < 64" "c mod 64 < 64" by simp_all
    moreover have "c div 262144 = 0 \<longrightarrow> 16 \<le> c div 4096 mod 64" using 4 by auto
    moreover have "c div 262144 = 4 \<longrightarrow> c div 4096 mod 64 < 16"
    proof
      assume "c div 262144 = 4"
      moreover have "c = 262144 * (c div 262144) + c mod 262144" "c = 4096 * (c div 4096) + c mod 4096"
        "c mod 4096 < 4096" by simp_all
      ultimately have "256 \<le> c div 4096" "c div 4096 < 272" using assms(2) by linarith+
      then obtain k where k: "c div 4096 = 4 * 64 + k" "k < 16" by (auto simp: le_iff_add)
      show "c div 4096 mod 64 < 16" unfolding k(1) mod_mult_self3 using k(2) by simp
    qed
    ultimately show ?thesis
      using 4 four_bytes [of "c div 262144" "c div 4096 mod 64" "c div 64 mod 64" "c mod 64"]
      by (intro exI [of _ "240 + c div 262144"]
          exI [of _ "[128 + c div 4096 mod 64, 128 + c div 64 mod 64, 128 + c mod 64]"])
        (simp add: utf8_bytes_def)
  qed
qed


lemma continuations_all:
  assumes "cs \<noteq> [] \<longrightarrow> first_continuation b (hd cs)" and "list_all continuation cs"
  shows "continuations b (length cs) (cs @ t) = cs"
  using assms by (cases cs) (auto simp: continuations_def list_all_iff)

lemma decode_code_point:
  assumes "\<not> surrogate c" and "c < 1114112"
  shows "utf8_decode_ignore (utf8_bytes c @ t) = c # utf8_decode_ignore t"
proof -
  obtain b cs where b: "utf8_bytes c = b # cs" "continuation_count b = Some (length cs)"
    "cs \<noteq> [] \<longrightarrow> first_continuation b (hd cs)" "list_all continuation cs"
    "code_point (length cs) b cs = c"
    using utf8_bytes_parts [OF assms] by blast
  then show ?thesis by (simp add: continuations_all)
qed

text \<open>A code point cut short leaves nothing.\<close>

lemma decode_cut:
  assumes "\<not> surrogate c" and "c < 1114112" and "n < length (utf8_bytes c)"
  shows "utf8_decode_ignore (take n (utf8_bytes c)) = []"
proof (cases n)
  case (Suc m)
  obtain b cs where b: "utf8_bytes c = b # cs" "continuation_count b = Some (length cs)"
    "cs \<noteq> [] \<longrightarrow> first_continuation b (hd cs)" "list_all continuation cs"
    using utf8_bytes_parts [OF assms(1,2)] by blast
  have m: "m < length cs" using assms(3) Suc b(1) by simp
  have "continuations b (length cs) (take m cs) = take m cs"
  proof (cases "take m cs")
    case Nil
    then show ?thesis by (auto simp: continuations_def)
  next
    case (Cons y ys)
    then have hd: "hd cs = y" "cs \<noteq> []" by (cases cs; cases m; auto)+
    have "list_all continuation (y # ys)" using b(4) Cons by (metis list_all_iff in_set_takeD)
    moreover have "take (length cs) (y # ys) = y # ys"
      using m arg_cong [OF Cons, of length] by simp
    ultimately show ?thesis using b(3) hd Cons by (auto simp: continuations_def list_all_iff)
  qed
  then show ?thesis using Suc b m by simp
qed simp

text \<open>The longest prefix of a text whose encoding has at most \<open>n\<close> bytes.\<close>

fun fitting_prefix :: "nat \<Rightarrow> ustr \<Rightarrow> ustr" where
  "fitting_prefix n [] = []"
| "fitting_prefix n (c # s) =
     (if utf8_width c \<le> n then c # fitting_prefix (n - utf8_width c) s else [])"

definition text_ok :: "ustr \<Rightarrow> bool" where
  "text_ok s \<longleftrightarrow> list_all (\<lambda>c. \<not> surrogate c \<and> c < 1114112) s"

lemma decode_take:
  "text_ok s \<Longrightarrow> utf8_decode_ignore (take n (utf8_encode s)) = fitting_prefix n s"
proof (induction s arbitrary: n)
  case (Cons c s)
  then have c: "\<not> surrogate c" "c < 1114112" and s: "text_ok s" by (auto simp: text_ok_def)
  have len: "length (utf8_bytes c) = utf8_width c" by (rule utf8_bytes_length)
  show ?case
  proof (cases "utf8_width c \<le> n")
    case True
    then have "take n (utf8_encode (c # s)) = utf8_bytes c @ take (n - utf8_width c) (utf8_encode s)"
      by (simp add: len)
    then show ?thesis
      using True Cons.IH [OF s] decode_code_point [OF c] by simp
  next
    case False
    then have "take n (utf8_encode (c # s)) = take n (utf8_bytes c)" by (simp add: len)
    then show ?thesis using False decode_cut [OF c, of n] len by simp
  qed
qed (simp add: text_ok_def)

lemma fitting_prefix_size: "utf8_size (fitting_prefix n s) \<le> n"
proof (induction n s rule: fitting_prefix.induct)
  case (2 n c s)
  then show ?case by (auto simp: utf8_size_def)
qed (simp add: utf8_size_def)

lemma fitting_prefix_prefix: "\<exists>t. s = fitting_prefix n s @ t"
  by (induction n s rule: fitting_prefix.induct) auto

lemma fitting_prefix_longest:
  "s = p @ t \<Longrightarrow> utf8_size p \<le> n \<Longrightarrow> length p \<le> length (fitting_prefix n s)"
proof (induction n s arbitrary: p rule: fitting_prefix.induct)
  case (2 n c s)
  show ?case
  proof (cases p)
    case (Cons d p')
    with 2 have "d = c" "s = p' @ t" "utf8_width c + utf8_size p' \<le> n"
      by (auto simp: utf8_size_def)
    then show ?thesis using 2(1) Cons by auto
  qed simp
qed simp

lemma fitting_prefix_all: "utf8_size s \<le> n \<Longrightarrow> fitting_prefix n s = s"
  by (induction n s rule: fitting_prefix.induct) (auto simp: utf8_size_def)

text \<open>
  Encoding a text and decoding its bytes gives the text back, and decoding its first \<open>n\<close>
  bytes gives its longest prefix that takes at most \<open>n\<close> bytes: a character cut in the middle
  leaves nothing behind.
\<close>

lemma utf8_roundtrip:
  assumes "text_ok s"
  shows "utf8_decode_ignore (utf8_encode s) = s
    \<and> utf8_decode_ignore (take n (utf8_encode s)) = fitting_prefix n s
    \<and> utf8_size (fitting_prefix n s) \<le> n \<and> (\<exists>t. s = fitting_prefix n s @ t)
    \<and> (\<nexists>p t. s = p @ t \<and> utf8_size p \<le> n \<and> length (fitting_prefix n s) < length p)"
proof -
  have "utf8_decode_ignore (utf8_encode s) = s"
    using decode_take [OF assms, of "utf8_size s"] fitting_prefix_all [of s "utf8_size s"]
    by (simp add: length_utf8_encode)
  moreover have "\<nexists>p t. s = p @ t \<and> utf8_size p \<le> n \<and> length (fitting_prefix n s) < length p"
    using fitting_prefix_longest by (metis leD)
  ultimately show ?thesis
    using decode_take [OF assms] fitting_prefix_size fitting_prefix_prefix by blast
qed

lemma utf8_roundtrip_witness:
  "utf8_decode_ignore (take 6 (utf8_encode [97, 233, 8364, 128512])) = [97, 233, 8364]"
proof -
  have "text_ok [97, 233, 8364, 128512]" by code_simp
  from utf8_roundtrip [OF this, of 6]
  have "utf8_decode_ignore (take 6 (utf8_encode [97, 233, 8364, 128512]))
      = fitting_prefix 6 [97, 233, 8364, 128512]" by blast
  also have "\<dots> = [97, 233, 8364]" by code_simp
  finally show ?thesis .
qed

end
