(* ===== verification/Worker.thy ===== *)
theory Worker
  imports Notification_Text "HOL-Library.Char_ord" "HOL-Library.List_Lexorder"
    "HOL-Library.Product_Lexorder" "HOL-Library.Multiset"
begin

text \<open>
  The notification worker (\<open>slurm_oci_notify_worker.py\<close>): validating queued messages, the
  back-off of failed ones, the interval between publications and one run over the spool
  directory. The state holds the spool directory, its \<open>failed\<close> subdirectory, the time in the
  lock file and the counters of the run; the file system's failures, the clock, the registry
  file and the OCI command line are a parameter (\<open>'w worker_env\<close>).
\<close>

section \<open>State and environment\<close>

datatype worker_error = Value_error | Os_error | Runtime_error ustr | Timeout_expired

datatype os_op =
    Make_spool | Open_lock | List_spool | Stat | Open_message | Unlink | Move_to_failed
  | Rewrite | Lock_read | Lock_truncate | Lock_write | Make_payload

datatype cli_result = Exited int ustr ustr | Timed_out | Not_started

datatype notice =
    Published ustr ustr ustr ustr rat cli_result
  | Delivered string
  | Discarded string
  | Archived string
  | Archive_failed string
  | Expired string
  | Gave_up string int
  | Scheduled string int int
  | Quarantined string
  | Quarantine_failed string
  | Read_failed string
  | Retry_failed string

text \<open>
  A queued file: its JSON document and modification time. \<open>last_publish_at\<close> is what the lock
  file's text reads as (\<open>None\<close>: nothing, or no number).
\<close>

record 'w worker =
  outside :: 'w
  spool :: "(string \<times> nat doc \<times> nat) list"
  failed_dir :: "(string \<times> nat doc) list"
  last_publish_at :: "rat option"
  processed :: nat
  publish_attempts :: nat
  notices :: "notice list"

record 'w worker_env =
  os_ok :: "os_op \<Rightarrow> string \<Rightarrow> 'w \<Rightarrow> bool \<times> 'w"
  try_lock :: "'w \<Rightarrow> bool \<times> 'w"
  registry_doc :: "'w \<Rightarrow> nat doc \<times> 'w"
  oci_found :: "'w \<Rightarrow> bool \<times> 'w"
  run_publish :: "ustr \<Rightarrow> ustr \<Rightarrow> ustr \<Rightarrow> ustr \<Rightarrow> 'w \<Rightarrow> cli_result \<times> 'w"
  wall_clock :: "'w \<Rightarrow> rat"
  sleep_for :: "rat \<Rightarrow> 'w \<Rightarrow> 'w"
  file_time :: "'w \<Rightarrow> nat"

type_synonym ('w, 'a) work = "('w worker, worker_error, 'a) cmd"

definition ask :: "('w \<Rightarrow> 'a \<times> 'w) \<Rightarrow> ('w, 'a) work" where
  "ask f = (\<lambda>s. case f (outside s) of (x, w) \<Rightarrow> (Inr x, s\<lparr>outside := w\<rparr>))"

text \<open>A system call that raises \<open>OSError\<close> when the system refuses it.\<close>

definition os_call :: "'w worker_env \<Rightarrow> os_op \<Rightarrow> string \<Rightarrow> ('w, unit) work" where
  "os_call env op name =
     cbind (ask (os_ok env op name)) (\<lambda>ok. if ok then creturn () else craise Os_error)"

definition note_that :: "notice \<Rightarrow> ('w, unit) work" where
  "note_that n = (\<lambda>s. (Inr (), s\<lparr>notices := notices s @ [n]\<rparr>))"

definition count_processed :: "('w, unit) work" where
  "count_processed = (\<lambda>s. (Inr (), s\<lparr>processed := processed s + 1\<rparr>))"

definition worker_time :: "'w worker_env \<Rightarrow> ('w, rat) work" where
  "worker_time env = (\<lambda>s. (Inr (wall_clock env (outside s)), s))"

text \<open>\<open>int(x)\<close> of a float truncates.\<close>

definition trunc_seconds :: "rat \<Rightarrow> int" where
  "trunc_seconds r = (if 0 \<le> r then floor r else ceiling r)"

text \<open>\<open>int(time.time()) if fixed_now is None else fixed_now\<close>.\<close>

definition current_second :: "'w worker_env \<Rightarrow> int option \<Rightarrow> ('w, int) work" where
  "current_second env fixed_now =
     (case fixed_now of Some t \<Rightarrow> creturn t
      | None \<Rightarrow> cbind (worker_time env) (\<lambda>t. creturn (trunc_seconds t)))"

section \<open>Messages\<close>

definition max_publish_attempts_per_run :: nat where
  "max_publish_attempts_per_run = 10"

definition max_error_chars :: nat where
  "max_error_chars = 500"

definition string_fields :: "ustr list" where
  "string_fields = map u [''id'', ''region'', ''topic_id'', ''username'', ''job_id'', ''mail_type'',
     ''title'', ''body'']"

definition number_fields :: "ustr list" where
  "number_fields = map u [''created_at'', ''expires_at'', ''next_attempt_at'', ''attempts'']"

definition text_field :: "nat jdict \<Rightarrow> string \<Rightarrow> ustr" where
  "text_field d k = (case jget d (u k) of JStr s \<Rightarrow> s | _ \<Rightarrow> [])"

definition number_field :: "nat jdict \<Rightarrow> string \<Rightarrow> int \<Rightarrow> int" where
  "number_field d k dflt = (case map_of d (u k) of Some (JInt i) \<Rightarrow> i | _ \<Rightarrow> dflt)"

definition natural_number :: "nat json \<Rightarrow> bool" where
  "natural_number v \<longleftrightarrow> (case v of JInt i \<Rightarrow> 0 \<le> i | _ \<Rightarrow> False)"

definition validate_message :: "nat json \<Rightarrow> worker_error + nat jdict" where
  "validate_message v =
     rbind (need Value_error (as_obj v)) (\<lambda>d.
     rbind (check Value_error (py_eq (jget d (u ''version'')) (JInt 1))) (\<lambda>_.
     rbind (check Value_error (list_all (\<lambda>f. as_str (jget d f) \<noteq> None) string_fields)) (\<lambda>_.
     rbind (check Value_error (list_all (\<lambda>f. natural_number (jget d f)) number_fields)) (\<lambda>_.
     rbind (check Value_error (number_field d ''created_at'' 0 \<le> number_field d ''expires_at'' 0)) (\<lambda>_.
     rbind (check Value_error (valid_region (text_field d ''region''))) (\<lambda>_.
     rbind (check Value_error (starts_with (text_field d ''topic_id'') topic_prefix)) (\<lambda>_.
     rbind (check Value_error (encodable (text_field d ''title'')
       \<and> utf8_size (text_field d ''title'') \<le> max_title_bytes)) (\<lambda>_.
     rbind (check Value_error (publish_payload_size (text_field d ''title'') (text_field d ''body'')
       \<le> max_publish_payload_bytes)) (\<lambda>_.
     Inr d)))))))))"

definition load_active_topics :: "nat doc \<Rightarrow> (ustr \<times> nat json) list option" where
  "load_active_topics doc =
     (case doc of
        Doc (JObj registry) \<Rightarrow>
          (case (jget_or registry (u ''config'') (JObj []), jget_or registry (u ''users'') (JObj [])) of
             (JObj config, JObj users) \<Rightarrow>
               if truthy (jget config (u ''enabled''))
               then Some (concat (map (\<lambda>(username, details).
                      case details of
                        JObj d \<Rightarrow> if truthy (jget d (u ''topic_id''))
                          then [(username, jget d (u ''topic_id''))] else []
                      | _ \<Rightarrow> []) users))
               else Some []
           | _ \<Rightarrow> None)
      | _ \<Rightarrow> None)"

definition registered :: "(ustr \<times> nat json) list \<Rightarrow> nat jdict \<Rightarrow> bool" where
  "registered topics d \<longleftrightarrow>
     (case map_of topics (text_field d ''username'') of
        None \<Rightarrow> False
      | Some topic \<Rightarrow> py_eq topic (JStr (text_field d ''topic_id'')))"

section \<open>Files\<close>

definition unlink_message :: "'w worker_env \<Rightarrow> string \<Rightarrow> ('w, unit) work" where
  "unlink_message env name =
     cbind (os_call env Unlink name) (\<lambda>_ s.
     case map_of (spool s) name of
       None \<Rightarrow> (Inl Os_error, s)
     | Some _ \<Rightarrow> (Inr (), s\<lparr>spool := dpop name (spool s)\<rparr>))"

text \<open>\<open>os.makedirs(failed)\<close> and \<open>os.replace(path, failed/target)\<close>.\<close>

definition move_to_failed :: "'w worker_env \<Rightarrow> string \<Rightarrow> string \<Rightarrow> ('w, unit) work" where
  "move_to_failed env name target =
     cbind (os_call env Move_to_failed name) (\<lambda>_ s.
     case map_of (spool s) name of
       None \<Rightarrow> (Inl Os_error, s)
     | Some (doc, _) \<Rightarrow>
         (Inr (), s\<lparr>spool := dpop name (spool s), failed_dir := dset target doc (failed_dir s)\<rparr>))"

definition atomic_write :: "'w worker_env \<Rightarrow> string \<Rightarrow> nat jdict \<Rightarrow> ('w, unit) work" where
  "atomic_write env name d =
     cbind (os_call env Rewrite name) (\<lambda>_.
     cbind (clift (check Value_error (json_encodable (JObj d)))) (\<lambda>_ s.
     (Inr (), s\<lparr>spool := dset name (Doc (JObj d), file_time env (outside s)) (spool s)\<rparr>)))"

definition quarantine :: "'w worker_env \<Rightarrow> string \<Rightarrow> ('w, unit) work" where
  "quarantine env name =
     cbind (move_to_failed env name name) (\<lambda>_. note_that (Quarantined name))"

definition expire :: "'w worker_env \<Rightarrow> string \<Rightarrow> ('w, unit) work" where
  "expire env name = cbind (move_to_failed env name name) (\<lambda>_. note_that (Expired name))"

definition retry_delay :: "int \<Rightarrow> int" where
  "retry_delay attempts = min 3600 (60 * 2 ^ nat (min (attempts - 1) 6))"

definition mark_retry :: "'w worker_env \<Rightarrow> string \<Rightarrow> nat jdict \<Rightarrow> int \<Rightarrow> ('w, unit) work" where
  "mark_retry env name d now =
     (let attempts = number_field d ''attempts'' 0 + 1;
          d' = dset (u ''attempts'') (JInt attempts) d
      in if number_field d ''expires_at'' now \<le> now
         then cbind (move_to_failed env name name) (\<lambda>_. note_that (Gave_up name attempts))
         else
           let delay = retry_delay attempts
           in cbind (atomic_write env name (dset (u ''next_attempt_at'') (JInt (now + delay)) d')) (\<lambda>_.
              note_that (Scheduled name attempts delay)))"

section \<open>Publishing\<close>

definition publish :: "'w worker_env \<Rightarrow> nat jdict \<Rightarrow> rat \<Rightarrow> ('w, unit) work" where
  "publish env d stamp =
     (let region = text_field d ''region''; topic_id = text_field d ''topic_id'';
          title = text_field d ''title''; body = text_field d ''body''
      in cbind (clift (check Value_error (valid_region region))) (\<lambda>_.
         cbind (clift (check Value_error (starts_with topic_id topic_prefix))) (\<lambda>_.
         cbind (ask (oci_found env)) (\<lambda>found.
         cbind (clift (check (Runtime_error (u ''OCI CLI executable was not found'')) found)) (\<lambda>_.
         cbind (os_call env Make_payload []) (\<lambda>_.
         cbind (ask (run_publish env region topic_id title body)) (\<lambda>result.
         cbind (note_that (Published region topic_id title body stamp result)) (\<lambda>_.
         case result of
           Timed_out \<Rightarrow> craise Timeout_expired
         | Not_started \<Rightarrow> craise Os_error
         | Exited code out err \<Rightarrow>
             if code = 0 then creturn ()
             else let detail = (if err \<noteq> [] then err else if out \<noteq> [] then out
                                else u ''OCI CLI failed'')
                  in craise (Runtime_error
                       (take max_error_chars (map (\<lambda>c. if c = 10 then 32 else c) detail)))))))))))"

definition min_publish_interval :: rat where
  "min_publish_interval = 61 / 10"

text \<open>\<open>"{:.6f}".format(t)\<close>, read back as a number: rounding to a microsecond, ties to even.\<close>

definition round_half_even :: "rat \<Rightarrow> int" where
  "round_half_even r =
     (let f = floor r; part = r - of_int f
      in if part < 1 / 2 \<or> (part = 1 / 2 \<and> even f) then f else f + 1)"

definition to_microsecond :: "rat \<Rightarrow> rat" where
  "to_microsecond t = of_int (round_half_even (t * 1000000)) / 1000000"

definition wait_for_publish_slot :: "'w worker_env \<Rightarrow> ('w, unit) work" where
  "wait_for_publish_slot env =
     cbind (os_call env Lock_read []) (\<lambda>_.
     cbind (worker_time env) (\<lambda>current s.
     case last_publish_at s of
       None \<Rightarrow> (Inr (), s)
     | Some last_at \<Rightarrow>
         (let delay = min min_publish_interval (max 0 (min_publish_interval - (current - last_at)))
          in if 0 < delay then (Inr (), s\<lparr>outside := sleep_for env delay (outside s)\<rparr>)
             else (Inr (), s))))"

text \<open>Truncating and writing the lock file can fail separately.\<close>

definition record_publish_attempt :: "'w worker_env \<Rightarrow> rat \<Rightarrow> ('w, unit) work" where
  "record_publish_attempt env timestamp =
     cbind (os_call env Lock_truncate []) (\<lambda>_.
     cbind (\<lambda>s. (Inr (), s\<lparr>last_publish_at := None\<rparr>)) (\<lambda>_.
     cbind (os_call env Lock_write []) (\<lambda>_ s.
     (Inr (), s\<lparr>last_publish_at := Some (to_microsecond timestamp)\<rparr>))))"

section \<open>One run over the queue\<close>

definition remove_delivered :: "'w worker_env \<Rightarrow> string \<Rightarrow> ('w, unit) work" where
  "remove_delivered env name =
     ctry (unlink_message env name) (\<lambda>_.
       ctry (cbind (move_to_failed env name (name @ ''.delivered'')) (\<lambda>_. note_that (Archived name)))
         (\<lambda>_. note_that (Archive_failed name)))"

definition load_message :: "'w worker_env \<Rightarrow> string \<Rightarrow> ('w, nat jdict) work" where
  "load_message env name =
     cbind (os_call env Open_message name) (\<lambda>_ s.
     case map_of (spool s) name of
       None \<Rightarrow> (Inl Os_error, s)
     | Some (Doc v, _) \<Rightarrow> (validate_message v, s)
     | Some (_, _) \<Rightarrow> (Inl Value_error, s))"

definition take_publish_slot :: "'w worker_env \<Rightarrow> ('w, rat) work" where
  "take_publish_slot env =
     cbind (wait_for_publish_slot env) (\<lambda>_.
     cbind (worker_time env) (\<lambda>timestamp.
     cbind (record_publish_attempt env timestamp) (\<lambda>_ s.
     (Inr timestamp, s\<lparr>publish_attempts := publish_attempts s + 1\<rparr>))))"

definition deliver :: "'w worker_env \<Rightarrow> string \<Rightarrow> nat jdict \<Rightarrow> ('w, unit) work" where
  "deliver env name d =
     cbind (take_publish_slot env) (\<lambda>timestamp.
     cbind (publish env d (to_microsecond timestamp)) (\<lambda>_.
     cbind (remove_delivered env name) (\<lambda>_.
     cbind (note_that (Delivered name)) (\<lambda>_. count_processed))))"

definition handle_message ::
  "'w worker_env \<Rightarrow> int option \<Rightarrow> (ustr \<times> nat json) list \<Rightarrow> string \<Rightarrow> nat jdict \<Rightarrow> ('w, unit) work" where
  "handle_message env fixed_now topics name d =
     cbind (current_second env fixed_now) (\<lambda>now.
     if now < number_field d ''next_attempt_at'' 0 then creturn ()
     else if number_field d ''expires_at'' 0 \<le> now
     then cbind (expire env name) (\<lambda>_. count_processed)
     else if \<not> registered topics d
     then cbind (unlink_message env name) (\<lambda>_.
          cbind (note_that (Discarded name)) (\<lambda>_. count_processed))
     else (\<lambda>s. if max_publish_attempts_per_run \<le> publish_attempts s then (Inr (), s)
               else deliver env name d s))"

text \<open>The \<open>except\<close> clauses of the loop body; \<open>loaded\<close> is \<open>message_loaded\<close>.\<close>

definition handle_failure ::
  "'w worker_env \<Rightarrow> int option \<Rightarrow> string \<Rightarrow> bool \<Rightarrow> nat jdict \<Rightarrow> worker_error \<Rightarrow> ('w, unit) work" where
  "handle_failure env fixed_now name loaded d e =
     (if e = Value_error
      then cbind (ctry (quarantine env name)
             (\<lambda>e'. if e' = Os_error then note_that (Quarantine_failed name) else craise e')) (\<lambda>_.
           count_processed)
      else if e = Os_error \<and> \<not> loaded then note_that (Read_failed name)
      else cbind (ctry (cbind (current_second env fixed_now) (\<lambda>now. mark_retry env name d now))
             (\<lambda>e'. if e' = Os_error \<or> e' = Value_error then note_that (Retry_failed name)
                   else craise e')) (\<lambda>_.
           count_processed))"

definition process_one ::
  "'w worker_env \<Rightarrow> int option \<Rightarrow> (ustr \<times> nat json) list \<Rightarrow> unit \<Rightarrow> string \<Rightarrow> ('w, unit) work" where
  "process_one env fixed_now topics _ name = (\<lambda>s.
     case load_message env name s of
       (Inl e, s') \<Rightarrow> handle_failure env fixed_now name False [] e s'
     | (Inr d, s') \<Rightarrow>
         ctry (handle_message env fixed_now topics name d)
           (handle_failure env fixed_now name True d) s')"

text \<open>The key of a name is its modification time, or 0 when the file cannot be examined.\<close>

definition queue_age ::
  "'w worker_env \<Rightarrow> ((nat \<times> string) \<times> string) list \<Rightarrow> string
     \<Rightarrow> ('w, ((nat \<times> string) \<times> string) list) work" where
  "queue_age env keyed name =
     cbind (ask (os_ok env Stat name)) (\<lambda>ok s.
     (Inr (keyed @ [((if ok then (case map_of (spool s) name of None \<Rightarrow> 0 | Some (_, t) \<Rightarrow> t) else 0,
                      name), name)]), s))"

definition queued_message_names :: "'w worker_env \<Rightarrow> ('w, string list) work" where
  "queued_message_names env =
     cbind (os_call env List_spool []) (\<lambda>_ s.
     cbind (cfold (queue_age env) [] (filter (\<lambda>n. ends_with n ''.json'') (map fst (spool s)))) (\<lambda>keyed.
     creturn (map snd (sort_key fst keyed))) s)"

definition process_queue :: "'w worker_env \<Rightarrow> int option \<Rightarrow> ('w, nat) work" where
  "process_queue env fixed_now =
     cbind (os_call env Make_spool []) (\<lambda>_.
     cbind (os_call env Open_lock []) (\<lambda>_.
     cbind (\<lambda>s. (Inr (), s\<lparr>processed := 0, publish_attempts := 0\<rparr>)) (\<lambda>_.
     cbind (ask (try_lock env)) (\<lambda>locked.
     if \<not> locked then creturn 0
     else cbind (ask (registry_doc env)) (\<lambda>doc.
          cbind (clift (need (Runtime_error (u ''notification registry is temporarily unavailable''))
            (load_active_topics doc))) (\<lambda>topics.
          cbind (queued_message_names env) (\<lambda>names.
          cbind (cfold (process_one env fixed_now topics) () names) (\<lambda>_ s.
          (Inr (processed s), s)))))))))"

definition worker_main :: "'w worker_env \<Rightarrow> 'w worker \<Rightarrow> int \<times> 'w worker" where
  "worker_main env s =
     (case process_queue env None s of (Inl _, s') \<Rightarrow> (1, s') | (Inr _, s') \<Rightarrow> (0, s'))"

lemmas worker_equations [code] =
  ask_def [THEN fun_cong] os_call_def [THEN fun_cong] note_that_def [THEN fun_cong]
  count_processed_def [THEN fun_cong] worker_time_def [THEN fun_cong]
  current_second_def [THEN fun_cong] unlink_message_def [THEN fun_cong]
  move_to_failed_def [THEN fun_cong] atomic_write_def [THEN fun_cong]
  quarantine_def [THEN fun_cong] expire_def [THEN fun_cong] mark_retry_def [THEN fun_cong]
  publish_def [THEN fun_cong] wait_for_publish_slot_def [THEN fun_cong]
  record_publish_attempt_def [THEN fun_cong] remove_delivered_def [THEN fun_cong]
  load_message_def [THEN fun_cong] take_publish_slot_def [THEN fun_cong] deliver_def [THEN fun_cong] handle_message_def [THEN fun_cong]
  handle_failure_def [THEN fun_cong] process_one_def [THEN fun_cong] queue_age_def [THEN fun_cong]
  queued_message_names_def [THEN fun_cong] process_queue_def [THEN fun_cong]

section \<open>Commands that leave the files alone\<close>

definition calm :: "'w worker \<Rightarrow> 'w worker \<Rightarrow> bool" where
  "calm s s' \<longleftrightarrow> spool s' = spool s \<and> failed_dir s' = failed_dir s
     \<and> (\<exists>new. notices s' = notices s @ new)"

lemma calm_rel [intro]: "reflp calm" "transp calm"
  by (auto simp: calm_def intro!: reflpI transpI)

lemma calm_refl [simp]: "calm s s"
  by (simp add: calm_def)

lemma calm_trans: "calm s t \<Longrightarrow> calm t v \<Longrightarrow> calm s v"
  by (auto simp: calm_def)

named_theorems calm_intros \<open>commands that leave the spool directory alone\<close>

lemma keeps_calm_pure [calm_intros]:
  "keeps calm (creturn x)" "keeps calm (craise e)" "keeps calm (clift r)"
  by auto

lemma keeps_calm_cbind [calm_intros]:
  "keeps calm m \<Longrightarrow> (\<And>x. keeps calm (f x)) \<Longrightarrow> keeps calm (cbind m f)"
  by auto

lemma keeps_calm_if [calm_intros]:
  "keeps calm m \<Longrightarrow> keeps calm n \<Longrightarrow> keeps calm (if b then m else n)"
  by simp

lemma keeps_calm_basic [calm_intros]:
  "keeps calm (ask f)" "keeps calm (note_that n)" "keeps calm count_processed"
  "keeps calm (worker_time env)"
  by (auto intro!: keepsI simp: ask_def note_that_def count_processed_def worker_time_def calm_def
      split: prod.splits)

lemma keeps_calm_os [calm_intros]: "keeps calm (os_call env op name)"
  unfolding os_call_def by (intro calm_intros)

lemma keeps_calm_second [calm_intros]: "keeps calm (current_second env fixed_now)"
  by (cases fixed_now) (simp_all add: current_second_def, (intro calm_intros)+)

lemma keeps_calm_publish [calm_intros]: "keeps calm (publish env d stamp)"
proof -
  have "keeps calm (case r of Timed_out \<Rightarrow> craise Timeout_expired | Not_started \<Rightarrow> craise Os_error
      | Exited code out err \<Rightarrow> if code = 0 then creturn () else craise (e code out err))" for r e
    by (cases r) auto
  then show ?thesis unfolding publish_def Let_def by (intro calm_intros)
qed

lemma keeps_calm_update [calm_intros]:
  "keeps calm (\<lambda>s. (Inr (), s\<lparr>last_publish_at := v\<rparr>))"
  "keeps calm (\<lambda>s. (Inr x, s\<lparr>publish_attempts := publish_attempts s + 1\<rparr>))"
  by (auto intro!: keepsI simp: calm_def)

lemma keeps_calm_slot [calm_intros]: "keeps calm (wait_for_publish_slot env)"
  unfolding wait_for_publish_slot_def
  by (intro calm_intros) (auto intro!: keepsI simp: calm_def Let_def split: option.splits if_splits)

lemma keeps_calm_record [calm_intros]: "keeps calm (record_publish_attempt env t)"
  unfolding record_publish_attempt_def by (intro calm_intros)

lemma keeps_calm_take [calm_intros]: "keeps calm (take_publish_slot env)"
  unfolding take_publish_slot_def by (intro calm_intros)

lemma keeps_calm_load [calm_intros]: "keeps calm (load_message env name)"
  unfolding load_message_def
  by (intro calm_intros)
    (auto intro!: keepsI simp: calm_def split: option.splits prod.splits doc.splits)

text \<open>The operations that move a file do it, or fail with \<open>OSError\<close> and change nothing.\<close>

lemma os_call_cases:
  "os_call env op name s = (r, s') \<Longrightarrow> calm s s' \<and> (r = Inr () \<or> r = Inl Os_error)"
proof -
  assume a: "os_call env op name s = (r, s')"
  then have "calm s s'" by (rule keepsD [OF keeps_calm_os])
  moreover have "r = Inr () \<or> r = Inl Os_error"
    using a by (auto simp: os_call_def ask_def cbind_apply split: prod.splits if_splits)
  ultimately show ?thesis ..
qed

lemma unlink_message_cases:
  assumes "unlink_message env name s = (r, s')"
  shows "r = Inl Os_error \<and> calm s s'
    \<or> r = Inr () \<and> spool s' = dpop name (spool s) \<and> failed_dir s' = failed_dir s
      \<and> (\<exists>new. notices s' = notices s @ new)"
proof -
  obtain q s1 where q: "os_call env Unlink name s = (q, s1)" by fastforce
  with assms os_call_cases [OF q] show ?thesis
    by (auto simp: unlink_message_def cbind_apply calm_def split: option.splits)
qed

lemma move_to_failed_cases:
  assumes "move_to_failed env name target s = (r, s')"
  shows "r = Inl Os_error \<and> calm s s'
    \<or> (\<exists>doc t. r = Inr () \<and> map_of (spool s) name = Some (doc, t) \<and> spool s' = dpop name (spool s)
      \<and> failed_dir s' = dset target doc (failed_dir s) \<and> (\<exists>new. notices s' = notices s @ new))"
proof -
  obtain q s1 where q: "os_call env Move_to_failed name s = (q, s1)" by fastforce
  with assms os_call_cases [OF q] show ?thesis
    by (auto simp: move_to_failed_def cbind_apply calm_def split: option.splits)
qed

lemma atomic_write_cases:
  assumes "atomic_write env name d s = (r, s')"
  shows "(r = Inl Os_error \<or> r = Inl Value_error) \<and> calm s s'
    \<or> (\<exists>t. r = Inr () \<and> spool s' = dset name (Doc (JObj d), t) (spool s)
      \<and> failed_dir s' = failed_dir s \<and> (\<exists>new. notices s' = notices s @ new))"
proof -
  obtain q s1 where q: "os_call env Rewrite name s = (q, s1)" by fastforce
  show ?thesis
  proof (cases "q = Inr () \<and> json_encodable (JObj d)")
    case True
    then have "r = Inr ()"
      "s' = s1\<lparr>spool := dset name (Doc (JObj d), file_time env (outside s1)) (spool s1)\<rparr>"
      using assms q by (auto simp: atomic_write_def cbind_apply check_def simp del: json_encodable.simps)
    then show ?thesis using os_call_cases [OF q] True
      by (intro disjI2 exI [of _ "file_time env (outside s1)"]) (auto simp: calm_def)
  next
    case False
    then show ?thesis using assms os_call_cases [OF q] q
      by (auto simp: atomic_write_def cbind_apply check_def simp del: json_encodable.simps)
  qed
qed

section \<open>What becomes of a message\<close>

text \<open>
  After one attempt a file is kept, as it was or with a later \<open>next_attempt_at\<close>; or set aside in
  \<open>failed\<close>; or gone because the OCI command line accepted exactly its title and body for its
  topic; or gone because the registry no longer maps its user to its topic.
\<close>

definition rescheduled :: "nat doc \<Rightarrow> nat doc \<Rightarrow> bool" where
  "rescheduled doc doc' \<longleftrightarrow> (\<exists>d now. doc = Doc (JObj d) \<and> now < number_field d ''expires_at'' now \<and>
     doc' = Doc (JObj (dset (u ''next_attempt_at'')
       (JInt (now + retry_delay (number_field d ''attempts'' 0 + 1)))
       (dset (u ''attempts'') (JInt (number_field d ''attempts'' 0 + 1)) d))))"

definition accepted_by_oci :: "nat doc \<Rightarrow> notice list \<Rightarrow> bool" where
  "accepted_by_oci doc ns \<longleftrightarrow> (\<exists>d stamp out err. doc = Doc (JObj d) \<and>
     Published (text_field d ''region'') (text_field d ''topic_id'') (text_field d ''title'')
       (text_field d ''body'') stamp (Exited 0 out err) \<in> set ns)"

definition fate :: "(ustr \<times> nat json) list \<Rightarrow> 'w worker \<Rightarrow> string \<Rightarrow> nat doc \<Rightarrow> bool" where
  "fate topics s name doc \<longleftrightarrow>
     (\<exists>doc' t. map_of (spool s) name = Some (doc', t) \<and> (doc' = doc \<or> rescheduled doc doc'))
     \<or> map_of (failed_dir s) name = Some doc
     \<or> Delivered name \<in> set (notices s) \<and> accepted_by_oci doc (notices s)
     \<or> Discarded name \<in> set (notices s) \<and> (\<exists>d. doc = Doc (JObj d) \<and> \<not> registered topics d)"

text \<open>A step for \<open>name\<close> leaves the files of other names alone.\<close>

definition only_file :: "string \<Rightarrow> 'w worker \<Rightarrow> 'w worker \<Rightarrow> bool" where
  "only_file name s s' \<longleftrightarrow>
     (\<forall>n. n \<noteq> name \<longrightarrow> map_of (spool s') n = map_of (spool s) n
        \<and> (n \<noteq> name @ ''.delivered'' \<longrightarrow> map_of (failed_dir s') n = map_of (failed_dir s) n))
     \<and> (\<exists>new. notices s' = notices s @ new)"

lemma calm_only_file: "calm s s' \<Longrightarrow> only_file name s s'"
  by (auto simp: calm_def only_file_def)

lemma only_file_trans: "only_file name s t \<Longrightarrow> only_file name t v \<Longrightarrow> only_file name s v"
  unfolding only_file_def by (metis append_assoc)

lemma calm_notices: "calm s s' \<Longrightarrow> set (notices s) \<subseteq> set (notices s')"
  by (auto simp: calm_def)

lemma accepted_mono: "accepted_by_oci doc ns \<Longrightarrow> set ns \<subseteq> set ns' \<Longrightarrow> accepted_by_oci doc ns'"
  unfolding accepted_by_oci_def by blast

lemma note_that_run [simp]: "note_that n s = (Inr (), s\<lparr>notices := notices s @ [n]\<rparr>)"
  by (simp add: note_that_def)

lemma count_processed_run [simp]: "count_processed s = (Inr (), s\<lparr>processed := processed s + 1\<rparr>)"
  by (simp add: count_processed_def)

text \<open>Moving a file aside, with a notice.\<close>

lemma set_aside_cases:
  assumes "(cbind (move_to_failed env name name) (\<lambda>_. note_that n)) s = (r, s')"
  shows "r = Inl Os_error \<and> calm s s'
    \<or> (\<exists>doc t. r = Inr () \<and> map_of (spool s) name = Some (doc, t) \<and> only_file name s s'
        \<and> map_of (failed_dir s') name = Some doc)"
proof -
  obtain q s1 where q: "move_to_failed env name name s = (q, s1)" by fastforce
  from move_to_failed_cases [OF q] assms q show ?thesis
    by (auto simp: cbind_apply only_file_def)
qed

lemma mark_retry_cases:
  assumes "mark_retry env name d now s = (r, s')"
    and "map_of (spool s) name = Some (Doc (JObj d), t)"
  shows "(r = Inl Os_error \<or> r = Inl Value_error) \<and> calm s s'
    \<or> r = Inr () \<and> only_file name s s' \<and> fate topics s' name (Doc (JObj d))"
proof (cases "number_field d ''expires_at'' now \<le> now")
  case True
  with assms(1) have "(cbind (move_to_failed env name name)
      (\<lambda>_. note_that (Gave_up name (number_field d ''attempts'' 0 + 1)))) s = (r, s')"
    by (simp add: mark_retry_def)
  from set_aside_cases [OF this] show ?thesis using assms(2) by (auto simp: fate_def)
next
  case False
  define d' where "d' = dset (u ''next_attempt_at'')
      (JInt (now + retry_delay (number_field d ''attempts'' 0 + 1)))
      (dset (u ''attempts'') (JInt (number_field d ''attempts'' 0 + 1)) d)"
  obtain q s1 where q: "atomic_write env name d' s = (q, s1)" by fastforce
  have resch: "rescheduled (Doc (JObj d)) (Doc (JObj d'))"
    unfolding rescheduled_def d'_def using False by (intro exI [of _ d] exI [of _ now]) simp
  from False assms(1) q have "(case q of Inl e \<Rightarrow> (Inl e, s1)
      | Inr _ \<Rightarrow> note_that (Scheduled name (number_field d ''attempts'' 0 + 1)
          (retry_delay (number_field d ''attempts'' 0 + 1))) s1) = (r, s')"
    by (simp add: mark_retry_def d'_def Let_def cbind_apply split: sum.splits prod.splits)
  with atomic_write_cases [OF q] resch show ?thesis
    by (auto simp: fate_def only_file_def)
qed

lemma publish_Inr:
  assumes "publish env d stamp s = (Inr x, s')"
  shows "calm s s' \<and> (\<exists>out err. Published (text_field d ''region'') (text_field d ''topic_id'')
    (text_field d ''title'') (text_field d ''body'') stamp (Exited 0 out err) \<in> set (notices s'))"
proof -
  have "calm s s'" using keepsD [OF keeps_calm_publish assms] .
  moreover from assms obtain s1 result where
    "(case result of Timed_out \<Rightarrow> craise Timeout_expired | Not_started \<Rightarrow> craise Os_error
      | Exited code out err \<Rightarrow> if code = 0 then creturn ()
          else let detail = (if err \<noteq> [] then err else if out \<noteq> [] then out else u ''OCI CLI failed'')
               in craise (Runtime_error (take max_error_chars (map (\<lambda>c. if c = 10 then 32 else c) detail))))
       (s1\<lparr>notices := notices s1 @ [Published (text_field d ''region'') (text_field d ''topic_id'')
          (text_field d ''title'') (text_field d ''body'') stamp result]\<rparr>) = (Inr x, s')"
    unfolding publish_def Let_def cbind_Inr_iff cmd_simps note_that_run prod.inject by blast
  then have "\<exists>out err. result = Exited 0 out err \<and> s' = s1\<lparr>notices := notices s1 @
      [Published (text_field d ''region'') (text_field d ''topic_id'')
        (text_field d ''title'') (text_field d ''body'') stamp result]\<rparr>"
    by (auto simp: Let_def split: cli_result.splits if_splits)
  ultimately show ?thesis by auto
qed

lemma remove_delivered_run:
  assumes "remove_delivered env name s = (r, s')"
  shows "r = Inr () \<and> only_file name s s'"
proof -
  obtain q s1 where q: "unlink_message env name s = (q, s1)" by fastforce
  show ?thesis
  proof (cases q)
    case (Inr x)
    with q assms unlink_message_cases [OF q] show ?thesis
      by (auto simp: remove_delivered_def ctry_apply only_file_def)
  next
    case (Inl e)
    with unlink_message_cases [OF q] have c: "calm s s1" by auto
    obtain p s2 where p: "move_to_failed env name (name @ ''.delivered'') s1 = (p, s2)" by fastforce
    have rest: "ctry (cbind (move_to_failed env name (name @ ''.delivered'')) (\<lambda>_. note_that (Archived name)))
        (\<lambda>_. note_that (Archive_failed name)) s1 = (r, s')"
      using assms q Inl by (simp add: remove_delivered_def ctry_apply)
    have "r = Inr () \<and> only_file name s1 s'"
    proof (cases p)
      case (Inl e)
      with p rest move_to_failed_cases [OF p] show ?thesis
        by (auto simp: ctry_apply cbind_apply only_file_def calm_def)
    next
      case (Inr x)
      with p rest move_to_failed_cases [OF p] show ?thesis
        by (auto simp: ctry_apply cbind_apply only_file_def)
    qed
    then show ?thesis using only_file_trans [OF calm_only_file [OF c]] by blast
  qed
qed

lemma only_file_notices: "only_file name s s' \<Longrightarrow> set (notices s) \<subseteq> set (notices s')"
  unfolding only_file_def by (elim conjE exE) simp

lemma counting_is_no_change [simp]:
  "only_file name s (s'\<lparr>processed := n\<rparr>) \<longleftrightarrow> only_file name s s'"
  "fate topics (s'\<lparr>processed := n\<rparr>) name doc \<longleftrightarrow> fate topics s' name doc"
  by (simp_all add: only_file_def fate_def)

lemma only_file_note: "only_file name s s' \<Longrightarrow> only_file name s (s'\<lparr>notices := notices s' @ ns\<rparr>)"
  unfolding only_file_def by (elim conjE exE) simp

lemma only_file_unlink:
  "calm s s1 \<Longrightarrow> spool s' = dpop name (spool s1) \<Longrightarrow> failed_dir s' = failed_dir s1 \<Longrightarrow>
     notices s' = notices s1 @ ns \<Longrightarrow> only_file name s s'"
  by (auto simp: calm_def only_file_def)

lemma deliver_cases:
  assumes "deliver env name d s = (r, s')"
  shows "calm s s' \<or> r = Inr () \<and> only_file name s s' \<and> fate topics s' name (Doc (JObj d))"
proof -
  obtain q s1 where q: "take_publish_slot env s = (q, s1)" by fastforce
  have c1: "calm s s1" using keepsD [OF keeps_calm_take q] .
  show ?thesis
  proof (cases q)
    case (Inl e)
    then show ?thesis using assms q c1 by (simp add: deliver_def cbind_apply)
  next
    case (Inr t)
    obtain p s2 where p: "publish env d (to_microsecond t) s1 = (p, s2)" by fastforce
    have c2: "calm s s2" using calm_trans [OF c1 keepsD [OF keeps_calm_publish p]] .
    show ?thesis
    proof (cases p)
      case (Inl e)
      then show ?thesis using assms q \<open>q = Inr t\<close> p c2 by (simp add: deliver_def cbind_apply)
    next
      case (Inr x)
      obtain v s3 where v: "remove_delivered env name s2 = (v, s3)" by fastforce
      from remove_delivered_run [OF v] have v': "v = Inr ()" "only_file name s2 s3" by auto
      have s': "r = Inr ()"
        "s' = s3\<lparr>notices := notices s3 @ [Delivered name], processed := processed s3 + 1\<rparr>"
        using assms q \<open>q = Inr t\<close> p Inr v v'(1) by (auto simp: deliver_def cbind_apply)
      have pub: "accepted_by_oci (Doc (JObj d)) (notices s2)"
        using publish_Inr [of env d "to_microsecond t" s1 x s2] p Inr
        unfolding accepted_by_oci_def by blast
      have "only_file name s3 s'" using s'(2) by (auto simp: only_file_def)
      then have only: "only_file name s2 s'" using only_file_trans [OF v'(2)] by blast
      have "accepted_by_oci (Doc (JObj d)) (notices s')"
        by (rule accepted_mono [OF pub only_file_notices [OF only]])
      moreover have "Delivered name \<in> set (notices s')" using s'(2) by simp
      ultimately show ?thesis
        using s'(1) only_file_trans [OF calm_only_file [OF c2] only] by (auto simp: fate_def)
    qed
  qed
qed

lemma handle_message_cases:
  assumes "handle_message env fixed_now topics name d s = (r, s')"
    and "map_of (spool s) name = Some (Doc (JObj d), t)"
  shows "calm s s' \<or> r = Inr () \<and> only_file name s s' \<and> fate topics s' name (Doc (JObj d))"
proof -
  obtain q s1 where q: "current_second env fixed_now s = (q, s1)" by fastforce
  have c: "calm s s1" using keepsD [OF keeps_calm_second q] .
  have "\<exists>now. q = Inr now"
    using q by (auto simp: current_second_def worker_time_def cbind_apply split: option.splits)
  then obtain now where now: "q = Inr now" ..
  have present: "map_of (spool s1) name = Some (Doc (JObj d), t)" using c assms(2) by (simp add: calm_def)
  have go: "r = Inr () \<and> only_file name s s' \<and> fate topics s' name (Doc (JObj d))"
    if "r = Inr () \<and> only_file name s1 s' \<and> fate topics s' name (Doc (JObj d))"
    using that c only_file_trans [OF calm_only_file] by blast
  have calm: "calm s s'" if "calm s1 s'" using c that by (rule calm_trans)
  show ?thesis
  proof (cases "now < number_field d ''next_attempt_at'' 0")
    case True
    then show ?thesis using assms(1) q now c by (simp add: handle_message_def cbind_apply)
  next
    case due: False
    show ?thesis
    proof (cases "number_field d ''expires_at'' 0 \<le> now")
      case True
      with due assms(1) q now have run: "cbind (expire env name) (\<lambda>_. count_processed) s1 = (r, s')"
        by (simp add: handle_message_def cbind_apply)
      obtain p s2 where p: "cbind (move_to_failed env name name) (\<lambda>_. note_that (Expired name)) s1 = (p, s2)"
        by fastforce
      from set_aside_cases [OF p] run p present show ?thesis
        using go calm
        by (cases p) (auto simp: expire_def cbind_apply [of "cbind _ _"] fate_def)
    next
      case live: False
      show ?thesis
      proof (cases "registered topics d")
        case False
        with due live assms(1) q now have run: "cbind (unlink_message env name) (\<lambda>_.
            cbind (note_that (Discarded name)) (\<lambda>_. count_processed)) s1 = (r, s')"
          by (simp add: handle_message_def cbind_apply [of "current_second _ _"])
        obtain p s2 where p: "unlink_message env name s1 = (p, s2)" by fastforce
        show ?thesis
        proof (cases p)
          case (Inl e)
          then show ?thesis using unlink_message_cases [OF p] run p calm by (auto simp: cbind_apply)
        next
          case (Inr x)
          then have s': "r = Inr ()"
            "s' = s2\<lparr>notices := notices s2 @ [Discarded name], processed := processed s2 + 1\<rparr>"
            using run p by (auto simp: cbind_apply)
          have "only_file name s1 s2"
            using unlink_message_cases [OF p] Inr only_file_unlink [OF calm_refl] by auto
          then have "only_file name s1 s'" unfolding s'(2) by (simp add: only_file_note)
          moreover have "fate topics s' name (Doc (JObj d))"
            using False s'(2) by (simp add: fate_def)
          ultimately show ?thesis using go s'(1) by blast
        qed
      next
        case True
        with due live assms(1) q now have run: "(if max_publish_attempts_per_run \<le> publish_attempts s1
            then (Inr (), s1) else deliver env name d s1) = (r, s')"
          by (simp add: handle_message_def cbind_apply)
        show ?thesis
        proof (cases "max_publish_attempts_per_run \<le> publish_attempts s1")
          case True
          then show ?thesis using run c by simp
        next
          case False
          with run deliver_cases [of env name d s1 r s'] show ?thesis using go calm by auto
        qed
      qed
    qed
  qed
qed

lemma validate_message_Inr:
  "validate_message v = Inr d \<Longrightarrow> v = JObj d"
  unfolding validate_message_def rbind_eq_Inr check_need_simps as_simps by (elim exE conjE) simp

lemma validate_message_Inl: "validate_message v = Inl e \<Longrightarrow> e = Value_error"
  unfolding validate_message_def by (auto simp: rbind_eq_Inl)

lemma load_message_cases:
  assumes "load_message env name s = (r, s')" and "map_of (spool s) name = Some (doc, t)"
  shows "calm s s' \<and> (r = Inl Os_error \<or> r = Inl Value_error
    \<or> (\<exists>d. r = Inr d \<and> doc = Doc (JObj d)))"
proof -
  have c: "calm s s'" using keepsD [OF keeps_calm_load assms(1)] .
  obtain q s1 where q: "os_call env Open_message name s = (q, s1)" by fastforce
  from os_call_cases [OF q] have "spool s1 = spool s" "q = Inr () \<or> q = Inl Os_error"
    by (auto simp: calm_def)
  then have "r = Inl Os_error \<or> r = (case doc of Doc v \<Rightarrow> validate_message v | _ \<Rightarrow> Inl Value_error)"
    using assms q by (auto simp: load_message_def cbind_apply split: doc.splits)
  with c show ?thesis
    by (auto split: doc.splits dest: validate_message_Inr validate_message_Inl)
       (metis old.sum.exhaust validate_message_Inl validate_message_Inr)
qed

lemma load_message_missing:
  assumes "load_message env name s = (r, s')" and "map_of (spool s) name = None"
  shows "r = Inl Os_error"
proof -
  obtain q s1 where q: "os_call env Open_message name s = (q, s1)" by fastforce
  from os_call_cases [OF q] show ?thesis
    using assms q by (auto simp: load_message_def cbind_apply calm_def)
qed

lemma fate_kept: "calm s s' \<Longrightarrow> map_of (spool s) name = Some (doc, t) \<Longrightarrow> fate topics s' name doc"
  by (auto simp: calm_def fate_def)

lemma current_second_run:
  assumes "current_second env fixed_now s = (q, s1)"
  obtains now where "q = Inr now" "calm s s1"
proof -
  have "calm s s1" using keepsD [OF keeps_calm_second assms] .
  moreover have "\<exists>now. q = Inr now"
    using assms by (auto simp: current_second_def worker_time_def cbind_apply split: option.splits)
  ultimately show ?thesis using that by blast
qed

lemma handle_failure_cases:
  assumes "handle_failure env fixed_now name loaded d e s = (r, s')"
    and "map_of (spool s) name = Some (doc, t)"
    and "loaded \<and> doc = Doc (JObj d) \<or> \<not> loaded \<and> (e = Os_error \<or> e = Value_error)"
  shows "r = Inr () \<and> only_file name s s' \<and> fate topics s' name doc"
proof (cases "e = Value_error")
  case True
  obtain p s1 where p: "cbind (move_to_failed env name name) (\<lambda>_. note_that (Quarantined name)) s = (p, s1)"
    by fastforce
  have run: "(case p of Inl e' \<Rightarrow> if e' = Os_error
        then (Inr (), s1\<lparr>notices := notices s1 @ [Quarantine_failed name], processed := processed s1 + 1\<rparr>)
        else (Inl e', s1)
      | Inr x \<Rightarrow> (Inr (), s1\<lparr>processed := processed s1 + 1\<rparr>)) = (r, s')"
    using assms(1) True p
    by (auto simp: handle_failure_def quarantine_def cbind_apply [of "ctry _ _"] ctry_apply
        split: sum.splits if_splits)
  show ?thesis
  proof (cases p)
    case (Inl e')
    with set_aside_cases [OF p] have c: "calm s s1" "e' = Os_error" by auto
    then have s': "r = Inr ()"
      "s' = s1\<lparr>notices := notices s1 @ [Quarantine_failed name], processed := processed s1 + 1\<rparr>"
      using run Inl by auto
    have "calm s s'" using c(1) s'(2) by (auto simp: calm_def)
    then show ?thesis using s'(1) calm_only_file fate_kept assms(2) by blast
  next
    case (Inr x)
    with set_aside_cases [OF p] run assms(2) show ?thesis by (auto simp: fate_def)
  qed
next
  case not_value: False
  show ?thesis
  proof (cases "e = Os_error \<and> \<not> loaded")
    case True
    then have s': "r = Inr ()" "s' = s\<lparr>notices := notices s @ [Read_failed name]\<rparr>"
      using assms(1) not_value by (auto simp: handle_failure_def)
    have "calm s s'" using s'(2) by (simp add: calm_def)
    then show ?thesis using s'(1) calm_only_file fate_kept assms(2) by blast
  next
    case False
    then have doc: "doc = Doc (JObj d)" using assms(3) not_value by auto
    obtain q s1 where q: "current_second env fixed_now s = (q, s1)" by fastforce
    then obtain now where now: "q = Inr now" "calm s s1" by (rule current_second_run)
    have present: "map_of (spool s1) name = Some (Doc (JObj d), t)"
      using assms(2) now(2) doc by (simp add: calm_def)
    obtain p s2 where p: "mark_retry env name d now s1 = (p, s2)" by fastforce
    have run: "(case p of Inl e' \<Rightarrow> if e' = Os_error \<or> e' = Value_error
        then (Inr (), s2\<lparr>notices := notices s2 @ [Retry_failed name], processed := processed s2 + 1\<rparr>)
        else (Inl e', s2)
      | Inr x \<Rightarrow> (Inr (), s2\<lparr>processed := processed s2 + 1\<rparr>)) = (r, s')"
      using assms(1) not_value False q now(1) p
      by (auto simp: handle_failure_def cbind_apply ctry_apply split: sum.splits if_splits)
    from mark_retry_cases [OF p present] show ?thesis
    proof
      assume a: "(p = Inl Os_error \<or> p = Inl Value_error) \<and> calm s1 s2"
      then have s': "r = Inr ()"
        "s' = s2\<lparr>notices := notices s2 @ [Retry_failed name], processed := processed s2 + 1\<rparr>"
        using run by auto
      have "calm s2 s'" using s'(2) by (simp add: calm_def)
      then have "calm s s'" using a now(2) by (blast intro: calm_trans)
      then show ?thesis using s'(1) calm_only_file fate_kept assms(2) by blast
    next
      assume a: "p = Inr () \<and> only_file name s1 s2 \<and> fate topics s2 name (Doc (JObj d))"
      then have "r = Inr ()" "s' = s2\<lparr>processed := processed s2 + 1\<rparr>" using run by auto
      then show ?thesis
        using a doc only_file_trans [OF calm_only_file [OF now(2)]] by simp
    qed
  qed
qed

lemma process_one_cases:
  assumes "process_one env fixed_now topics x name s = (r, s')"
    and "map_of (spool s) name = Some (doc, t)"
  shows "r = Inr () \<and> only_file name s s' \<and> fate topics s' name doc"
proof -
  obtain q s1 where q: "load_message env name s = (q, s1)" by fastforce
  from load_message_cases [OF q assms(2)] have c: "calm s s1" by blast
  have present: "map_of (spool s1) name = Some (doc, t)" using c assms(2) by (simp add: calm_def)
  have from_s1: "r = Inr () \<and> only_file name s s' \<and> fate topics s' name doc"
    if "r = Inr () \<and> only_file name s1 s' \<and> fate topics s' name doc"
    using that only_file_trans [OF calm_only_file [OF c]] by blast
  show ?thesis
  proof (cases q)
    case (Inl e)
    then have run: "handle_failure env fixed_now name False [] e s1 = (r, s')"
      using assms(1) q by (simp add: process_one_def)
    have "e = Os_error \<or> e = Value_error" using load_message_cases [OF q assms(2)] Inl by auto
    then show ?thesis using from_s1 handle_failure_cases [OF run present] by blast
  next
    case (Inr d)
    then have doc: "doc = Doc (JObj d)" using load_message_cases [OF q assms(2)] by auto
    obtain p s2 where p: "handle_message env fixed_now topics name d s1 = (p, s2)" by fastforce
    have run: "(case p of Inl e \<Rightarrow> handle_failure env fixed_now name True d e s2 | Inr y \<Rightarrow> (Inr y, s2))
        = (r, s')"
      using assms(1) q Inr p by (simp add: process_one_def ctry_apply)
    from handle_message_cases [OF p present [unfolded doc]] show ?thesis
    proof
      assume c2: "calm s1 s2"
      have present2: "map_of (spool s2) name = Some (doc, t)" using c2 present by (simp add: calm_def)
      show ?thesis
      proof (cases p)
        case (Inl e)
        then have "handle_failure env fixed_now name True d e s2 = (r, s')" using run by simp
        from handle_failure_cases [OF this present2] doc
        have "r = Inr () \<and> only_file name s2 s' \<and> fate topics s' name doc" by blast
        then show ?thesis using from_s1 only_file_trans [OF calm_only_file [OF c2]] by blast
      next
        case (Inr y)
        then have "r = Inr ()" "s' = s2" using run by auto
        then show ?thesis using from_s1 calm_only_file [OF c2] fate_kept [OF c2 present] by blast
      qed
    next
      assume a: "p = Inr () \<and> only_file name s1 s2 \<and> fate topics s2 name (Doc (JObj d))"
      then show ?thesis using run from_s1 doc by auto
    qed
  qed
qed

section \<open>The pace of publications\<close>

text \<open>
  What the worker relies on: a clock that does not go back, advances by at least the time
  slept, and a lock file that can be read and written.
\<close>

definition time_flows :: "'w worker_env \<Rightarrow> bool" where
  "time_flows env \<longleftrightarrow>
     (\<forall>op n w. wall_clock env w \<le> wall_clock env (snd (os_ok env op n w)))
     \<and> (\<forall>w. wall_clock env w \<le> wall_clock env (snd (try_lock env w)))
     \<and> (\<forall>w. wall_clock env w \<le> wall_clock env (snd (registry_doc env w)))
     \<and> (\<forall>w. wall_clock env w \<le> wall_clock env (snd (oci_found env w)))
     \<and> (\<forall>r t ti b w. wall_clock env w \<le> wall_clock env (snd (run_publish env r t ti b w)))
     \<and> (\<forall>t w. 0 \<le> t \<longrightarrow> wall_clock env w + t \<le> wall_clock env (sleep_for env t w))"

definition lock_works :: "'w worker_env \<Rightarrow> bool" where
  "lock_works env \<longleftrightarrow>
     (\<forall>w. fst (os_ok env Lock_read [] w) \<and> fst (os_ok env Lock_truncate [] w)
        \<and> fst (os_ok env Lock_write [] w))"

fun stamps :: "notice list \<Rightarrow> rat list" where
  "stamps [] = []"
| "stamps (Published _ _ _ _ stamp _ # ns) = stamp # stamps ns"
| "stamps (_ # ns) = stamps ns"

lemma stamps_append [simp]: "stamps (xs @ ys) = stamps xs @ stamps ys"
  by (induction xs rule: stamps.induct) simp_all

text \<open>Stamps at least the publish interval apart.\<close>

definition spaced :: "rat list \<Rightarrow> bool" where
  "spaced ts \<longleftrightarrow> sorted_wrt (\<lambda>a b. a + min_publish_interval \<le> b) ts"

text \<open>Nothing is published, no attempt counted, and time does not go back (if the clock flows).\<close>

definition idle :: "'w worker_env \<Rightarrow> 'w worker \<Rightarrow> 'w worker \<Rightarrow> bool" where
  "idle env s s' \<longleftrightarrow> (time_flows env \<longrightarrow> wall_clock env (outside s) \<le> wall_clock env (outside s'))
     \<and> last_publish_at s' = last_publish_at s \<and> publish_attempts s' = publish_attempts s
     \<and> (\<exists>new. notices s' = notices s @ new \<and> stamps new = [])"

lemma idle_refl [simp]: "idle env s s"
  by (simp add: idle_def)

lemma idle_trans: "idle env s t \<Longrightarrow> idle env t v \<Longrightarrow> idle env s v"
  by (auto simp: idle_def)

lemma idle_rel [intro]: "reflp (idle env)" "transp (idle env)"
  by (auto intro!: reflpI transpI intro: idle_trans)

named_theorems idle_intros \<open>commands that publish nothing\<close>

lemma keeps_idle_pure [idle_intros]:
  "keeps (idle env) (creturn x)" "keeps (idle env) (craise e)" "keeps (idle env) (clift r)"
  by auto

lemma keeps_idle_cbind [idle_intros]:
  "keeps (idle env) m \<Longrightarrow> (\<And>x. keeps (idle env) (f x)) \<Longrightarrow> keeps (idle env) (cbind m f)"
  by auto

lemma keeps_idle_ctry [idle_intros]:
  "keeps (idle env) m \<Longrightarrow> (\<And>e. keeps (idle env) (h e)) \<Longrightarrow> keeps (idle env) (ctry m h)"
  by auto

lemma keeps_idle_if [idle_intros]:
  "keeps (idle env) m \<Longrightarrow> keeps (idle env) n \<Longrightarrow> keeps (idle env) (if b then m else n)"
  by simp

lemma keeps_idle_basic [idle_intros]:
  "stamps [n] = [] \<Longrightarrow> keeps (idle env) (note_that n)" "keeps (idle env) count_processed"
  "keeps (idle env) (worker_time env)"
  by (auto intro!: keepsI simp: count_processed_def worker_time_def idle_def)

lemma keeps_idle_ask:
  "(\<And>w. time_flows env \<Longrightarrow> wall_clock env w \<le> wall_clock env (snd (f w))) \<Longrightarrow> keeps (idle env) (ask f)"
  by (rule keepsI) (auto simp: ask_def idle_def split: prod.splits, metis snd_conv)

lemma keeps_idle_os: "keeps (idle env) (os_call env op name)"
  unfolding os_call_def
  by (intro keeps_idle_cbind keeps_idle_ask keeps_idle_if keeps_idle_pure) (simp add: time_flows_def)

lemma keeps_idle_second [idle_intros]: "keeps (idle env) (current_second env fixed_now)"
  by (cases fixed_now) (simp_all add: current_second_def, (intro idle_intros)+)

lemma keeps_idle_state [idle_intros]:
  "(\<And>s. idle env s (snd (f s))) \<Longrightarrow> keeps (idle env) f"
  by (auto intro!: keepsI) (metis snd_conv)

lemma keeps_idle_unlink: "keeps (idle env) (unlink_message env name)"
  unfolding unlink_message_def
  by (intro keeps_idle_cbind keeps_idle_os keeps_idle_state) (auto simp: idle_def split: option.splits)

lemma keeps_idle_move: "keeps (idle env) (move_to_failed env name target)"
  unfolding move_to_failed_def
  by (intro keeps_idle_cbind keeps_idle_os keeps_idle_state) (auto simp: idle_def split: option.splits)

lemma keeps_idle_write: "keeps (idle env) (atomic_write env name d)"
  unfolding atomic_write_def
  by (intro idle_intros keeps_idle_os) (auto simp: idle_def split: option.splits)

lemma keeps_idle_retry: "keeps (idle env) (mark_retry env name d now)"
  unfolding mark_retry_def Let_def
  by (intro keeps_idle_if keeps_idle_cbind keeps_idle_move keeps_idle_write keeps_idle_basic) simp_all

lemma keeps_idle_load: "keeps (idle env) (load_message env name)"
  unfolding load_message_def
  by (intro keeps_idle_cbind keeps_idle_os keeps_idle_state)
    (auto simp: idle_def split: option.splits doc.splits)

lemma keeps_idle_failure: "keeps (idle env) (handle_failure env fixed_now name loaded d e)"
  unfolding handle_failure_def quarantine_def
  by (intro keeps_idle_if keeps_idle_ctry keeps_idle_cbind keeps_idle_move keeps_idle_retry
      keeps_idle_second keeps_idle_basic keeps_idle_pure) simp_all

lemma keeps_idle_delivered: "keeps (idle env) (remove_delivered env name)"
  unfolding remove_delivered_def
  by (intro keeps_idle_ctry keeps_idle_cbind keeps_idle_move keeps_idle_unlink keeps_idle_basic) simp_all

section \<open>Rounding to microseconds\<close>

lemma round_half_even_mono: "a \<le> b \<Longrightarrow> round_half_even a \<le> round_half_even b"
proof -
  assume ab: "a \<le> b"
  have up: "round_half_even r \<le> floor r + 1" "floor r \<le> round_half_even r" for r
    by (auto simp: round_half_even_def Let_def)
  show ?thesis
  proof (cases "floor a = floor b")
    case True
    then show ?thesis using ab by (auto simp: round_half_even_def Let_def)
  next
    case False
    then have "floor a + 1 \<le> floor b" using floor_mono [OF ab] by linarith
    then show ?thesis using up(1) [of a] up(2) [of b] by linarith
  qed
qed

lemma round_half_even_add: "even k \<Longrightarrow> round_half_even (a + of_int k) = round_half_even a + k"
  by (auto simp: round_half_even_def Let_def)

lemma to_microsecond_mono: "a \<le> b \<Longrightarrow> to_microsecond a \<le> to_microsecond b"
  using round_half_even_mono [of "a * 1000000" "b * 1000000"]
  by (simp add: to_microsecond_def divide_right_mono)

lemma to_microsecond_add: "to_microsecond (a + min_publish_interval) = to_microsecond a + min_publish_interval"
proof -
  have "(a + min_publish_interval) * 1000000 = a * 1000000 + of_int 6100000"
    by (simp add: min_publish_interval_def algebra_simps)
  then have "round_half_even ((a + min_publish_interval) * 1000000) = round_half_even (a * 1000000) + 6100000"
    by (simp only: round_half_even_add [of 6100000 "a * 1000000", simplified] of_int_numeral)
  then show ?thesis by (simp add: to_microsecond_def min_publish_interval_def add_divide_distrib)
qed

lemma to_microsecond_idem: "to_microsecond (to_microsecond t) = to_microsecond t"
  by (simp add: to_microsecond_def round_half_even_def)

section \<open>No message is lost\<close>

lemma fate_other:
  assumes "only_file n s s'" and "fate topics s name doc" and "n \<noteq> name" and "name \<noteq> n @ ''.delivered''"
  shows "fate topics s' name doc"
proof -
  have same: "map_of (spool s') name = map_of (spool s) name"
    "map_of (failed_dir s') name = map_of (failed_dir s) name"
    using assms(1,3,4) by (auto simp: only_file_def)
  have "set (notices s) \<subseteq> set (notices s')" using only_file_notices [OF assms(1)] .
  then show ?thesis
    using assms(2) accepted_mono [of doc "notices s" "notices s'"]
    unfolding fate_def same by blast
qed

lemma json_name_not_delivered:
  assumes "ends_with n ''.json''"
  shows "n \<noteq> m @ ''.delivered''"
proof
  assume eq: "n = m @ ''.delivered''"
  obtain t where "n = t @ ''.json''" using assms by (auto simp: ends_with_iff)
  then have "last n = CHR ''n''" by simp
  then show False using eq by simp
qed

lemma process_all:
  assumes "cfold (process_one env fixed_now topics) () names s = (r, s')"
    and "distinct names" and "list_all (\<lambda>n. ends_with n ''.json'' \<and> map_of (spool s) n \<noteq> None) names"
  shows "r = Inr () \<and> (\<forall>n doc t. n \<in> set names \<longrightarrow> map_of (spool s) n = Some (doc, t) \<longrightarrow>
    fate topics s' n doc) \<and> (\<forall>n doc. ends_with n ''.json'' \<longrightarrow> n \<notin> set names \<longrightarrow> fate topics s n doc \<longrightarrow>
      fate topics s' n doc)"
  using assms
proof (induction names arbitrary: s)
  case Nil
  then show ?case by simp
next
  case (Cons m names)
  obtain q s1 where q: "process_one env fixed_now topics () m s = (q, s1)" by fastforce
  obtain doc t where m: "map_of (spool s) m = Some (doc, t)" "ends_with m ''.json''"
    using Cons.prems(3) by (cases "map_of (spool s) m") auto
  from process_one_cases [OF q m(1)] have one: "q = Inr ()" "only_file m s s1" "fate topics s1 m doc"
    by auto
  have rest: "cfold (process_one env fixed_now topics) () names s1 = (r, s')"
    using Cons.prems(1) q one(1) by (simp add: cbind_apply)
  have same: "map_of (spool s1) n = map_of (spool s) n" if "n \<noteq> m" for n
    using one(2) that by (simp add: only_file_def)
  have there: "list_all (\<lambda>n. ends_with n ''.json'' \<and> map_of (spool s1) n \<noteq> None) names"
    unfolding list_all_iff
  proof
    fix n assume n: "n \<in> set names"
    then have "n \<noteq> m" using Cons.prems(2) by auto
    then show "ends_with n ''.json'' \<and> map_of (spool s1) n \<noteq> None"
      using same [of n] n Cons.prems(3) by (simp add: list_all_iff)
  qed
  have "distinct names" using Cons.prems(2) by simp
  from Cons.IH [OF rest this there] have ih: "r = Inr ()"
    "\<And>n doc t. n \<in> set names \<Longrightarrow> map_of (spool s1) n = Some (doc, t) \<Longrightarrow> fate topics s' n doc"
    "\<And>n doc. ends_with n ''.json'' \<Longrightarrow> n \<notin> set names \<Longrightarrow> fate topics s1 n doc \<Longrightarrow> fate topics s' n doc"
    by blast+
  have "fate topics s' n doc'" if "n \<in> set (m # names)" "map_of (spool s) n = Some (doc', t')" for n doc' t'
  proof (cases "n = m")
    case True
    then have "fate topics s1 n doc'" using one(3) m(1) that(2) by simp
    then show ?thesis using ih(3) True m(2) Cons.prems(2) by simp
  next
    case False
    then show ?thesis using ih(2) same that by auto
  qed
  moreover have "fate topics s' n doc'"
    if "ends_with n ''.json''" "n \<notin> set (m # names)" "fate topics s n doc'" for n doc'
    using ih(3) [of n doc'] fate_other [OF one(2) that(3)] json_name_not_delivered [OF that(1)] that
    by auto
  ultimately show ?case using ih(1) by blast
qed

lemma queue_age_run:
  "\<exists>w age. queue_age env keyed name s = (Inr (keyed @ [((age, name), name)]), s\<lparr>outside := w\<rparr>)"
  by (auto simp: queue_age_def ask_def cbind_apply split: prod.splits)

lemma queue_ages:
  "\<exists>w new. cfold (queue_age env) keyed names s = (Inr (keyed @ new), s\<lparr>outside := w\<rparr>)
     \<and> map snd new = names \<and> list_all (\<lambda>(k, n). snd k = n) new"
proof (induction names arbitrary: keyed s)
  case Nil
  show ?case by (rule exI [of _ "outside s"]) simp
next
  case (Cons n names)
  obtain w age where one: "queue_age env keyed n s = (Inr (keyed @ [((age, n), n)]), s\<lparr>outside := w\<rparr>)"
    using queue_age_run [of env keyed n s] by auto
  obtain w' new where rest: "cfold (queue_age env) (keyed @ [((age, n), n)]) names (s\<lparr>outside := w\<rparr>)
      = (Inr ((keyed @ [((age, n), n)]) @ new), s\<lparr>outside := w, outside := w'\<rparr>)"
    "map snd new = names" "list_all (\<lambda>(k, n). snd k = n) new"
    using Cons.IH [of "keyed @ [((age, n), n)]" "s\<lparr>outside := w\<rparr>"] by auto
  then show ?case
    by (intro exI [of _ w'] exI [of _ "((age, n), n) # new"]) (simp add: cbind_apply one)
qed

definition same_record :: "'w worker \<Rightarrow> 'w worker \<Rightarrow> bool" where
  "same_record s s' \<longleftrightarrow> spool s' = spool s \<and> failed_dir s' = failed_dir s
     \<and> last_publish_at s' = last_publish_at s \<and> notices s' = notices s"

lemma ask_same: "ask f s = (r, s') \<Longrightarrow> same_record s s' \<and> publish_attempts s' = publish_attempts s
    \<and> processed s' = processed s \<and> (\<exists>x. r = Inr x)"
  by (auto simp: ask_def same_record_def split: prod.splits)

lemma os_same: "os_call env op name s = (r, s') \<Longrightarrow> same_record s s'
    \<and> publish_attempts s' = publish_attempts s \<and> processed s' = processed s"
  by (auto simp: os_call_def ask_def cbind_apply same_record_def split: prod.splits if_splits)

lemma same_record_trans: "same_record s t \<Longrightarrow> same_record t v \<Longrightarrow> same_record s v"
  by (simp add: same_record_def)

lemma same_record_calm: "same_record s s' \<Longrightarrow> calm s s'"
  by (simp add: same_record_def calm_def)

lemma queued_names_run:
  assumes "queued_message_names env s = (r, s')"
  shows "r = Inl Os_error \<and> same_record s s'
    \<or> (\<exists>names w. r = Inr names \<and> s' = s\<lparr>outside := w\<rparr>
        \<and> mset names = mset (filter (\<lambda>n. ends_with n ''.json'') (map fst (spool s))))"
proof -
  obtain q s1 where q: "os_call env List_spool [] s = (q, s1)" by fastforce
  from os_call_cases [OF q] have c: "calm s s1" "q = Inr () \<or> q = Inl Os_error" by auto
  have s1: "s1 = s\<lparr>outside := outside s1\<rparr>"
    using q by (auto simp: os_call_def ask_def cbind_apply split: prod.splits if_splits)
  show ?thesis
  proof (cases q)
    case (Inl e)
    then show ?thesis using assms q c os_same [OF q] by (simp add: queued_message_names_def cbind_apply)
  next
    case (Inr x)
    obtain w new where run: "cfold (queue_age env) []
          (filter (\<lambda>n. ends_with n ''.json'') (map fst (spool s1))) s1 = (Inr ([] @ new), s1\<lparr>outside := w\<rparr>)"
      and new: "map snd new = filter (\<lambda>n. ends_with n ''.json'') (map fst (spool s1))"
      using queue_ages [of env "[]" "filter (\<lambda>n. ends_with n ''.json'') (map fst (spool s1))" s1] by auto
    have "r = Inr (map snd (sort_key fst new))" "s' = s1\<lparr>outside := w\<rparr>"
      using assms q Inr run by (simp_all add: queued_message_names_def cbind_apply)
    moreover have "mset (map snd (sort_key fst new)) = mset (map snd new)" by simp
    moreover have "spool s1 = spool s" using c(1) by (simp add: calm_def)
    moreover have "s1\<lparr>outside := w\<rparr> = s\<lparr>outside := w\<rparr>"
      by (subst s1) simp
    ultimately show ?thesis using new by metis
  qed
qed

text \<open>
  A run stops early (returning 0 because the lock is held, or raising) with the files as they
  were, or goes through the whole queue with the topics the registry names.
\<close>

definition whole_run ::
  "'w worker_env \<Rightarrow> int option \<Rightarrow> (ustr \<times> nat json) list \<Rightarrow> string list \<Rightarrow> 'w worker \<Rightarrow> 'w worker
     \<Rightarrow> 'w worker \<Rightarrow> bool" where
  "whole_run env fixed_now topics names s s1 s' \<longleftrightarrow>
     calm s s1 \<and> last_publish_at s1 = last_publish_at s \<and> notices s1 = notices s
     \<and> publish_attempts s1 = 0 \<and> processed s1 = 0
     \<and> (time_flows env \<longrightarrow> wall_clock env (outside s) \<le> wall_clock env (outside s1))
     \<and> (\<exists>doc w w'. registry_doc env w = (doc, w') \<and> load_active_topics doc = Some topics)
     \<and> mset names = mset (filter (\<lambda>n. ends_with n ''.json'') (map fst (spool s)))
     \<and> cfold (process_one env fixed_now topics) () names s1 = (Inr (), s')"

lemma keeps_idle_names: "keeps (idle env) (queued_message_names env)"
proof -
  have age: "keeps (idle env) (queue_age env keyed n)" for keyed n
    unfolding queue_age_def
    by (intro keeps_idle_cbind keeps_idle_ask keeps_idle_state)
      (simp_all add: time_flows_def)
  have "keeps (idle env) (\<lambda>s. cbind (cfold (queue_age env) [] (f s)) (\<lambda>k. creturn (g k)) s)"
    for f and g :: "((nat \<times> string) \<times> string) list \<Rightarrow> string list"
  proof (rule keepsI)
    fix s r s' assume "cbind (cfold (queue_age env) [] (f s)) (\<lambda>k. creturn (g k)) s = (r, s')"
    moreover have "keeps (idle env) (cbind (cfold (queue_age env) [] (f s)) (\<lambda>k. creturn (g k)))"
      by (intro keeps_idle_cbind keeps_idle_pure keeps_cfold age) auto
    ultimately show "idle env s s'" by (auto dest: keepsD)
  qed
  then show ?thesis
    unfolding queued_message_names_def by (intro keeps_idle_cbind keeps_idle_os)
qed

lemma process_queue_outcome:
  assumes run: "process_queue env fixed_now s = (r, s')" and distinct: "distinct (map fst (spool s))"
  shows "same_record s s' \<and> (r = Inr 0 \<or> (\<exists>e. r = Inl e))
    \<or> (\<exists>topics names s1. whole_run env fixed_now topics names s s1 s' \<and> r = Inr (processed s'))"
    (is "?stopped \<or> ?whole")
proof -
  obtain q1 s1 where q1: "os_call env Make_spool [] s = (q1, s1)" by fastforce
  obtain q2 s2 where q2: "os_call env Open_lock [] s1 = (q2, s2)" by fastforce
  define s3 where "s3 = s2\<lparr>processed := 0, publish_attempts := 0\<rparr>"
  obtain q4 s4 where q4: "ask (try_lock env) s3 = (q4, s4)" by fastforce
  obtain q5 s5 where q5: "ask (registry_doc env) s4 = (q5, s5)" by fastforce
  obtain q6 s6 where q6: "queued_message_names env s5 = (q6, s6)" by fastforce
  obtain locked doc where x: "q4 = Inr locked" "q5 = Inr doc"
    using ask_same [OF q4] ask_same [OF q5] by auto
  have same: "same_record s s1" "same_record s s2" "same_record s s3" "same_record s s4" "same_record s s5"
    using os_same [OF q1] os_same [OF q2] ask_same [OF q4] ask_same [OF q5]
    by (auto simp: same_record_def s3_def)
  have counts: "publish_attempts s5 = 0" "processed s5 = 0"
    using ask_same [OF q4] ask_same [OF q5] by (auto simp: s3_def)
  have time: "wall_clock env (outside s) \<le> wall_clock env (outside s6)" if flows: "time_flows env"
  proof -
    have asked: "keeps (idle env) (ask (try_lock env))" "keeps (idle env) (ask (registry_doc env))"
      by (auto intro!: keeps_idle_ask simp: time_flows_def)
    have "idle env s s1" "idle env s1 s2" "idle env s3 s4" "idle env s4 s5" "idle env s5 s6"
      using keepsD [OF keeps_idle_os q1] keepsD [OF keeps_idle_os q2]
        keepsD [OF asked(1) q4] keepsD [OF asked(2) q5] keepsD [OF keeps_idle_names q6]
      by auto
    then show ?thesis using flows by (simp add: idle_def s3_def)
  qed
  have reg: "\<exists>w w'. registry_doc env w = (doc, w')"
    using q5 x by (auto simp: ask_def split: prod.splits)
  consider (a) e where "q1 = Inl e" | (b) e where "q1 = Inr ()" "q2 = Inl e"
    | (c) "q1 = Inr ()" "q2 = Inr ()" "\<not> locked"
    | (d) "q1 = Inr ()" "q2 = Inr ()" locked "load_active_topics doc = None"
    | (e) topics e where "q1 = Inr ()" "q2 = Inr ()" locked "load_active_topics doc = Some topics"
        "q6 = Inl e"
    | (f) topics names where "q1 = Inr ()" "q2 = Inr ()" locked "load_active_topics doc = Some topics"
        "q6 = Inr names"
    using os_call_cases [OF q1] os_call_cases [OF q2] by (cases q6; cases "load_active_topics doc") auto
  then show ?thesis
  proof cases
    case a
    then have "r = Inl e" "s' = s1" using run q1 by (auto simp: process_queue_def cbind_apply)
    then show ?thesis using same(1) by blast
  next
    case b
    then have "r = Inl e" "s' = s2" using run q1 q2 by (auto simp: process_queue_def cbind_apply)
    then show ?thesis using same(2) by blast
  next
    case c
    then have "r = Inr 0" "s' = s4"
      using run q1 q2 q4 x by (auto simp: process_queue_def cbind_apply s3_def)
    then show ?thesis using same(4) by blast
  next
    case d
    then have "\<exists>e. r = Inl e" "s' = s5"
      using run q1 q2 q4 q5 x by (auto simp: process_queue_def cbind_apply s3_def)
    then show ?thesis using same(5) by blast
  next
    case e
    then have "r = Inl e" "s' = s6"
      using run q1 q2 q4 q5 q6 x by (auto simp: process_queue_def cbind_apply s3_def)
    moreover have "same_record s5 s6" using queued_names_run [OF q6] e by auto
    ultimately show ?thesis using same_record_trans [OF same(5)] by blast
  next
    case f
    then obtain w where w: "s6 = s5\<lparr>outside := w\<rparr>"
      "mset names = mset (filter (\<lambda>n. ends_with n ''.json'') (map fst (spool s5)))"
      using queued_names_run [OF q6] by auto
    obtain q7 s7 where q7: "cfold (process_one env fixed_now topics) () names s6 = (q7, s7)" by fastforce
    have mset: "mset names = mset (filter (\<lambda>n. ends_with n ''.json'') (map fst (spool s)))"
      using w(2) same(5) by (simp add: same_record_def)
    have spool6: "spool s6 = spool s" using w(1) same(5) by (simp add: same_record_def)
    have d6: "distinct names"
      using mset distinct by (metis distinct_filter mset_eq_imp_distinct_iff)
    have "set names = set (filter (\<lambda>n. ends_with n ''.json'') (map fst (spool s)))"
      using mset by (rule mset_eq_setD)
    then have present: "list_all (\<lambda>n. ends_with n ''.json'' \<and> map_of (spool s6) n \<noteq> None) names"
      unfolding list_all_iff spool6 by (auto simp: map_of_eq_None_iff image_iff)
    from process_all [OF q7 d6 present] have ok: "q7 = Inr ()" by blast
    have "r = Inr (processed s7)" "s' = s7"
      using run q1 q2 q4 q5 q6 x f q7 ok by (auto simp: process_queue_def cbind_apply s3_def)
    moreover have "whole_run env fixed_now topics names s s6 s7"
      unfolding whole_run_def
      using w(1) same(5) counts reg f(4) mset q7 ok time by (auto simp: calm_def same_record_def)
    ultimately show ?thesis by blast
  qed
qed

text \<open>
  C6: no message is lost, and none disappears without a reason. Take a run of the worker over
  any queue, with any failures of the file system, the clock and the OCI command line. A queued
  message is, afterwards, still queued (as it was, or with its next attempt later), or set aside
  in \<open>failed\<close>, or the OCI command line has accepted its very title and body for its topic, or the
  registry in force did not map its user to its topic. And a run does not fail because of a
  message: it returns the number processed unless it stopped before the first message.
\<close>

theorem no_message_is_lost:
  assumes "process_queue env fixed_now s = (r, s')" and "distinct (map fst (spool s))"
    and "map_of (spool s) name = Some (doc, t)" and "ends_with name ''.json''"
  shows "calm s s' \<or> r = Inr (processed s') \<and>
    (\<exists>topics registry w w'. registry_doc env w = (registry, w') \<and>
       load_active_topics registry = Some topics \<and> fate topics s' name doc)"
  using process_queue_outcome [OF assms(1,2)]
proof
  assume "\<exists>topics names s1. whole_run env fixed_now topics names s s1 s' \<and> r = Inr (processed s')"
  then obtain topics names s1 where whole: "whole_run env fixed_now topics names s s1 s'"
    and r: "r = Inr (processed s')" by blast
  then have mset: "mset names = mset (filter (\<lambda>n. ends_with n ''.json'') (map fst (spool s)))"
    and calm: "calm s s1"
    and loop: "cfold (process_one env fixed_now topics) () names s1 = (Inr (), s')"
    by (auto simp: whole_run_def)
  have sets: "set names = set (filter (\<lambda>n. ends_with n ''.json'') (map fst (spool s)))"
    using mset by (rule mset_eq_setD)
  have d: "distinct names" using mset assms(2) by (metis distinct_filter mset_eq_imp_distinct_iff)
  have spool: "spool s1 = spool s" using calm by (simp add: calm_def)
  have present: "list_all (\<lambda>n. ends_with n ''.json'' \<and> map_of (spool s1) n \<noteq> None) names"
    unfolding list_all_iff spool using sets by (auto simp: map_of_eq_None_iff image_iff)
  have "name \<in> set names"
    using sets assms(3,4) by (force dest: map_of_SomeD)
  then have "fate topics s' name doc"
    using process_all [OF loop d present] assms(3) spool by metis
  then show ?thesis using whole r unfolding whole_run_def by blast
qed (use same_record_calm in blast)

section \<open>At most ten publications, spaced apart\<close>

text \<open>
  Holds between messages: the publications since the start are at most as many as the attempts
  counted. If the clock flows and the lock file works, they and the attempt \<open>prev\<close> of the run
  before, if there was one, are spaced, and the time in the lock file is that of the last attempt.
\<close>

definition paced :: "'w worker_env \<Rightarrow> rat list \<Rightarrow> notice list \<Rightarrow> 'w worker \<Rightarrow> bool" where
  "paced env prev old s \<longleftrightarrow> publish_attempts s \<le> max_publish_attempts_per_run
     \<and> (\<exists>new. notices s = old @ new \<and> length (stamps new) \<le> publish_attempts s
        \<and> (time_flows env \<and> lock_works env \<longrightarrow> spaced (prev @ stamps new)
            \<and> (\<forall>x \<in> set (prev @ stamps new). \<exists>t. last_publish_at s = Some (to_microsecond t)
                 \<and> t \<le> wall_clock env (outside s) \<and> x \<le> to_microsecond t)))"

lemma paced_idle: "paced env prev old s \<Longrightarrow> idle env s s' \<Longrightarrow> paced env prev old s'"
  unfolding paced_def idle_def by (fastforce intro: order_trans)

text \<open>A slot is counted exactly when it is granted.\<close>

lemma os_call_count:
  assumes "os_call env op name s = (r, s')"
  shows "publish_attempts s' = publish_attempts s \<and> notices s' = notices s"
  using assms by (auto simp: os_call_def ask_def cbind_apply split: prod.splits if_splits)

lemma take_slot_count:
  assumes "take_publish_slot env s = (r, s')"
  shows "notices s' = notices s
    \<and> publish_attempts s' = publish_attempts s + (case r of Inl _ \<Rightarrow> 0 | Inr _ \<Rightarrow> 1)"
proof -
  define quiet :: "'a worker \<Rightarrow> 'a worker \<Rightarrow> bool"
    where "quiet = (\<lambda>v v'. publish_attempts v' = publish_attempts v \<and> notices v' = notices v)"
  have wait: "quiet v v'" if "wait_for_publish_slot env v = (q, v')" for v v' q
    using that
    by (auto simp: quiet_def wait_for_publish_slot_def worker_time_def cbind_apply Let_def
        split: prod.splits sum.splits option.splits if_splits dest!: os_call_count)
  have put: "quiet v v'" if "record_publish_attempt env t v = (q, v')" for v v' q t
    using that
    by (auto simp: quiet_def record_publish_attempt_def cbind_apply
        split: prod.splits sum.splits dest!: os_call_count)
  show ?thesis
    using assms unfolding take_publish_slot_def
  proof (cases rule: cbind_cases)
    case (raised e)
    then show ?thesis using wait [OF raised(1)] by (simp add: quiet_def)
  next
    case (went_on u v)
    let ?t = "wall_clock env (outside v)"
    have "cbind (record_publish_attempt env ?t) (\<lambda>_ s.
        (Inr ?t, s\<lparr>publish_attempts := publish_attempts s + 1\<rparr>)) v = (r, s')"
      using went_on(2) by (simp add: worker_time_def cbind_apply)
    then show ?thesis
    proof (cases rule: cbind_cases)
      case (raised e)
      then show ?thesis using wait [OF went_on(1)] put [OF raised(1)] by (simp add: quiet_def)
    next
      case later: (went_on u' v')
      then show ?thesis using wait [OF went_on(1)] put [OF later(1)] by (auto simp: quiet_def)
    qed
  qed
qed

text \<open>Taking a slot waits: the recorded time is an interval after the one recorded before.\<close>

lemma take_slot_run:
  assumes "time_flows env" and "lock_works env" and "take_publish_slot env s = (r, s')"
  shows "\<exists>t. r = Inr t \<and> last_publish_at s' = Some (to_microsecond t) \<and> t \<le> wall_clock env (outside s')
    \<and> publish_attempts s' = publish_attempts s + 1 \<and> (\<exists>new. notices s' = notices s @ new \<and> stamps new = [])
    \<and> (\<forall>t0. last_publish_at s = Some (to_microsecond t0) \<longrightarrow> t0 \<le> wall_clock env (outside s) \<longrightarrow>
         to_microsecond t0 + min_publish_interval \<le> to_microsecond t)"
proof -
  have io: "\<exists>w. os_call env op [] v = (Inr (), v\<lparr>outside := w\<rparr>) \<and> wall_clock env (outside v) \<le> wall_clock env w"
    if "op \<in> {Lock_read, Lock_truncate, Lock_write}" for op and v :: "'a worker"
  proof -
    obtain ok w where w: "os_ok env op [] (outside v) = (ok, w)" by fastforce
    have "fst (os_ok env op [] (outside v))" using assms(2) that by (auto simp: lock_works_def)
    moreover have "wall_clock env (outside v) \<le> wall_clock env (snd (os_ok env op [] (outside v)))"
      using assms(1) by (simp add: time_flows_def)
    ultimately show ?thesis using w by (auto simp: os_call_def ask_def cbind_apply)
  qed
  obtain w1 where w1: "os_call env Lock_read [] s = (Inr (), s\<lparr>outside := w1\<rparr>)"
    "wall_clock env (outside s) \<le> wall_clock env w1" using io by blast
  define delay where "delay = (case last_publish_at s of None \<Rightarrow> 0
    | Some l \<Rightarrow> min min_publish_interval (max 0 (min_publish_interval - (wall_clock env w1 - l))))"
  define w2 where "w2 = (if 0 < delay then sleep_for env delay w1 else w1)"
  have slot: "wait_for_publish_slot env s = (Inr (), s\<lparr>outside := w2\<rparr>)"
    using w1(1)
    by (auto simp: wait_for_publish_slot_def cbind_apply worker_time_def w2_def delay_def Let_def
        split: option.split)
  have "0 \<le> delay" by (auto simp: delay_def min_publish_interval_def split: option.splits)
  then have later: "wall_clock env w1 + delay \<le> wall_clock env w2"
    using assms(1) unfolding w2_def time_flows_def by auto
  obtain w3 where w3: "os_call env Lock_truncate [] (s\<lparr>outside := w2\<rparr>) = (Inr (), s\<lparr>outside := w3\<rparr>)"
    "wall_clock env w2 \<le> wall_clock env w3"
    using io [of Lock_truncate "s\<lparr>outside := w2\<rparr>"] by auto
  obtain w4 where w4: "os_call env Lock_write [] (s\<lparr>outside := w3, last_publish_at := None\<rparr>)
      = (Inr (), s\<lparr>last_publish_at := None, outside := w4\<rparr>)" "wall_clock env w3 \<le> wall_clock env w4"
    using io [of Lock_write "s\<lparr>outside := w3, last_publish_at := None\<rparr>"] by auto
  define t where "t = wall_clock env w2"
  have run: "r = Inr t" "s' = s\<lparr>last_publish_at := Some (to_microsecond t), outside := w4,
      publish_attempts := publish_attempts s + 1\<rparr>"
    using assms(3) slot w3(1) w4(1)
    by (auto simp: take_publish_slot_def record_publish_attempt_def cbind_apply worker_time_def t_def)
  have gap: "to_microsecond t0 + min_publish_interval \<le> to_microsecond t"
    if "last_publish_at s = Some (to_microsecond t0)" "t0 \<le> wall_clock env (outside s)" for t0
  proof (cases "wall_clock env w1 \<le> to_microsecond t0")
    case True
    then have "delay = min_publish_interval"
      using that(1) by (simp add: delay_def min_publish_interval_def)
    then have "t0 + min_publish_interval \<le> t" using later w1(2) that(2) by (simp add: t_def)
    then have "to_microsecond (t0 + min_publish_interval) \<le> to_microsecond t" by (rule to_microsecond_mono)
    then show ?thesis by (simp add: to_microsecond_add)
  next
    case False
    then have "to_microsecond t0 + min_publish_interval \<le> wall_clock env w1 + delay"
      using that(1) by (simp add: delay_def min_def max_def)
    then have "to_microsecond t0 + min_publish_interval \<le> t" using later by (simp add: t_def)
    then have "to_microsecond (to_microsecond t0 + min_publish_interval) \<le> to_microsecond t"
      by (rule to_microsecond_mono)
    then show ?thesis by (simp add: to_microsecond_add to_microsecond_idem)
  qed
  have "t \<le> wall_clock env w4" using w3(2) w4(2) by (simp add: t_def)
  with run gap show ?thesis by auto
qed

lemma publish_stamps:
  assumes "publish env d stamp s = (r, s')"
  shows "(time_flows env \<longrightarrow> wall_clock env (outside s) \<le> wall_clock env (outside s'))
    \<and> last_publish_at s' = last_publish_at s \<and> publish_attempts s' = publish_attempts s
    \<and> (\<exists>new. notices s' = notices s @ new \<and> (stamps new = [] \<or> stamps new = [stamp]))"
proof -
  define pre where "pre = (cbind (clift (check Value_error (valid_region (text_field d ''region'')))) (\<lambda>_.
     cbind (clift (check Value_error (starts_with (text_field d ''topic_id'') topic_prefix))) (\<lambda>_.
     cbind (ask (oci_found env)) (\<lambda>found.
     cbind (clift (check (Runtime_error (u ''OCI CLI executable was not found'')) found)) (\<lambda>_.
     cbind (os_call env Make_payload []) (\<lambda>_.
     ask (run_publish env (text_field d ''region'') (text_field d ''topic_id'')
       (text_field d ''title'') (text_field d ''body''))))))) :: ('a, cli_result) work)"
  define post where "post = ((\<lambda>result. case result of Timed_out \<Rightarrow> craise Timeout_expired
      | Not_started \<Rightarrow> craise Os_error
      | Exited code out err \<Rightarrow> if code = 0 then creturn ()
          else let detail = (if err \<noteq> [] then err else if out \<noteq> [] then out else u ''OCI CLI failed'')
               in craise (Runtime_error (take max_error_chars
                 (map (\<lambda>c. if c = 10 then 32 else c) detail))) ) :: cli_result \<Rightarrow> ('a, unit) work)"
  have split: "publish env d stamp = cbind pre (\<lambda>result. cbind (note_that
      (Published (text_field d ''region'') (text_field d ''topic_id'') (text_field d ''title'')
        (text_field d ''body'') stamp result)) (\<lambda>_. post result))"
    by (rule ext) (auto simp: publish_def Let_def pre_def post_def cbind_apply split: sum.splits prod.splits)
  have flows: "time_flows env \<Longrightarrow> wall_clock env w \<le> wall_clock env (snd (oci_found env w))"
    "time_flows env \<Longrightarrow> wall_clock env w \<le> wall_clock env (snd (run_publish env r1 r2 r3 r4 w))"
    for w r1 r2 r3 r4
    by (auto simp: time_flows_def)
  have "keeps (idle env) pre"
    unfolding pre_def
    by (intro keeps_idle_cbind keeps_idle_pure keeps_idle_ask keeps_idle_os flows)
  moreover obtain q s1 where q: "pre s = (q, s1)" by fastforce
  ultimately have i: "idle env s s1" by (auto dest: keepsD)
  show ?thesis
  proof (cases q)
    case (Inl e)
    then have "s' = s1" using assms q unfolding split by (simp add: cbind_apply)
    then show ?thesis using i by (auto simp: idle_def)
  next
    case (Inr result)
    have "\<exists>x. post result v = (x, v)" for v
      by (cases result) (auto simp: post_def Let_def)
    then have "s' = s1\<lparr>notices := notices s1 @ [Published (text_field d ''region'') (text_field d ''topic_id'')
        (text_field d ''title'') (text_field d ''body'') stamp result]\<rparr>"
      using assms q Inr unfolding split by (auto simp: cbind_apply) (metis prod.inject)
    then show ?thesis using i by (auto simp: idle_def)
  qed
qed

lemma spaced_snoc: "spaced ts \<Longrightarrow> (\<And>x. x \<in> set ts \<Longrightarrow> x + min_publish_interval \<le> t) \<Longrightarrow> spaced (ts @ [t])"
  by (auto simp: spaced_def sorted_wrt_append)

lemma deliver_spaced:
  assumes works: "time_flows env" "lock_works env" and "paced env prev old s"
    and slot: "take_publish_slot env s = (Inr t, s1)" and pub: "publish env d (to_microsecond t) s1 = (p, s2)"
    and new: "notices s2 = old @ new"
  shows "spaced (prev @ stamps new) \<and> (\<forall>x \<in> set (prev @ stamps new). \<exists>t. last_publish_at s2 = Some (to_microsecond t)
                 \<and> t \<le> wall_clock env (outside s2) \<and> x \<le> to_microsecond t)"
proof -
  obtain new0 where new0: "notices s = old @ new0" "spaced (prev @ stamps new0)"
      "\<And>x. x \<in> set (prev @ stamps new0) \<Longrightarrow> \<exists>t. last_publish_at s = Some (to_microsecond t)
          \<and> t \<le> wall_clock env (outside s) \<and> x \<le> to_microsecond t"
    using assms(3) works unfolding paced_def by blast
  from take_slot_run [OF works slot] obtain new1 where
    s1: "last_publish_at s1 = Some (to_microsecond t)" "t \<le> wall_clock env (outside s1)"
      "notices s1 = notices s @ new1" "stamps new1 = []"
      "\<And>t0. last_publish_at s = Some (to_microsecond t0) \<Longrightarrow> t0 \<le> wall_clock env (outside s) \<Longrightarrow>
         to_microsecond t0 + min_publish_interval \<le> to_microsecond t"
    by auto
  from publish_stamps [OF pub] works obtain new2 where
    s2: "wall_clock env (outside s1) \<le> wall_clock env (outside s2)"
      "last_publish_at s2 = last_publish_at s1"
      "notices s2 = notices s1 @ new2" "stamps new2 = [] \<or> stamps new2 = [to_microsecond t]"
    by auto
  have gap: "x + min_publish_interval \<le> to_microsecond t" if "x \<in> set (prev @ stamps new0)" for x
    using new0(3) [OF that] s1(5) by fastforce
  have "new = new0 @ new1 @ new2" using new new0(1) s1(3) s2(3) by simp
  then have stamps: "stamps new = stamps new0 @ stamps new2" using s1(4) by simp
  have "spaced (prev @ stamps new0 @ stamps new2)"
    using s2(4) new0(2) spaced_snoc [OF new0(2) gap] by auto
  moreover have "x \<le> to_microsecond t" if "x \<in> set (prev @ stamps new0 @ stamps new2)" for x
    using that s2(4) gap [of x] by (auto simp: min_publish_interval_def)
  moreover have "t \<le> wall_clock env (outside s2)" using s1(2) s2(1) by simp
  ultimately show ?thesis using stamps s1(1) s2(2) by auto
qed

lemma deliver_paced:
  assumes "paced env prev old s" and "publish_attempts s < max_publish_attempts_per_run"
    and "deliver env name d s = (r, s')"
  shows "paced env prev old s'"
proof -
  obtain new where new: "notices s = old @ new" "length (stamps new) \<le> publish_attempts s"
    using assms(1) unfolding paced_def by blast
  obtain q s1 where slot: "take_publish_slot env s = (q, s1)" by fastforce
  note count = take_slot_count [OF slot]
  show ?thesis
  proof (cases q)
    case (Inl e)
    then have "s' = s1" using assms(3) slot by (simp add: deliver_def cbind_apply)
    moreover have False if "time_flows env" "lock_works env"
      using take_slot_run [OF that slot] Inl by simp
    ultimately show ?thesis using count Inl new assms(2) unfolding paced_def by auto
  next
    case (Inr t)
    obtain p s2 where p: "publish env d (to_microsecond t) s1 = (p, s2)" by fastforce
    obtain new2 where pub: "publish_attempts s2 = publish_attempts s1"
        "notices s2 = notices s1 @ new2" "stamps new2 = [] \<or> stamps new2 = [to_microsecond t]"
      using publish_stamps [OF p] by auto
    have all: "notices s2 = old @ (new @ new2)" using pub(2) count new(1) by simp
    have "length (stamps (new @ new2)) \<le> publish_attempts s2"
      using pub(1,3) count Inr new(2) by auto
    moreover have "publish_attempts s2 \<le> max_publish_attempts_per_run"
      using pub(1) count Inr assms(2) by simp
    ultimately have paced2: "paced env prev old s2"
      unfolding paced_def using all deliver_spaced [OF _ _ assms(1) slot [unfolded Inr] p all] by blast
    show ?thesis
    proof (cases p)
      case (Inl e)
      then have "s' = s2" using assms(3) slot Inr p by (simp add: deliver_def cbind_apply)
      then show ?thesis using paced2 by simp
    next
      case sent: (Inr x)
      then have "cbind (remove_delivered env name) (\<lambda>_. cbind (note_that (Delivered name)) (\<lambda>_. count_processed)) s2
          = (r, s')" using assms(3) slot Inr p by (simp add: deliver_def cbind_apply)
      moreover have "keeps (idle env) (cbind (remove_delivered env name)
          (\<lambda>_. cbind (note_that (Delivered name)) (\<lambda>_. count_processed)))"
        by (intro keeps_idle_cbind keeps_idle_delivered keeps_idle_basic) simp
      ultimately show ?thesis using paced_idle [OF paced2] by (auto dest: keepsD)
    qed
  qed
qed

lemma process_one_paced:
  assumes "paced env prev old s" and "process_one env fixed_now topics x name s = (r, s')"
  shows "paced env prev old s'"
proof -
  obtain q s1 where q: "load_message env name s = (q, s1)" by fastforce
  have p1: "paced env prev old s1"
    using paced_idle [OF assms(1) keepsD [OF keeps_idle_load q]] .
  have fail: "paced env prev old s'" if "handle_failure env fixed_now name loaded d e v = (r, s')"
    "paced env prev old v" for loaded d e v
    using paced_idle [OF that(2) keepsD [OF keeps_idle_failure that(1)]] .
  show ?thesis
  proof (cases q)
    case (Inl e)
    then show ?thesis using assms(2) q fail p1 by (simp add: process_one_def)
  next
    case (Inr d)
    obtain p s2 where p: "handle_message env fixed_now topics name d s1 = (p, s2)" by fastforce
    obtain qn s0 where qn: "current_second env fixed_now s1 = (qn, s0)" by fastforce
    then obtain now where now: "qn = Inr now" by (rule current_second_run)
    have p0: "paced env prev old s0"
      using paced_idle [OF p1 keepsD [OF keeps_idle_second qn]] .
    have "paced env prev old s2"
    proof (cases "number_field d ''next_attempt_at'' 0 \<le> now \<and> \<not> number_field d ''expires_at'' 0 \<le> now
        \<and> registered topics d")
      case True
      then have "(if max_publish_attempts_per_run \<le> publish_attempts s0 then (Inr (), s0)
          else deliver env name d s0) = (p, s2)"
        using p qn now by (auto simp: handle_message_def cbind_apply)
      then show ?thesis using deliver_paced [OF p0] p0
        by (auto split: if_splits)
    next
      case False
      have "keeps (idle env) (expire env name)"
        unfolding expire_def by (intro keeps_idle_cbind keeps_idle_move keeps_idle_basic) simp
      then have "keeps (idle env) (cbind (expire env name) (\<lambda>_. count_processed))"
        by (intro keeps_idle_cbind keeps_idle_basic)
      moreover have "keeps (idle env) (cbind (unlink_message env name) (\<lambda>_.
          cbind (note_that (Discarded name)) (\<lambda>_. count_processed)))"
        by (intro keeps_idle_cbind keeps_idle_unlink keeps_idle_basic) simp
      ultimately have "idle env s0 s2"
        using False p qn now
        by (auto simp: handle_message_def cbind_apply [of "current_second _ _"] split: if_splits
            dest: keepsD)
      then show ?thesis using p0 by (rule paced_idle [rotated])
    qed
    moreover have "(case p of Inl e \<Rightarrow> handle_failure env fixed_now name True d e s2
        | Inr y \<Rightarrow> (Inr y, s2)) = (r, s')"
      using assms(2) q Inr p by (simp add: process_one_def ctry_apply)
    ultimately show ?thesis using fail by (cases p) auto
  qed
qed

lemma process_all_paced:
  assumes "paced env prev old s"
    and "cfold (process_one env fixed_now topics) acc names s = (r, s')"
  shows "paced env prev old s'"
  using assms
proof (induction names arbitrary: acc s)
  case (Cons n names)
  obtain q s1 where q: "process_one env fixed_now topics acc n s = (q, s1)" by fastforce
  from process_one_paced [OF Cons.prems(1) q] have "paced env prev old s1" .
  then show ?case using Cons.IH Cons.prems(2) q by (cases q) (auto simp: cbind_apply)
qed simp

text \<open>
  C7: the worker keeps the pace. Whatever the queue holds and whatever fails, one run publishes at
  most ten messages. If moreover the clock does not go back and advances by the time slept, and
  the lock file can be read and written, then any two of these publications are at least 6.1
  seconds apart, by the times written to the lock file (which round to the microsecond); and so
  are they from the attempt that the lock file records from the run before, when it records one
  and its time has passed.
\<close>

theorem publications_are_paced:
  assumes "process_queue env fixed_now s = (r, s')" and "distinct (map fst (spool s))"
  shows "\<exists>new. notices s' = notices s @ new \<and> length (stamps new) \<le> 10
    \<and> (time_flows env \<and> lock_works env \<longrightarrow>
        (case last_publish_at s of
           None \<Rightarrow> spaced (stamps new)
         | Some t \<Rightarrow> \<forall>t0. t = to_microsecond t0 \<and> t0 \<le> wall_clock env (outside s)
             \<longrightarrow> spaced (t # stamps new)))"
  using process_queue_outcome [OF assms]
proof
  assume "same_record s s' \<and> (r = Inr 0 \<or> (\<exists>e. r = Inl e))"
  then show ?thesis
    by (intro exI [of _ "[]"]) (simp add: same_record_def spaced_def split: option.split)
next
  assume "\<exists>topics names s1. whole_run env fixed_now topics names s s1 s' \<and> r = Inr (processed s')"
  then obtain topics names s1 where whole: "whole_run env fixed_now topics names s s1 s'" by blast
  have run: "cfold (process_one env fixed_now topics) () names s1 = (Inr (), s')"
    and start: "notices s1 = notices s" "publish_attempts s1 = 0" "last_publish_at s1 = last_publish_at s"
    and later: "time_flows env \<Longrightarrow> wall_clock env (outside s) \<le> wall_clock env (outside s1)"
    using whole by (auto simp: whole_run_def)
  obtain new where new: "notices s' = notices s @ new" "length (stamps new) \<le> 10"
    using process_all_paced [of env "[]" "notices s" s1, OF _ run] start
    by (auto simp: paced_def spaced_def max_publish_attempts_per_run_def)
  have spaced: "spaced (prev @ stamps new)"
    if "time_flows env" "lock_works env" "\<forall>x \<in> set prev. \<exists>t. last_publish_at s = Some (to_microsecond t)
        \<and> t \<le> wall_clock env (outside s) \<and> x \<le> to_microsecond t" "length prev \<le> 1" for prev
  proof -
    have "spaced prev" using that(4) by (cases prev) (auto simp: spaced_def)
    then have "paced env prev (notices s) s1"
      using start that(1,3) later by (fastforce simp: paced_def)
    from process_all_paced [OF this run] show ?thesis
      using new(1) that(1,2) by (auto simp: paced_def)
  qed
  have "spaced (stamps new)" if "time_flows env" "lock_works env"
    using spaced [of "[]"] that by simp
  moreover have "spaced (to_microsecond t0 # stamps new)"
    if "time_flows env" "lock_works env" "last_publish_at s = Some (to_microsecond t0)"
      "t0 \<le> wall_clock env (outside s)" for t0
    using spaced [of "[to_microsecond t0]"] that by auto
  ultimately show ?thesis using new
    by (intro exI [of _ new]) (auto split: option.split)
qed

text \<open>
  The back-off. A message that failed and has not expired is rewritten with one attempt
  more and its next attempt after 60, 120, 240, 480, 960, 1920 seconds, then after an hour each
  time: never sooner than a minute, never later than an hour.
\<close>

lemma retry_delay_bounds:
  assumes "1 \<le> attempts"
  shows "60 \<le> retry_delay attempts \<and> retry_delay attempts \<le> 3600
    \<and> retry_delay attempts \<le> retry_delay (attempts + 1)
    \<and> retry_delay attempts = (if attempts \<le> 6 then 60 * 2 ^ nat (attempts - 1) else 3600)"
proof (cases "attempts \<le> 6")
  case True
  with assms have "attempts = 1 \<or> attempts = 2 \<or> attempts = 3 \<or> attempts = 4 \<or> attempts = 5 \<or> attempts = 6"
    by arith
  then show ?thesis by (elim disjE) (simp_all add: retry_delay_def)
next
  case False
  then have "min (attempts - 1) 6 = 6" "min (attempts + 1 - 1) 6 = 6" by auto
  then have "retry_delay attempts = 3600" "retry_delay (attempts + 1) = 3600"
    unfolding retry_delay_def by simp_all
  then show ?thesis using False by simp
qed

lemma retry_delay_bounds_witness: "60 \<le> retry_delay 9 \<and> retry_delay 9 \<le> 3600"
  using retry_delay_bounds [of 9] by simp

section \<open>A run\<close>

definition sample_message :: "nat jdict" where
  "sample_message =
     [(u ''version'', JInt 1), (u ''id'', JStr (u ''m1'')), (u ''created_at'', JInt 100),
      (u ''expires_at'', JInt 7300), (u ''next_attempt_at'', JInt 100), (u ''attempts'', JInt 0),
      (u ''region'', JStr (u ''eu-1'')), (u ''topic_id'', JStr (u ''ocid1.onstopic.a'')),
      (u ''username'', JStr (u ''amy'')), (u ''job_id'', JStr (u ''7'')),
      (u ''mail_type'', JStr (u ''END'')), (u ''title'', JStr (u ''done'')), (u ''body'', JStr (u ''ok''))]"

definition sample_users :: "nat doc" where
  "sample_users = Doc (JObj
     [(u ''config'', JObj [(u ''enabled'', JBool True)]),
      (u ''users'', JObj [(u ''amy'', JObj [(u ''topic_id'', JStr (u ''ocid1.onstopic.a''))])])])"

definition sample_worker_env :: "nat worker_env" where
  "sample_worker_env =
     \<lparr>os_ok = \<lambda>_ _ w. (True, w), try_lock = \<lambda>w. (True, w), registry_doc = \<lambda>w. (sample_users, w),
      oci_found = \<lambda>w. (True, w), run_publish = \<lambda>_ _ _ _ w. (Exited 0 [] [], w),
      wall_clock = of_nat, sleep_for = \<lambda>t w. w + nat (ceiling t), file_time = id\<rparr>"

text \<open>Two deliverable messages, of which one is due later, and a file that is no message.\<close>

definition sample_worker :: "nat worker" where
  "sample_worker =
     \<lparr>outside = 200,
      spool = [(''b.json'', Doc (JObj sample_message), 2), (''a.json'', Doc JNull, 1),
               (''c.json'', Doc (JObj (dset (u ''next_attempt_at'') (JInt 300) sample_message)), 3)],
      failed_dir = [], last_publish_at = Some (to_microsecond 199), processed = 0,
      publish_attempts = 0, notices = []\<rparr>"

definition sample_worker_run :: "(worker_error + nat) \<times> nat worker" where
  "sample_worker_run = process_queue sample_worker_env None sample_worker"

text \<open>The broken file is quarantined, the due message published after a wait of 5.1 seconds.\<close>

lemma sample_worker_outcome:
  "fst sample_worker_run = Inr 2"
  "notices (snd sample_worker_run) =
     [Quarantined ''a.json'',
      Published (u ''eu-1'') (u ''ocid1.onstopic.a'') (u ''done'') (u ''ok'') 206 (Exited 0 [] []),
      Delivered ''b.json'']"
  "map fst (spool (snd sample_worker_run)) = [''c.json'']"
  by code_simp+

lemma sample_worker_runs:
  "process_queue sample_worker_env None sample_worker = (fst sample_worker_run, snd sample_worker_run)"
  by (simp add: sample_worker_run_def)

lemma no_message_is_lost_witness:
  "calm sample_worker (snd sample_worker_run) \<or>
     fst sample_worker_run = Inr (processed (snd sample_worker_run)) \<and>
     (\<exists>topics registry w w'. registry_doc sample_worker_env w = (registry, w') \<and>
        load_active_topics registry = Some topics \<and>
        fate topics (snd sample_worker_run) ''b.json'' (Doc (JObj sample_message)))"
proof (rule no_message_is_lost [OF sample_worker_runs])
  show "distinct (map fst (spool sample_worker))" "ends_with ''b.json'' ''.json''" by code_simp+
  show "map_of (spool sample_worker) ''b.json'' = Some (Doc (JObj sample_message), 2)"
    by (simp add: sample_worker_def)
qed

lemma publications_are_paced_witness:
  "\<exists>new. notices (snd sample_worker_run) = notices sample_worker @ new \<and> length (stamps new) \<le> 10
    \<and> spaced (to_microsecond 199 # stamps new)"
proof -
  have "of_nat w + t \<le> (of_nat (w + nat (ceiling t)) :: rat)" if "0 \<le> t" for w and t :: rat
    using that le_of_int_ceiling [of t] by (simp add: of_nat_nat)
  then have "time_flows sample_worker_env" by (auto simp: time_flows_def sample_worker_env_def)
  moreover have "lock_works sample_worker_env" by (simp add: lock_works_def sample_worker_env_def)
  moreover have "last_publish_at sample_worker = Some (to_microsecond 199)" by (simp add: sample_worker_def)
  moreover have "199 \<le> wall_clock sample_worker_env (outside sample_worker)" by code_simp
  moreover have "distinct (map fst (spool sample_worker))" by code_simp
  note publications_are_paced [OF sample_worker_runs this]
  ultimately show ?thesis by (elim exE conjE) (auto intro!: exI)
qed

end
