(* ===== verification/Mailprog.thy ===== *)
theory Mailprog
  imports Utf8 Worker
begin

text \<open>
  The MailProg adapter (\<open>slurm_oci_mailprog.py\<close>): the title and the table of a notification,
  cut to the sizes OCI accepts by binary search, and the message it puts into the spool
  directory for the worker. The Unicode database and \<open>str()\<close> of JSON values that are no text
  are a parameter (\<open>tables\<close>); the spool directory, the clock and the outcome of writing the
  file are inputs.
\<close>

section \<open>Text\<close>

text \<open>
  The Unicode database for the code points above ASCII. \<open>other_category\<close>: the category starts
  with C; \<open>combining_mark\<close>: a combining class other than 0; \<open>wide_char\<close>: East Asian width F or
  W; \<open>upper_char\<close>: the full upper-case mapping. The ASCII part is written out below: control
  characters are of category Cc, nothing combines or is wide.
\<close>

record tables =
  other_category :: "nat \<Rightarrow> bool"
  combining_mark :: "nat \<Rightarrow> bool"
  wide_char :: "nat \<Rightarrow> bool"
  upper_char :: "nat \<Rightarrow> ustr"
  str_of_value :: "nat json \<Rightarrow> ustr"

definition category_c :: "tables \<Rightarrow> nat \<Rightarrow> bool" where
  "category_c T c \<longleftrightarrow> (if c < 128 then c < 32 \<or> c = 127 else other_category T c)"

definition upper_case :: "tables \<Rightarrow> nat \<Rightarrow> ustr" where
  "upper_case T c = (if c < 128 then [if 97 \<le> c \<and> c \<le> 122 then c - 32 else c] else upper_char T c)"

datatype mail_error = Attribute_error | Encode_error | Queue_error

text \<open>\<open>str.isspace\<close>.\<close>

definition unicode_space :: "nat \<Rightarrow> bool" where
  "unicode_space c \<longleftrightarrow> 9 \<le> c \<and> c \<le> 13 \<or> 28 \<le> c \<and> c \<le> 32 \<or> c = 133 \<or> c = 160 \<or> c = 5760
     \<or> 8192 \<le> c \<and> c \<le> 8202 \<or> c = 8232 \<or> c = 8233 \<or> c = 8239 \<or> c = 8287 \<or> c = 12288"

definition line_feed :: nat where
  "line_feed = 10"

definition truncation_suffix :: ustr where
  "truncation_suffix = [line_feed, line_feed] @ u ''[message truncated by slurm-oci-mailprog]''"

definition or_text :: "ustr \<Rightarrow> string \<Rightarrow> ustr" where
  "or_text s dflt = (if s = [] then u dflt else s)"

fun extract_subject :: "ustr list \<Rightarrow> ustr" where
  "extract_subject [] = []"
| "extract_subject (argument # rest) =
     (if argument \<in> {u ''-s'', u ''--subject''} \<and> rest \<noteq> [] then hd rest
      else if starts_with argument (u ''--subject='')
      then (case partition_at 61 argument of (_, _, v) \<Rightarrow> v)
      else extract_subject rest)"

definition requested_title :: "ustr \<Rightarrow> ustr \<Rightarrow> ustr \<Rightarrow> ustr" where
  "requested_title title event job_id =
     (let cleaned = join [32] (words_by unicode_space
            (map (\<lambda>c. if c = 13 \<or> c = 10 then 32 else c) title))
      in if cleaned = []
         then u ''[Slurm] job '' @ or_text job_id ''unknown'' @ [32] @ or_text event ''notification''
         else cleaned)"

definition sanitize_title :: "ustr \<Rightarrow> ustr \<Rightarrow> ustr \<Rightarrow> mail_error + ustr" where
  "sanitize_title title event job_id =
     (let chosen = requested_title title event job_id
      in if \<not> encodable chosen then Inl Encode_error
         else let encoded = utf8_encode chosen
              in Inr (if max_title_bytes < length encoded
                      then utf8_decode_ignore (take max_title_bytes encoded) else chosen))"

definition event_aliases :: "(ustr \<times> ustr) list" where
  "event_aliases = map (\<lambda>(k, v). (u k, u v))
     [(''BEGAN'', ''BEGIN''), (''ENDED'', ''END''), (''FAILED'', ''FAIL''), (''REQUEUED'', ''REQUEUE''),
      (''REACHED TIME LIMIT'', ''TIME_LIMIT''), (''REACHED 90% OF TIME LIMIT'', ''TIME_LIMIT_90''),
      (''REACHED 80% OF TIME LIMIT'', ''TIME_LIMIT_80''), (''REACHED 50% OF TIME LIMIT'', ''TIME_LIMIT_50''),
      (''INVALID DEPENDENCY'', ''INVALID_DEPEND''), (''STAGEOUT/TEARDOWN'', ''STAGE_OUT'')]"

text \<open>\<open>^[A-Z0-9_*,-]+$\<close>; \<open>$\<close> also matches before a final line end.\<close>

definition event_char :: "nat \<Rightarrow> bool" where
  "event_char c \<longleftrightarrow> 65 \<le> c \<and> c \<le> 90 \<or> 48 \<le> c \<and> c \<le> 57 \<or> c \<in> {95, 42, 44, 45}"

definition safe_event :: "ustr \<Rightarrow> bool" where
  "safe_event s \<longleftrightarrow>
     (let t = (if s \<noteq> [] \<and> last s = 10 then butlast s else s)
      in t \<noteq> [] \<and> list_all event_char t)"

definition normalize_event :: "tables \<Rightarrow> ustr \<Rightarrow> ustr" where
  "normalize_event T v =
     (let upper = concat (map (upper_case T) (strip_by unicode_space v));
          normalized = (case map_of event_aliases upper of None \<Rightarrow> upper | Some alias \<Rightarrow> alias)
      in if normalized \<noteq> [] \<and> safe_event normalized then normalized else u ''UNKNOWN'')"

section \<open>The table\<close>

definition table_label_width :: nat where "table_label_width = 18"
definition table_value_width :: nat where "table_value_width = 52"

definition char_width :: "tables \<Rightarrow> nat \<Rightarrow> nat" where
  "char_width T c = (if c < 128 then 1 else if combining_mark T c then 0 else if wide_char T c then 2 else 1)"

definition display_width :: "tables \<Rightarrow> ustr \<Rightarrow> nat" where
  "display_width T s = sum_list (map (char_width T) s)"

definition str_value :: "tables \<Rightarrow> nat json \<Rightarrow> ustr" where
  "str_value T v =
     (case v of JStr s \<Rightarrow> s | JInt i \<Rightarrow> u (show_int i)
      | JBool b \<Rightarrow> u (if b then ''True'' else ''False'') | _ \<Rightarrow> str_of_value T v)"

definition table_char :: "tables \<Rightarrow> nat \<Rightarrow> ustr" where
  "table_char T c =
     (if unicode_space c then [32]
      else if c = 124 then [92] @ u ''x7c''
      else if category_c T c then [63]
      else [c])"

definition normalize_table_value :: "tables \<Rightarrow> nat json \<Rightarrow> ustr" where
  "normalize_table_value T v =
     (if v = JNull \<or> v = JStr [] then u ''-''
      else let normalized = join [32] (words_by unicode_space
                 (concat (map (table_char T) (str_value T v))))
           in if normalized = [] then u ''-'' else normalized)"

definition limit_table_value :: "tables \<Rightarrow> int option \<Rightarrow> nat json \<Rightarrow> ustr" where
  "limit_table_value T limit v =
     (let s = normalize_table_value T v
      in case limit of None \<Rightarrow> s | Some n \<Rightarrow> if int (length s) \<le> n then s else take (nat n) s)"

fun chunk_loop :: "tables \<Rightarrow> nat \<Rightarrow> ustr list \<Rightarrow> ustr \<Rightarrow> nat \<Rightarrow> ustr \<Rightarrow> ustr list" where
  "chunk_loop T width chunks current current_width [] =
     (if current = [] then chunks else chunks @ [current])"
| "chunk_loop T width chunks current current_width (c # s) =
     (let w = display_width T [c]
      in if current \<noteq> [] \<and> width < current_width + w
         then chunk_loop T width (chunks @ [current]) [c] w s
         else chunk_loop T width chunks (current @ [c]) (current_width + w) s)"

definition split_display_chunks :: "tables \<Rightarrow> nat \<Rightarrow> ustr \<Rightarrow> ustr list" where
  "split_display_chunks T width s =
     (let chunks = chunk_loop T width [] [] 0 s in if chunks = [] then [[]] else chunks)"

definition pad_table_value :: "tables \<Rightarrow> nat \<Rightarrow> ustr \<Rightarrow> ustr" where
  "pad_table_value T width s = s @ replicate (width - display_width T s) 32"

definition env_value :: "(ustr \<times> ustr) list \<Rightarrow> string \<Rightarrow> nat json" where
  "env_value environ k = (case map_of environ (u k) of None \<Rightarrow> JNull | Some s \<Rightarrow> JStr s)"

definition notification_fields ::
  "nat jdict \<Rightarrow> (ustr \<times> ustr) list \<Rightarrow> ustr \<Rightarrow> ustr \<Rightarrow> ustr \<Rightarrow> (ustr \<times> nat json) list" where
  "notification_fields config environ username event job_id =
     [(u ''Cluster'', jget config (u ''cluster_name'')),
      (u ''Job ID'', JStr job_id),
      (u ''Job name'', env_value environ ''SLURM_JOB_NAME''),
      (u ''User'', JStr username),
      (u ''Event'', JStr event),
      (u ''State'', env_value environ ''SLURM_JOB_STATE''),
      (u ''Partition'', env_value environ ''SLURM_JOB_PARTITION''),
      (u ''Nodes'', env_value environ ''SLURM_JOB_NODELIST''),
      (u ''Queued time'',
         (let queued = env_value environ ''SLURM_JOB_QEUEUED_TIME''
          in if truthy queued then queued else env_value environ ''SLURM_JOB_QUEUED_TIME'')),
      (u ''Run time'', env_value environ ''SLURM_JOB_RUN_TIME''),
      (u ''Exit code'', env_value environ ''SLURM_JOB_EXIT_CODE_MAX''),
      (u ''Termination signal'', env_value environ ''SLURM_JOB_TERM_SIGNAL_MAX''),
      (u ''Working directory'', env_value environ ''SLURM_JOB_WORK_DIR''),
      (u ''Standard output'', env_value environ ''SLURM_JOB_STDOUT''),
      (u ''Standard error'', env_value environ ''SLURM_JOB_STDERR'')]"

definition table_row :: "tables \<Rightarrow> ustr \<Rightarrow> ustr \<Rightarrow> ustr" where
  "table_row T label v =
     u ''| '' @ pad_table_value T table_label_width label @ u '' | ''
     @ pad_table_value T table_value_width v @ u '' |''"

definition table_border :: ustr where
  "table_border = u ''+'' @ replicate (table_label_width + 2) 45 @ u ''+''
     @ replicate (table_value_width + 2) 45 @ u ''+''"

text \<open>The label stands on the first line of a wrapped value only.\<close>

definition field_rows :: "tables \<Rightarrow> ustr \<times> ustr \<Rightarrow> ustr list" where
  "field_rows T field =
     (case field of (label, v) \<Rightarrow>
        map (\<lambda>(index, line). table_row T (if index = 0 then label else []) line)
          (enumerate 0 (split_display_chunks T table_value_width v)))"

definition table_lines :: "tables \<Rightarrow> (ustr \<times> ustr) list \<Rightarrow> ustr list" where
  "table_lines T rows =
     [table_border, table_row T (u ''Item'') (u ''Value''), table_border]
     @ concat (map (field_rows T) rows) @ [table_border]"

definition closing_line :: "ustr \<Rightarrow> ustr" where
  "closing_line cluster =
     u ''This message was generated automatically by Slurm on cluster '' @ [34] @ cluster @ [34, 46]"

definition build_notification_body ::
  "tables \<Rightarrow> (ustr \<times> nat json) list \<Rightarrow> int option \<Rightarrow> ustr" where
  "build_notification_body T raw_fields limit =
     (let rows = map (\<lambda>(label, v). (label, limit_table_value T limit v)) raw_fields
      in join [line_feed]
           ([u ''Slurm Job Notification'', []] @ table_lines T rows
            @ [[], closing_line (snd (rows ! 0))]))"

section \<open>Fitting the publish limit\<close>

definition fits :: "ustr \<Rightarrow> ustr \<Rightarrow> bool" where
  "fits title body \<longleftrightarrow> publish_payload_size title body \<le> max_publish_payload_bytes"

text \<open>
  The binary search both functions use:
  \<open>while low <= high: midpoint = (low + high) // 2; candidate = ...; if it fits:
  best = candidate; low = midpoint + 1; else: high = midpoint - 1\<close>.
\<close>

function search_largest ::
  "(int \<Rightarrow> 'b) \<Rightarrow> ('b \<Rightarrow> bool) \<Rightarrow> int \<Rightarrow> int \<Rightarrow> 'b option \<Rightarrow> 'b option" where
  "search_largest candidate ok low high best =
     (if low \<le> high
      then let midpoint = (low + high) div 2
           in if ok (candidate midpoint)
              then search_largest candidate ok (midpoint + 1) high (Some (candidate midpoint))
              else search_largest candidate ok low (midpoint - 1) best
      else best)"
  by pat_completeness auto
termination
  by (relation "measure (\<lambda>(c, k, low, high, b). nat (high + 1 - low))") auto

declare search_largest.simps [simp del]

definition fit_body_to_publish_limit :: "ustr \<Rightarrow> ustr \<Rightarrow> ustr" where
  "fit_body_to_publish_limit title body =
     (if fits title body then body
      else case search_largest (\<lambda>midpoint. take (nat midpoint) body @ truncation_suffix) (fits title)
                  0 (int (length body)) (Some truncation_suffix) of
          Some best \<Rightarrow> best | None \<Rightarrow> truncation_suffix)"

definition limited_body :: "tables \<Rightarrow> (ustr \<times> nat json) list \<Rightarrow> int \<Rightarrow> ustr" where
  "limited_body T raw_fields n = build_notification_body T raw_fields (Some n) @ truncation_suffix"

definition longest_value :: "tables \<Rightarrow> (ustr \<times> nat json) list \<Rightarrow> int" where
  "longest_value T raw_fields =
     Max (set (map (\<lambda>(_, v). int (length (normalize_table_value T v))) raw_fields))"

definition build_notification_body_for_publish ::
  "tables \<Rightarrow> ustr \<Rightarrow> (ustr \<times> nat json) list \<Rightarrow> ustr" where
  "build_notification_body_for_publish T title raw_fields =
     (let body = build_notification_body T raw_fields None
      in if fits title body then body
         else let high = longest_value T raw_fields
              in case search_largest (limited_body T raw_fields) (fits title) 1 high None of
                   Some best \<Rightarrow> best
                 | None \<Rightarrow> fit_body_to_publish_limit title (limited_body T raw_fields 1))"

section \<open>Queueing\<close>

definition max_queued_messages :: nat where "max_queued_messages = 1200"
definition min_free_spool_bytes :: int where "min_free_spool_bytes = 256 * 1024 * 1024"

datatype spool_write = Stored | Not_stored | Stored_unsynced

text \<open>
  What one call sees: whether the spool directory can be made and listed, its entries (name,
  regular file), the free bytes, the clock, a fresh UUID, and what becomes of the new file.
\<close>

record mail_inputs =
  spool_ready :: bool
  spool_entries :: "(string \<times> bool) list"
  spool_free :: int
  mail_clock :: rat
  mail_uuid :: string
  spool_write :: spool_write

fun capacity_loop :: "nat \<Rightarrow> (string \<times> bool) list \<Rightarrow> bool" where
  "capacity_loop queued [] = True"
| "capacity_loop queued ((name, regular) # entries) =
     (if ends_with name ''.json'' \<and> regular
      then if max_queued_messages \<le> queued + 1 then False else capacity_loop (queued + 1) entries
      else capacity_loop queued entries)"

definition queue_has_capacity :: "mail_inputs \<Rightarrow> bool" where
  "queue_has_capacity inp \<longleftrightarrow>
     capacity_loop 0 (spool_entries inp) \<and> \<not> spool_free inp < min_free_spool_bytes"

definition env_text :: "(ustr \<times> ustr) list \<Rightarrow> string \<Rightarrow> ustr" where
  "env_text environ k = (case map_of environ (u k) of None \<Rightarrow> [] | Some s \<Rightarrow> s)"

definition new_message ::
  "mail_inputs \<Rightarrow> nat jdict \<Rightarrow> nat json \<Rightarrow> ustr \<Rightarrow> ustr \<Rightarrow> ustr \<Rightarrow> ustr \<Rightarrow> ustr \<Rightarrow> nat jdict" where
  "new_message inp config topic_id username job_id event title body =
     (let now = trunc_seconds (mail_clock inp)
      in [(u ''version'', JInt 1), (u ''id'', JStr (u (mail_uuid inp))),
          (u ''created_at'', JInt now), (u ''expires_at'', JInt (now + 7200)),
          (u ''next_attempt_at'', JInt now), (u ''attempts'', JInt 0),
          (u ''region'', jget_or config (u ''region'') (JStr [])), (u ''topic_id'', topic_id),
          (u ''username'', JStr username), (u ''job_id'', JStr job_id), (u ''mail_type'', JStr event),
          (u ''title'', JStr title), (u ''body'', JStr body)])"

definition slurm_job_id :: "(ustr \<times> ustr) list \<Rightarrow> ustr" where
  "slurm_job_id environ =
     (if env_text environ ''SLURM_JOB_ID'' \<noteq> [] then env_text environ ''SLURM_JOB_ID''
      else env_text environ ''SLURM_JOBID'')"

text \<open>
  The result or exception, and the file that is in the spool directory afterwards. (What Slurm
  sends on the standard input is read and dropped.)
\<close>

definition queue_message ::
  "tables \<Rightarrow> nat jdict \<Rightarrow> ustr list \<Rightarrow> (ustr \<times> ustr) list \<Rightarrow> mail_inputs
     \<Rightarrow> (mail_error + bool) \<times> (string \<times> nat jdict) option" where
  "queue_message T registry arguments environ inp =
     (case jget_or registry (u ''config'') (JObj []) of
        JObj config \<Rightarrow>
          (case (truthy (jget config (u ''enabled'')), jget_or registry (u ''users'') (JObj [])) of
             (True, JObj users) \<Rightarrow>
               (let username = env_text environ ''SLURM_JOB_USER'';
                    topic_id = (case jget_or users username (JObj []) of
                                  JObj user \<Rightarrow> jget user (u ''topic_id'') | _ \<Rightarrow> JNull)
                in if \<not> truthy topic_id then (Inr False, None)
                   else if \<not> spool_ready inp then (Inl Queue_error, None)
                   else if \<not> queue_has_capacity inp then (Inr False, None)
                   else
                     let event = normalize_event T (env_text environ ''SLURM_JOB_MAIL_TYPE'');
                         job_id = slurm_job_id environ
                     in case sanitize_title (extract_subject arguments) event job_id of
                          Inl e \<Rightarrow> (Inl e, None)
                        | Inr title \<Rightarrow>
                            (let body = build_notification_body_for_publish T title
                                   (notification_fields config environ username event job_id);
                                 message = new_message inp config topic_id username job_id event title body;
                                 path = mail_uuid inp @ ''.json''
                             in if \<not> json_encodable (JObj message) then (Inl Encode_error, None)
                                else case spool_write inp of
                                    Stored \<Rightarrow> (Inr True, Some (path, message))
                                  | Not_stored \<Rightarrow> (Inl Queue_error, None)
                                  | Stored_unsynced \<Rightarrow> (Inl Queue_error, Some (path, message))))
           | _ \<Rightarrow> (Inr False, None))
      | _ \<Rightarrow> (Inl Attribute_error, None))"

definition mail_main ::
  "tables \<Rightarrow> nat doc \<Rightarrow> ustr list \<Rightarrow> (ustr \<times> ustr) list \<Rightarrow> mail_inputs
     \<Rightarrow> int \<times> (string \<times> nat jdict) option" where
  "mail_main T registry arguments environ inp =
     (case registry of
        Doc (JObj r) \<Rightarrow> (0, snd (queue_message T r arguments environ inp))
      | _ \<Rightarrow> (0, None))"

section \<open>Binary search\<close>

text \<open>
  Candidates that can be made larger until they no longer fit: if one fits, so do the smaller
  ones. Then the search finds the largest one up to its upper end that fits, or gives back the
  value it started with when none does.
\<close>

locale sized_search =
  fixes candidate :: "int \<Rightarrow> 'b" and ok :: "'b \<Rightarrow> bool" and first :: int
  assumes smaller: "first \<le> i \<Longrightarrow> i \<le> j \<Longrightarrow> ok (candidate j) \<Longrightarrow> ok (candidate i)"
begin

lemma search_invariant:
  assumes "first \<le> low" "low \<le> bound + 1" "high \<le> bound"
    and "\<And>i. first \<le> i \<Longrightarrow> i < low \<Longrightarrow> ok (candidate i)"
    and "\<And>i. high < i \<Longrightarrow> i \<le> bound \<Longrightarrow> first \<le> i \<Longrightarrow> \<not> ok (candidate i)"
    and "best = (if low = first then start else Some (candidate (low - 1)))"
  shows "(\<exists>i. first \<le> i \<and> i \<le> bound \<and> ok (candidate i) \<and> (\<forall>j. i < j \<longrightarrow> j \<le> bound \<longrightarrow> \<not> ok (candidate j))
        \<and> search_largest candidate ok low high best = Some (candidate i))
    \<or> (\<forall>i. first \<le> i \<longrightarrow> i \<le> bound \<longrightarrow> \<not> ok (candidate i))
        \<and> search_largest candidate ok low high best = start"
  using assms
proof (induction "nat (high + 1 - low)" arbitrary: low high best rule: less_induct)
  case less
  show ?case
  proof (cases "low \<le> high")
    case False
    then have result: "search_largest candidate ok low high best = best"
      by (subst search_largest.simps) simp
    show ?thesis
    proof (cases "low = first")
      case True
      then show ?thesis using result False less.prems(5,6) by force
    next
      case later: False
      have "first \<le> low - 1" "low - 1 \<le> bound" using later less.prems(1,2) by auto
      moreover have "ok (candidate (low - 1))" using less.prems(4) later less.prems(1) by auto
      moreover have "\<not> ok (candidate j)" if "low - 1 < j" "j \<le> bound" for j
        using less.prems(5) [of j] that False later less.prems(1) by auto
      ultimately show ?thesis using result less.prems(6) later
        by (intro disjI1 exI [of _ "low - 1"]) auto
    qed
  next
    case True
    define mid where "mid = (low + high) div 2"
    have mid: "low \<le> mid" "mid \<le> high" using True by (auto simp: mid_def)
    show ?thesis
    proof (cases "ok (candidate mid)")
      case okay: True
      have step: "search_largest candidate ok low high best
          = search_largest candidate ok (mid + 1) high (Some (candidate mid))"
        using True okay by (subst search_largest.simps) (simp add: mid_def Let_def)
      show ?thesis unfolding step
      proof (rule less.hyps)
        show "nat (high + 1 - (mid + 1)) < nat (high + 1 - low)" using mid True by auto
        show "first \<le> mid + 1" "mid + 1 \<le> bound + 1" "high \<le> bound"
          using mid less.prems by auto
        show "ok (candidate i)" if "first \<le> i" "i < mid + 1" for i
          using smaller [of i mid] okay that by simp
        show "\<not> ok (candidate i)" if "high < i" "i \<le> bound" "first \<le> i" for i
          using less.prems(5) that by blast
        show "Some (candidate mid) = (if mid + 1 = first then start else Some (candidate (mid + 1 - 1)))"
          using mid less.prems(1) by simp
      qed
    next
      case fails: False
      have step: "search_largest candidate ok low high best
          = search_largest candidate ok low (mid - 1) best"
        using True fails by (subst search_largest.simps) (simp add: mid_def Let_def)
      show ?thesis unfolding step
      proof (rule less.hyps)
        show "nat (mid - 1 + 1 - low) < nat (high + 1 - low)" using mid True by auto
        show "mid - 1 \<le> bound" using mid less.prems(3) by simp
        show "\<not> ok (candidate i)" if "mid - 1 < i" "i \<le> bound" "first \<le> i" for i
          using smaller [of mid i] fails that mid less.prems(1) by auto
      qed (use less.prems in auto)
    qed
  qed
qed

lemma search_finds_largest:
  assumes "first \<le> bound + 1"
  shows "(\<exists>i. first \<le> i \<and> i \<le> bound \<and> ok (candidate i) \<and> (\<forall>j. i < j \<longrightarrow> j \<le> bound \<longrightarrow> \<not> ok (candidate j))
        \<and> search_largest candidate ok first bound start = Some (candidate i))
    \<or> (\<forall>i. first \<le> i \<longrightarrow> i \<le> bound \<longrightarrow> \<not> ok (candidate i))
        \<and> search_largest candidate ok first bound start = start"
  using assms by (intro search_invariant) auto

end

section \<open>Cutting a body\<close>

lemma json_size_take_mono:
  assumes "i \<le> j"
  shows "json_size (take i s) \<le> json_size (take j s)"
proof -
  have "take j s = take i s @ take (j - i) (drop i s)"
    using assms by (metis le_add_diff_inverse take_add)
  then show ?thesis by simp
qed

lemma fits_mono: "json_size b \<le> json_size b' \<Longrightarrow> fits title b' \<Longrightarrow> fits title b"
  by (simp add: fits_def publish_payload_size)

interpretation body_cut:
  sized_search "\<lambda>midpoint. take (nat midpoint) body @ truncation_suffix" "fits title" 0
  for title body
  by unfold_locales
    (erule fits_mono [rotated], simp add: json_size_take_mono nat_mono)

section \<open>The size of the table grows with its values\<close>

lemma display_width_simps [simp]:
  "display_width T [] = 0" "display_width T (c # s) = char_width T c + display_width T s"
  "display_width T (s @ t) = display_width T s + display_width T t"
  by (simp_all add: display_width_def)

lemma char_width_ascii [simp]: "c < 128 \<Longrightarrow> char_width T c = 1"
  by (simp add: char_width_def)

lemma char_width_le: "char_width T c \<le> 2"
  by (simp add: char_width_def)

lemma display_width_ascii: "list_all (\<lambda>c. c < 128) s \<Longrightarrow> display_width T s = length s"
  by (induction s) simp_all

text \<open>A character never takes more columns than the JSON text takes bytes.\<close>

lemma char_width_escape: "char_width T c \<le> length (json_escape c)"
proof (cases "c < 128")
  case True
  then show ?thesis using json_escape_length(1) [of c] by simp
next
  case False
  then have "6 \<le> length (json_escape c)" by (auto simp: json_escape_def unicode_escape_def)
  then show ?thesis using char_width_le [of T c] by simp
qed

text \<open>The loop over the characters, one at a time.\<close>

definition chunk_step :: "tables \<Rightarrow> nat \<Rightarrow> ustr list \<times> ustr \<times> nat \<Rightarrow> nat \<Rightarrow> ustr list \<times> ustr \<times> nat" where
  "chunk_step T width st c =
     (case st of (chunks, current, current_width) \<Rightarrow>
        let w = display_width T [c]
        in if current \<noteq> [] \<and> width < current_width + w then (chunks @ [current], [c], w)
           else (chunks, current @ [c], current_width + w))"

definition close_chunks :: "ustr list \<times> ustr \<times> nat \<Rightarrow> ustr list" where
  "close_chunks st = (case st of (chunks, current, _) \<Rightarrow>
     if current = [] then chunks else chunks @ [current])"

lemma chunk_loop_fold:
  "chunk_loop T width chunks current w s
     = close_chunks (foldl (chunk_step T width) (chunks, current, w) s)"
  by (induction s arbitrary: chunks current w) (simp_all add: close_chunks_def chunk_step_def Let_def)

definition chunks_of :: "ustr list \<times> ustr \<times> nat \<Rightarrow> ustr list" where
  "chunks_of st = (if close_chunks st = [] then [[]] else close_chunks st)"

lemma split_display_chunks_fold:
  "split_display_chunks T width s = chunks_of (foldl (chunk_step T width) ([], [], 0) s)"
  by (simp add: split_display_chunks_def chunk_loop_fold chunks_of_def Let_def)

lemma split_display_chunks_not_Nil [simp]: "split_display_chunks T width s \<noteq> []"
  by (simp add: split_display_chunks_def Let_def)

definition line_cost :: "tables \<Rightarrow> ustr \<Rightarrow> nat" where
  "line_cost T l = json_size l + (table_value_width - display_width T l)"

definition chunks_cost :: "tables \<Rightarrow> ustr list \<Rightarrow> nat" where
  "chunks_cost T ls = sum_list (map (\<lambda>l. line_cost T l + 27) ls)"

lemma chunks_cost_simps [simp]:
  "chunks_cost T [] = 0" "chunks_cost T (l # ls) = line_cost T l + 27 + chunks_cost T ls"
  "chunks_cost T (ls @ ms) = chunks_cost T ls + chunks_cost T ms"
  by (simp_all add: chunks_cost_def)

lemma line_cost_snoc: "line_cost T l \<le> line_cost T (l @ [c])"
  using char_width_escape [of T c] by (simp add: line_cost_def)

lemma chunk_step_cost: "chunks_cost T (chunks_of st) \<le> chunks_cost T (chunks_of (chunk_step T width st c))"
proof -
  obtain chunks current w where st: "st = (chunks, current, w)" by (cases st)
  have "line_cost T [] \<le> line_cost T [c]" using line_cost_snoc [of T "[]" c] by simp
  then show ?thesis
    using line_cost_snoc [of T current c]
    by (auto simp: st chunk_step_def chunks_of_def close_chunks_def Let_def)
qed

lemma chunks_cost_append:
  "chunks_cost T (split_display_chunks T width s) \<le> chunks_cost T (split_display_chunks T width (s @ t))"
proof (induction t rule: rev_induct)
  case (snoc c t)
  then show ?case
    using chunk_step_cost [of T "foldl (chunk_step T width) ([], [], 0) (s @ t)" width c]
    by (simp add: split_display_chunks_fold)
qed simp

lemma chunks_cost_take:
  assumes "i \<le> j"
  shows "chunks_cost T (split_display_chunks T width (take i s))
      \<le> chunks_cost T (split_display_chunks T width (take j s))"
proof -
  have "take j s = take i s @ take (j - i) (drop i s)"
    using assms by (metis le_add_diff_inverse take_add)
  then show ?thesis using chunks_cost_append by metis
qed

definition lines_size :: "ustr list \<Rightarrow> nat" where
  "lines_size ls = sum_list (map (\<lambda>l. json_size l + 2) ls)"

lemma lines_size_simps [simp]:
  "lines_size [] = 0" "lines_size (l # ls) = json_size l + 2 + lines_size ls"
  "lines_size (ls @ ms) = lines_size ls + lines_size ms"
  by (simp_all add: lines_size_def)

lemma json_size_join: "ls \<noteq> [] \<Longrightarrow> json_size (join [line_feed] ls) + 2 = lines_size ls"
proof (induction "[line_feed]" ls rule: join.induct)
  case (3 x y ys)
  then show ?case by (simp add: line_feed_def json_escape_def)
qed simp_all

lemma json_size_replicate [simp]: "json_size (replicate n 32) = n"
  by (induction n) (simp_all add: json_escape_def)

lemma json_size_u: "list_all (\<lambda>c. 32 \<le> c \<and> c \<le> 126 \<and> c \<noteq> 34 \<and> c \<noteq> 92) s \<Longrightarrow> json_size s = length s"
  by (induction s) (simp_all add: json_escape_def)

lemma table_row_size:
  "json_size (table_row T label v)
     = json_size (pad_table_value T table_label_width label) + line_cost T v + 7"
  by (simp add: table_row_def pad_table_value_def line_cost_def json_escape_def)

lemma empty_label: "json_size (pad_table_value T table_label_width []) = 18"
  by (simp add: pad_table_value_def table_label_width_def)

lemma other_rows_size:
  "0 < n \<Longrightarrow> lines_size (map (\<lambda>(index, line). table_row T (if index = 0 then label else []) line)
     (enumerate n ls)) = chunks_cost T ls"
  by (induction ls arbitrary: n) (simp_all add: table_row_size empty_label)

lemma field_rows_size:
  "lines_size (field_rows T (label, v)) + 18
     = json_size (pad_table_value T table_label_width label)
       + chunks_cost T (split_display_chunks T table_value_width v)"
proof -
  obtain x xs where x: "split_display_chunks T table_value_width v = x # xs"
    by (cases "split_display_chunks T table_value_width v") auto
  show ?thesis by (simp add: field_rows_def x table_row_size other_rows_size)
qed

lemma field_rows_take:
  "i \<le> j \<Longrightarrow> lines_size (field_rows T (label, take i v)) \<le> lines_size (field_rows T (label, take j v))"
  using field_rows_size [of T label "take i v"] field_rows_size [of T label "take j v"]
    chunks_cost_take [of i j T table_value_width v] by linarith

text \<open>All values cut to \<open>n\<close> characters.\<close>

definition cut_fields :: "tables \<Rightarrow> (ustr \<times> nat json) list \<Rightarrow> nat \<Rightarrow> (ustr \<times> ustr) list" where
  "cut_fields T raw_fields n = map (\<lambda>(label, v). (label, take n (normalize_table_value T v))) raw_fields"

lemma limit_is_take: "0 \<le> n \<Longrightarrow> limit_table_value T (Some n) v = take (nat n) (normalize_table_value T v)"
  by (auto simp: limit_table_value_def Let_def)

lemma limited_fields: "0 \<le> n \<Longrightarrow>
    map (\<lambda>(label, v). (label, limit_table_value T (Some n) v)) raw_fields = cut_fields T raw_fields (nat n)"
  by (simp add: cut_fields_def limit_is_take)

definition body_lines :: "tables \<Rightarrow> (ustr \<times> ustr) list \<Rightarrow> ustr list" where
  "body_lines T rows = [u ''Slurm Job Notification'', []] @ table_lines T rows
     @ [[], closing_line (snd (rows ! 0))]"

lemma limited_body_lines:
  "0 \<le> n \<Longrightarrow> limited_body T raw_fields n
     = join [line_feed] (body_lines T (cut_fields T raw_fields (nat n))) @ truncation_suffix"
  unfolding limited_body_def build_notification_body_def Let_def body_lines_def by (simp only: limited_fields)

lemma cut_rows_size:
  "i \<le> j \<Longrightarrow> lines_size (concat (map (field_rows T) (cut_fields T raw_fields i)))
     \<le> lines_size (concat (map (field_rows T) (cut_fields T raw_fields j)))"
proof (induction raw_fields)
  case (Cons f raw_fields)
  obtain label v where "f = (label, v)" by (cases f)
  then show ?case
    using Cons field_rows_take [OF Cons.prems, of T label "normalize_table_value T v"]
    by (simp add: cut_fields_def)
qed (simp add: cut_fields_def)

lemma body_lines_size:
  assumes "i \<le> j" and "raw_fields \<noteq> []"
  shows "lines_size (body_lines T (cut_fields T raw_fields i))
      \<le> lines_size (body_lines T (cut_fields T raw_fields j))"
proof -
  obtain label v rest where "raw_fields = (label, v) # rest" using assms(2) by (cases raw_fields) auto
  then have "json_size (closing_line (snd (cut_fields T raw_fields i ! 0)))
      \<le> json_size (closing_line (snd (cut_fields T raw_fields j ! 0)))"
    using json_size_take_mono [OF assms(1)] by (simp add: cut_fields_def closing_line_def)
  then show ?thesis
    using cut_rows_size [OF assms(1), of T raw_fields] by (simp add: body_lines_def table_lines_def)
qed

lemma limited_body_mono:
  assumes "0 \<le> i" and "i \<le> j" and "raw_fields \<noteq> []"
  shows "json_size (limited_body T raw_fields i) \<le> json_size (limited_body T raw_fields j)"
proof -
  have le: "lines_size (body_lines T (cut_fields T raw_fields (nat i)))
      \<le> lines_size (body_lines T (cut_fields T raw_fields (nat j)))"
    using assms by (intro body_lines_size) auto
  have join: "json_size (join [line_feed] (body_lines T rows)) + 2 = lines_size (body_lines T rows)"
    for rows by (rule json_size_join) (simp add: body_lines_def)
  have "0 \<le> j" using assms(1,2) by simp
  with le join [of "cut_fields T raw_fields (nat i)"] join [of "cut_fields T raw_fields (nat j)"]
  show ?thesis using assms(1) by (simp only: limited_body_lines json_size_simps)
qed

section \<open>Every body fits\<close>

interpretation table_cut: sized_search "limited_body T (f # fs)" "fits title" 1 for T title f fs
  by unfold_locales (erule fits_mono [rotated], rule limited_body_mono, auto)

definition plain :: "ustr \<Rightarrow> bool" where
  "plain s \<longleftrightarrow> list_all (\<lambda>c. 32 \<le> c \<and> c \<le> 126 \<and> c \<noteq> 34 \<and> c \<noteq> 92) s"

lemma plain_sizes: "plain s \<Longrightarrow> json_size s = length s \<and> display_width T s = length s"
  unfolding plain_def by (auto intro!: json_size_u display_width_ascii elim!: list.pred_mono_strong)

lemma plain_padded: "plain s \<Longrightarrow> length s \<le> w \<Longrightarrow> json_size (pad_table_value T w s) = w"
  by (simp add: pad_table_value_def plain_sizes)

lemma labels_plain:
  "list_all (\<lambda>(label, v). plain label \<and> length label \<le> table_label_width)
     (notification_fields config environ username event job_id)"
  by (simp add: notification_fields_def plain_def table_label_width_def)

lemma normalize_not_Nil: "normalize_table_value T v \<noteq> []"
  by (simp add: normalize_table_value_def Let_def)

lemma one_character_row:
  assumes "plain label" "length label \<le> table_label_width" and "length v = 1"
  shows "lines_size (field_rows T (label, v)) \<le> 91"
proof -
  obtain c where v: "v = [c]" using assms(3) by (cases v) auto
  have "split_display_chunks T table_value_width v = [[c]]"
    by (simp add: v split_display_chunks_def)
  then have "lines_size (field_rows T (label, v)) + 18
      = json_size (pad_table_value T table_label_width label) + (line_cost T [c] + 27)"
    using field_rows_size [of T label v] by simp
  moreover have "json_size (pad_table_value T table_label_width label) = 18"
    using plain_padded [OF assms(1,2)] by (simp add: table_label_width_def)
  moreover have "line_cost T [c] \<le> 64"
    using json_escape_length(2) [of c] by (simp add: line_cost_def table_value_width_def)
  ultimately show ?thesis by linarith
qed

lemma one_character_rows:
  assumes "list_all (\<lambda>(label, v). plain label \<and> length label \<le> table_label_width) raw_fields"
  shows "lines_size (concat (map (field_rows T) (cut_fields T raw_fields 1))) \<le> 91 * length raw_fields"
  using assms
proof (induction raw_fields)
  case (Cons f raw_fields)
  obtain label v where f: "f = (label, v)" by (cases f)
  have "length (take 1 (normalize_table_value T v)) = 1"
    using normalize_not_Nil [of T v] by (cases "normalize_table_value T v") auto
  then have "lines_size (field_rows T (label, take 1 (normalize_table_value T v))) \<le> 91"
    using Cons.prems f by (intro one_character_row) auto
  then show ?case using Cons f by (simp add: cut_fields_def)
qed (simp add: cut_fields_def)

lemma smallest_body_size:
  assumes "list_all (\<lambda>(label, v). plain label \<and> length label \<le> table_label_width) raw_fields"
    and "raw_fields \<noteq> []"
  shows "json_size (limited_body T raw_fields 1) \<le> 600 + 91 * length raw_fields"
proof -
  obtain label v rest where raw: "raw_fields = (label, v) # rest" using assms(2) by (cases raw_fields) auto
  have "length (take 1 (normalize_table_value T v)) \<le> 1" by simp
  then have "json_size (take 1 (normalize_table_value T v)) \<le> 12"
    using json_size_bounds(2) [of "take 1 (normalize_table_value T v)"] by linarith
  then have closing: "json_size (closing_line (snd (cut_fields T raw_fields 1 ! 0))) \<le> 90"
    by (simp add: raw cut_fields_def closing_line_def json_escape_def)
  have border: "json_size table_border = 77"
    by (simp add: table_border_def table_label_width_def table_value_width_def json_escape_def
        eval_nat_numeral)
  have item: "plain (u ''Item'')" "plain (u ''Value'')" by (simp_all add: plain_def)
  have "json_size (table_row T (u ''Item'') (u ''Value'')) = 77"
    using plain_padded [OF item(1), of table_label_width T] plain_sizes [OF item(2), of T]
    by (simp add: table_row_size line_cost_def table_label_width_def table_value_width_def del: u_simps)
  then have "lines_size (body_lines T (cut_fields T raw_fields 1)) \<le> 500 + 91 * length raw_fields"
    using one_character_rows [OF assms(1), of T] closing border
    by (simp add: body_lines_def table_lines_def json_escape_def)
  moreover have "json_size (join [line_feed] (body_lines T (cut_fields T raw_fields 1))) + 2
      = lines_size (body_lines T (cut_fields T raw_fields 1))"
    by (rule json_size_join) (simp add: body_lines_def)
  moreover have "json_size truncation_suffix \<le> 60"
    by (simp add: truncation_suffix_def line_feed_def json_escape_def)
  ultimately show ?thesis by (simp add: limited_body_lines)
qed

lemma title_json_size: "json_size title \<le> 6 * utf8_size title"
proof (induction title)
  case (Cons c title)
  have "length (json_escape c) \<le> 6 * utf8_width c"
    by (auto simp: json_escape_def utf8_width_def unicode_escape_def)
  then show ?case using Cons by (simp add: utf8_size_def)
qed (simp add: utf8_size_def)

lemma longest_value_pos: "raw_fields \<noteq> [] \<Longrightarrow> 1 \<le> longest_value T raw_fields"
proof -
  assume "raw_fields \<noteq> []"
  then obtain label v rest where raw: "raw_fields = (label, v) # rest" by (cases raw_fields) auto
  have "int (length (normalize_table_value T v)) \<le> longest_value T raw_fields"
    unfolding longest_value_def raw by (intro Max_ge) auto
  moreover have "1 \<le> int (length (normalize_table_value T v))"
    using normalize_not_Nil [of T v] by (cases "normalize_table_value T v") auto
  ultimately show ?thesis by simp
qed

lemma body_choice:
  assumes "list_all (\<lambda>(label, v). plain label \<and> length label \<le> table_label_width) raw_fields"
    and "raw_fields \<noteq> []" and "length raw_fields \<le> 100" and "utf8_size title \<le> max_title_bytes"
  shows "fits title (build_notification_body_for_publish T title raw_fields)
    \<and> (build_notification_body_for_publish T title raw_fields = build_notification_body T raw_fields None
       \<or> \<not> fits title (build_notification_body T raw_fields None) \<and>
         (\<exists>n. 1 \<le> n \<and> n \<le> longest_value T raw_fields
            \<and> build_notification_body_for_publish T title raw_fields = limited_body T raw_fields n
            \<and> (\<forall>m. n < m \<longrightarrow> m \<le> longest_value T raw_fields \<longrightarrow> \<not> fits title (limited_body T raw_fields m))))"
proof (cases "fits title (build_notification_body T raw_fields None)")
  case True
  then show ?thesis by (simp add: build_notification_body_for_publish_def)
next
  case False
  obtain f fs where raw: "raw_fields = f # fs" using assms(2) by (cases raw_fields) auto
  have high: "1 \<le> longest_value T raw_fields" by (rule longest_value_pos [OF assms(2)])
  have "fits title (limited_body T raw_fields 1)"
    unfolding fits_def publish_payload_size
    using smallest_body_size [OF assms(1,2), of T] title_json_size [of title] assms(3,4)
    by (simp add: max_title_bytes_def max_publish_payload_bytes_def)
  with high table_cut.search_finds_largest [of "longest_value T raw_fields" title T f fs None]
  obtain n where n: "1 \<le> n" "n \<le> longest_value T raw_fields" "fits title (limited_body T raw_fields n)"
      "\<forall>m. n < m \<longrightarrow> m \<le> longest_value T raw_fields \<longrightarrow> \<not> fits title (limited_body T raw_fields m)"
      "search_largest (limited_body T raw_fields) (fits title) 1 (longest_value T raw_fields) None
         = Some (limited_body T raw_fields n)"
    unfolding raw by force
  have "build_notification_body_for_publish T title raw_fields = limited_body T raw_fields n"
    using False n(5) by (simp add: build_notification_body_for_publish_def Let_def)
  then show ?thesis using n False by auto
qed

text \<open>
  C20: the body always fits, and nothing is cut without need. For every title of at most 512
  bytes and whatever the job's environment holds, the published title and body stay within the
  60 KiB OCI accepts. The body is the complete table when that fits; otherwise every value is
  cut to the largest number of characters with which the table fits. The generic limiter the
  code keeps as a fallback is never needed.
\<close>

theorem body_fits_and_is_largest:
  fixes config environ username event job_id
  defines "raw_fields \<equiv> notification_fields config environ username event job_id"
  assumes "utf8_size title \<le> max_title_bytes"
  shows "fits title (build_notification_body_for_publish T title raw_fields)
    \<and> (build_notification_body_for_publish T title raw_fields = build_notification_body T raw_fields None
       \<or> \<not> fits title (build_notification_body T raw_fields None) \<and>
         (\<exists>n. 1 \<le> n \<and> n \<le> longest_value T raw_fields
            \<and> build_notification_body_for_publish T title raw_fields = limited_body T raw_fields n
            \<and> (\<forall>m. n < m \<longrightarrow> m \<le> longest_value T raw_fields \<longrightarrow> \<not> fits title (limited_body T raw_fields m))))"
  unfolding raw_fields_def
  by (rule body_choice [OF labels_plain _ _ assms(2)]) (simp_all add: notification_fields_def)

definition no_tables :: tables where
  "no_tables = \<lparr>other_category = (\<lambda>_. False), combining_mark = (\<lambda>_. False), wide_char = (\<lambda>_. False),
     upper_char = (\<lambda>c. [c]), str_of_value = (\<lambda>_. [])\<rparr>"

lemma body_fits_and_is_largest_witness:
  "fits [] (build_notification_body_for_publish no_tables []
     (notification_fields [(u ''cluster_name'', JStr (u ''hpc''))] [] (u ''ann'') (u ''END'') (u ''7'')))"
proof -
  have "utf8_size [] \<le> max_title_bytes" by (simp add: utf8_size_def)
  from body_fits_and_is_largest [OF this]
  show ?thesis by blast
qed

section \<open>The title\<close>

lemma code_point_width:
  assumes "continuation_count b = Some n" and "length cs = n" and "list_all continuation cs"
  shows "utf8_width (code_point n b cs) \<le> Suc n"
proof -
  have n: "n \<in> {0, 1, 2, 3}" using assms(1) by (auto simp: continuation_count_def split: if_splits)
  consider "n = 0" | "n = 1" | "n = 2" | "n = 3" using n by auto
  then show ?thesis
  proof cases
    case 2
    then obtain x where "cs = [x]" using assms(2) by (auto simp: length_Suc_conv)
    then show ?thesis using 2 assms
      by (auto simp: code_point_def lead_value_def utf8_width_def continuation_def
          continuation_count_def split: if_splits)
  next
    case 3
    then obtain x y where "cs = [x, y]" using assms(2) by (auto simp: length_Suc_conv eval_nat_numeral)
    then show ?thesis using 3 assms
      by (auto simp: code_point_def lead_value_def utf8_width_def continuation_def
          continuation_count_def split: if_splits)
  qed (use assms in \<open>auto simp: code_point_def lead_value_def utf8_width_def
          continuation_count_def split: if_splits\<close>)
qed

lemma first_continuation_continuation: "first_continuation b x \<Longrightarrow> continuation x"
  by (simp add: first_continuation_def)

lemma continuations_continuation: "list_all continuation (continuations b n bs)"
  by (auto simp: continuations_def list_all_iff first_continuation_continuation split: list.split
      dest: set_takeWhileD)

text \<open>Decoding never gives a text that takes more bytes than it was given.\<close>

lemma decode_size: "utf8_size (utf8_decode_ignore bs) \<le> length bs"
proof (induction bs rule: utf8_decode_ignore.induct)
  case (2 b bs)
  show ?case
  proof (cases "continuation_count b")
    case None
    then show ?thesis using 2(1) by simp
  next
    case (Some n)
    define cs where "cs = continuations b n bs"
    have len: "length cs \<le> length bs" unfolding cs_def by (rule continuations_length)
    show ?thesis
    proof (cases "length cs = n")
      case True
      have "utf8_width (code_point n b cs) \<le> Suc n"
        using code_point_width [OF Some True] continuations_continuation unfolding cs_def by blast
      moreover have "utf8_size (utf8_decode_ignore (drop n bs)) \<le> length (drop n bs)"
        by (rule 2(2) [OF Some cs_def True])
      ultimately show ?thesis
        using Some True len by (simp add: cs_def [symmetric] utf8_size_def)
    next
      case False
      have "utf8_size (utf8_decode_ignore (drop (length cs) bs)) \<le> length (drop (length cs) bs)"
        by (rule 2(3) [OF Some cs_def False])
      then show ?thesis using Some False by (simp add: cs_def [symmetric] Let_def)
    qed
  qed
qed (simp add: utf8_size_def)

lemma title_size: "sanitize_title title event job_id = Inr t \<Longrightarrow> utf8_size t \<le> max_title_bytes"
  using decode_size [of "take max_title_bytes (utf8_encode (requested_title title event job_id))"]
  by (auto simp: sanitize_title_def Let_def length_utf8_encode split: if_splits)

text \<open>
  The title is the subject Slurm gives with its white space collapsed (or the job and the
  event when there is none), cut to the longest whole-character prefix that takes at most 512
  bytes; the only texts refused are those UTF-8 cannot express. Cutting the encoded bytes and
  dropping the broken end, as the code does, is this reference definition.
\<close>

lemma title_is_longest_prefix:
  assumes "list_all valid_code_point (requested_title title event job_id)"
  shows "sanitize_title title event job_id
    = (if encodable (requested_title title event job_id)
       then Inr (fitting_prefix max_title_bytes (requested_title title event job_id))
       else Inl Encode_error)"
proof (cases "encodable (requested_title title event job_id)")
  case True
  then have "text_ok (requested_title title event job_id)"
    using assms by (auto simp: text_ok_def encodable_def valid_code_point_def list_all_iff)
  then show ?thesis
    using True decode_take [of "requested_title title event job_id" max_title_bytes]
      fitting_prefix_all [of "requested_title title event job_id" max_title_bytes]
    by (simp add: sanitize_title_def Let_def length_utf8_encode)
qed (simp add: sanitize_title_def)

lemma title_is_longest_prefix_witness:
  "sanitize_title (replicate 129 128512) [] [] = Inr (replicate 128 128512)"
proof -
  have "list_all valid_code_point (requested_title (replicate 129 128512) [] [])" by code_simp
  from title_is_longest_prefix [OF this]
  have "sanitize_title (replicate 129 128512) [] []
    = (if encodable (requested_title (replicate 129 128512) [] [])
       then Inr (fitting_prefix max_title_bytes (requested_title (replicate 129 128512) [] []))
       else Inl Encode_error)" .
  also have "\<dots> = Inr (replicate 128 128512)" by code_simp
  finally show ?thesis .
qed

section \<open>The table is rectangular\<close>

lemma chunk_step_invariant:
  assumes "chunk_step T width (chunks, current, w) c = (chunks', current', w')"
    and "2 \<le> width" and "list_all (\<lambda>l. display_width T l \<le> width) chunks"
    and "display_width T current = w" and "w \<le> width"
  shows "list_all (\<lambda>l. display_width T l \<le> width) chunks' \<and> display_width T current' = w' \<and> w' \<le> width
    \<and> concat chunks' @ current' = concat chunks @ current @ [c]"
  using assms char_width_le [of T c]
  by (auto simp: chunk_step_def Let_def split: if_splits)

lemma chunk_loop_invariant:
  assumes "2 \<le> width" and "list_all (\<lambda>l. display_width T l \<le> width) chunks"
    and "display_width T current = w" and "w \<le> width"
  shows "list_all (\<lambda>l. display_width T l \<le> width) (chunk_loop T width chunks current w s)
    \<and> concat (chunk_loop T width chunks current w s) = concat chunks @ current @ s"
  using assms
proof (induction s arbitrary: chunks current w)
  case (Cons c s)
  obtain chunks' current' w' where step: "chunk_step T width (chunks, current, w) c = (chunks', current', w')"
    by (metis prod_cases3)
  have "chunk_loop T width chunks current w (c # s) = chunk_loop T width chunks' current' w' s"
    using step by (simp add: chunk_loop_fold)
  then show ?case
    using Cons.IH [of chunks' current' w'] chunk_step_invariant [OF step Cons.prems] Cons.prems(1) by simp
qed auto

lemma split_display_chunks_facts:
  assumes "2 \<le> width"
  shows "list_all (\<lambda>l. display_width T l \<le> width) (split_display_chunks T width s)"
    and "concat (split_display_chunks T width s) = s"
  using chunk_loop_invariant [OF assms, of T "[]" "[]" 0 s]
  by (auto simp: split_display_chunks_def Let_def)

text \<open>Characters a table cell may hold: no bar and no white space but the blank.\<close>

definition cell_char :: "nat \<Rightarrow> bool" where
  "cell_char c \<longleftrightarrow> c \<noteq> 124 \<and> (unicode_space c \<longrightarrow> c = 32)"

lemma table_char_cell: "x \<in> set (table_char T c) \<Longrightarrow> cell_char x"
  by (auto simp: table_char_def cell_char_def unicode_space_def split: if_splits)

lemma normalized_cells: "list_all cell_char (normalize_table_value T v)"
proof -
  have "cell_char x" if x: "x \<in> set (join [32] (words_by unicode_space (concat (map (table_char T) s))))" for x s
  proof -
    consider "x = 32" | w where "w \<in> set (words_by unicode_space (concat (map (table_char T) s)))" "x \<in> set w"
      using join_words_elements [OF x] by auto
    then show ?thesis
    proof cases
      case 2
      then have "x \<in> set (concat (map (table_char T) s))"
        using split_by_pieces_subset by (fastforce simp: words_by_def)
      then show ?thesis using table_char_cell by auto
    qed (simp add: cell_char_def)
  qed
  moreover have "cell_char 45" by (simp add: cell_char_def unicode_space_def)
  ultimately show ?thesis
    by (auto simp: normalize_table_value_def Let_def list_all_iff)
qed

definition bars :: "ustr \<Rightarrow> nat" where
  "bars s = length (filter (\<lambda>c. c = 124) s)"

text \<open>A line of 77 columns, without a line end, that is the border or has its three bars.\<close>

definition table_line_ok :: "tables \<Rightarrow> ustr \<Rightarrow> bool" where
  "table_line_ok T l \<longleftrightarrow> display_width T l = 77 \<and> line_feed \<notin> set l \<and> (l = table_border \<or> bars l = 3)"

lemma display_width_replicate [simp]: "display_width T (replicate n 32) = n"
  by (induction n) simp_all

lemma cells_no_bar: "list_all cell_char s \<Longrightarrow> bars s = 0 \<and> line_feed \<notin> set s"
  unfolding bars_def line_feed_def
proof (intro conjI)
  assume cells: "list_all cell_char s"
  then show "length (filter (\<lambda>c. c = 124) s) = 0"
    by (auto simp: list_all_iff cell_char_def filter_empty_conv)
  have "\<not> cell_char 10" by (simp add: cell_char_def unicode_space_def)
  then show "10 \<notin> set s" using cells by (auto simp: list_all_iff)
qed

lemma bars_simps [simp]:
  "bars [] = 0" "bars (c # s) = (if c = 124 then 1 else 0) + bars s" "bars (s @ t) = bars s + bars t"
  "bars (replicate n 32) = 0"
  by (simp_all add: bars_def)

lemma table_row_ok:
  assumes "list_all cell_char label" "list_all cell_char v"
    and "display_width T label \<le> table_label_width" "display_width T v \<le> table_value_width"
  shows "table_line_ok T (table_row T label v)"
  using assms cells_no_bar [of label] cells_no_bar [of v]
  by (simp add: table_line_ok_def table_row_def pad_table_value_def table_label_width_def
      table_value_width_def line_feed_def)

lemma table_border_ok: "table_line_ok T table_border"
  by (simp add: table_line_ok_def table_border_def table_label_width_def table_value_width_def
      line_feed_def eval_nat_numeral)

lemma field_rows_ok:
  assumes "list_all cell_char label" "list_all cell_char v" "display_width T label \<le> table_label_width"
  shows "list_all (table_line_ok T) (field_rows T (label, v))"
proof -
  let ?chunks = "split_display_chunks T table_value_width v"
  have width: "list_all (\<lambda>l. display_width T l \<le> table_value_width) ?chunks"
    by (rule split_display_chunks_facts) (simp add: table_value_width_def)
  have "concat ?chunks = v" by (rule split_display_chunks_facts) (simp add: table_value_width_def)
  then have "list_all cell_char l" if "l \<in> set ?chunks" for l
  proof -
    have "set l \<subseteq> set (concat ?chunks)" using that by auto
    then show ?thesis using \<open>concat ?chunks = v\<close> assms(2) by (auto simp: list_all_iff)
  qed
  then have "table_line_ok T (table_row T (if i = 0 then label else []) l)" if "l \<in> set ?chunks" for i :: nat and l
    using assms width that by (auto intro!: table_row_ok simp: list_all_iff)
  then have "\<forall>(i, l) \<in> set (enumerate 0 ?chunks). table_line_ok T (table_row T (if i = 0 then label else []) l)"
    by (auto simp: enumerate_eq_zip simp del: if_split dest!: set_zip_rightD)
  then show ?thesis unfolding field_rows_def prod.case by (simp add: list_all_iff split_beta split del: if_split)
qed

lemma plain_label_cells:
  "plain label \<and> length label \<le> table_label_width \<and> 124 \<notin> set label
    \<Longrightarrow> list_all cell_char label \<and> display_width T label \<le> table_label_width"
proof -
  assume label: "plain label \<and> length label \<le> table_label_width \<and> 124 \<notin> set label"
  have "32 \<le> c \<and> c \<le> 126 \<Longrightarrow> c \<noteq> 124 \<Longrightarrow> cell_char c" for c
    by (auto simp: cell_char_def unicode_space_def)
  then have "list_all cell_char label"
    using label unfolding plain_def list_all_iff by metis
  then show ?thesis using label plain_sizes [of label T] by simp
qed

lemma labels_no_bar:
  "list_all (\<lambda>(label, v). 124 \<notin> set label) (notification_fields config environ username event job_id)"
  by (simp add: notification_fields_def)

lemma limited_cells: "list_all cell_char (limit_table_value T limit v)"
  using normalized_cells [of T v]
  by (auto simp: limit_table_value_def Let_def list_all_iff split: option.split dest: in_set_takeD)

definition table_rows ::
  "tables \<Rightarrow> (ustr \<times> nat json) list \<Rightarrow> int option \<Rightarrow> (ustr \<times> ustr) list" where
  "table_rows T raw_fields limit = map (\<lambda>(label, v). (label, limit_table_value T limit v)) raw_fields"

lemma table_lines_ok:
  assumes "list_all (\<lambda>(label, v). plain label \<and> length label \<le> table_label_width) raw_fields"
    and "list_all (\<lambda>(label, v). 124 \<notin> set label) raw_fields"
  shows "list_all (table_line_ok T) (table_lines T (table_rows T raw_fields limit))"
proof -
  have "list_all (table_line_ok T) (concat (map (field_rows T) (table_rows T raw_fields limit)))"
    using assms
  proof (induction raw_fields)
    case (Cons f raw_fields)
    obtain label v where f: "f = (label, v)" by (cases f)
    have "list_all cell_char label \<and> display_width T label \<le> table_label_width"
      using Cons.prems f by (intro plain_label_cells) auto
    then have "list_all (table_line_ok T) (field_rows T (label, limit_table_value T limit v))"
      using field_rows_ok limited_cells by blast
    then show ?case using Cons f by (simp add: table_rows_def)
  qed (simp add: table_rows_def)
  moreover have "table_line_ok T (table_row T (u ''Item'') (u ''Value''))"
    by (rule table_row_ok) (simp_all add: cell_char_def unicode_space_def table_label_width_def table_value_width_def)
  ultimately show ?thesis by (simp add: table_lines_def table_border_ok)
qed

text \<open>
  C27: whatever the environment variables of a job hold, the message is one table of 77 columns.
  The body is a heading, the table's lines and the closing line, joined by line ends; no line of
  the table holds a line end of its own, every line is 77 columns wide, and every line but the
  borders has exactly its three bars, so no value can forge a row or a column.
\<close>

theorem table_is_rectangular:
  "(let fields = notification_fields config environ username event job_id;
        rows = table_rows T fields limit
    in build_notification_body T fields limit
        = join [line_feed] ([u ''Slurm Job Notification'', []] @ table_lines T rows
            @ [[], closing_line (snd (rows ! 0))])
      \<and> list_all (table_line_ok T) (table_lines T rows)
      \<and> line_feed \<notin> set (closing_line (snd (rows ! 0))))"
proof -
  let ?fields = "notification_fields config environ username event job_id"
  have "line_feed \<notin> set (snd (table_rows T ?fields limit ! 0))"
    using cells_no_bar [OF limited_cells] by (simp add: table_rows_def notification_fields_def)
  then have "line_feed \<notin> set (closing_line (snd (table_rows T ?fields limit ! 0)))"
    by (simp add: closing_line_def line_feed_def)
  moreover have "list_all (table_line_ok T) (table_lines T (table_rows T ?fields limit))"
    by (intro table_lines_ok labels_plain labels_no_bar)
  ultimately show ?thesis
    by (simp add: build_notification_body_def Let_def table_rows_def [symmetric])
qed

section \<open>The worker accepts what the adapter queues\<close>

lemma load_topics_of_users:
  assumes "map_of users name = Some (JObj d)" and "truthy (jget d k)"
  shows "map_of (concat (map (\<lambda>(username, details).
            case details of JObj d \<Rightarrow> if truthy (jget d k) then [(username, jget d k)] else []
            | _ \<Rightarrow> []) users)) name = Some (jget d k)"
  using assms
  by (induction users) (auto simp: map_add_def split: if_splits json.splits option.splits)


text \<open>What is queued, with the arguments of every part named.\<close>

definition queued_message ::
  "tables \<Rightarrow> nat jdict \<Rightarrow> nat jdict \<Rightarrow> ustr \<Rightarrow> (ustr \<times> ustr) list \<Rightarrow> mail_inputs \<Rightarrow> nat jdict" where
  "queued_message T config user title environ inp =
     new_message inp config (jget user (u ''topic_id'')) (env_text environ ''SLURM_JOB_USER'')
       (slurm_job_id environ) (normalize_event T (env_text environ ''SLURM_JOB_MAIL_TYPE'')) title
       (build_notification_body_for_publish T title (notification_fields config environ
          (env_text environ ''SLURM_JOB_USER'') (normalize_event T (env_text environ ''SLURM_JOB_MAIL_TYPE''))
          (slurm_job_id environ)))"

lemma queue_message_stored:
  assumes "queue_message T registry arguments environ inp = (r, Some (path, message))"
  shows "\<exists>config users user title.
     jget_or registry (u ''config'') (JObj []) = JObj config
   \<and> jget_or registry (u ''users'') (JObj []) = JObj users
   \<and> truthy (jget config (u ''enabled''))
   \<and> map_of users (env_text environ ''SLURM_JOB_USER'') = Some (JObj user)
   \<and> truthy (jget user (u ''topic_id''))
   \<and> utf8_size title \<le> max_title_bytes
   \<and> path = mail_uuid inp @ ''.json'' \<and> json_encodable (JObj message)
   \<and> message = queued_message T config user title environ inp"
proof -
  from assms obtain config where config: "jget_or registry (u ''config'') (JObj []) = JObj config"
    by (auto simp: queue_message_def split: json.splits simp del: u_simps)
  from assms config obtain users where users: "jget_or registry (u ''users'') (JObj []) = JObj users"
      "truthy (jget config (u ''enabled''))"
    by (auto simp: queue_message_def split: json.splits bool.splits simp del: u_simps)
  from assms config users obtain user where user: "jget_or users (env_text environ ''SLURM_JOB_USER'') (JObj []) = JObj user"
      "truthy (jget user (u ''topic_id''))"
    by (auto simp: queue_message_def Let_def split: json.splits if_splits simp del: u_simps)
  have known: "map_of users (env_text environ ''SLURM_JOB_USER'') = Some (JObj user)"
    using user by (auto simp: jget_or_def jget_def split: option.splits simp del: u_simps)
  from assms config users user obtain title where title:
      "sanitize_title (extract_subject arguments) (normalize_event T (env_text environ ''SLURM_JOB_MAIL_TYPE''))
         (slurm_job_id environ) = Inr title"
    by (auto simp: queue_message_def Let_def split: json.splits if_splits sum.splits simp del: u_simps)
  have "path = mail_uuid inp @ ''.json'' \<and> json_encodable (JObj message)
      \<and> message = queued_message T config user title environ inp"
    using assms config users user title
    by (simp add: queue_message_def Let_def queued_message_def
        split: if_splits spool_write.splits del: u_simps json_encodable.simps)
  then show ?thesis using config users user(2) known title_size [OF title] by blast
qed

lemma capacity_loop_count:
  "queued < max_queued_messages \<Longrightarrow> capacity_loop queued entries \<longleftrightarrow>
     queued + length (filter (\<lambda>(name, regular). ends_with name ''.json'' \<and> regular) entries) < max_queued_messages"
  by (induction entries arbitrary: queued) (auto simp: not_le Suc_le_eq split: if_splits)

lemma queue_message_capacity:
  "queue_message T registry arguments environ inp = (r, Some (path, message)) \<Longrightarrow> queue_has_capacity inp"
  by (auto simp: queue_message_def Let_def split: json.splits bool.splits if_splits simp del: u_simps)

lemma message_fields:
  "jget (new_message inp config topic_id username job_id event title body) (u ''version'') = JInt 1"
  "jget (new_message inp config topic_id username job_id event title body) (u ''region'')
     = jget_or config (u ''region'') (JStr [])"
  "jget (new_message inp config topic_id username job_id event title body) (u ''topic_id'') = topic_id"
  "jget (new_message inp config topic_id username job_id event title body) (u ''title'') = JStr title"
  "jget (new_message inp config topic_id username job_id event title body) (u ''body'') = JStr body"
  "jget (new_message inp config topic_id username job_id event title body) (u ''username'') = JStr username"
  "number_field (new_message inp config topic_id username job_id event title body) ''created_at'' 0
     = trunc_seconds (mail_clock inp)"
  "number_field (new_message inp config topic_id username job_id event title body) ''expires_at'' 0
     = trunc_seconds (mail_clock inp) + 7200"
  by (simp_all add: new_message_def jget_def number_field_def Let_def)

lemma message_types:
  assumes "jget_or config (u ''region'') (JStr []) = JStr region" and "topic_id = JStr topic"
    and "0 \<le> trunc_seconds (mail_clock inp)"
  shows "list_all (\<lambda>f. as_str (jget (new_message inp config topic_id username job_id event title body) f) \<noteq> None)
           string_fields"
    and "list_all (\<lambda>f. natural_number (jget (new_message inp config topic_id username job_id event title body) f))
           number_fields"
  using assms
  by (simp_all add: new_message_def jget_def string_fields_def number_fields_def natural_number_def Let_def)

lemma new_message_validates:
  assumes region: "jget_or config (u ''region'') (JStr []) = JStr region" "valid_region region"
    and topic: "topic_id = JStr topic" "starts_with topic topic_prefix"
    and clock: "0 \<le> mail_clock inp"
    and title: "encodable title" "utf8_size title \<le> max_title_bytes"
    and body: "fits title body"
  shows "validate_message (JObj (new_message inp config topic_id username job_id event title body))
    = Inr (new_message inp config topic_id username job_id event title body)"
proof -
  have now: "0 \<le> trunc_seconds (mail_clock inp)" using clock by (simp add: trunc_seconds_def)
  show ?thesis
    using message_types [OF region(1) topic(1) now] message_fields region topic title body
    by (simp add: validate_message_def need_def check_def text_field_def fits_def del: u_simps)
qed

text \<open>
  C19: what the adapter queues, the worker accepts. The adapter checks neither the region nor the
  topic of the registry; when the configuration names a valid region, the user's topic starts like a
  Notifications OCID and the clock is not negative, a queued message passes every check of the
  worker's validation unchanged (its title and body within OCI's limits whatever the job's
  environment holds), and it is registered for the user in the topics the worker reads from the
  same registry. It is stored only while fewer than 1200 messages wait and 256 MiB are free.
\<close>

theorem queued_message_valid:
  assumes "queue_message T registry arguments environ inp = (result, Some (path, message))"
    and "jget_or registry (u ''config'') (JObj []) = JObj config"
    and "jget_or config (u ''region'') (JStr []) = JStr region" and "valid_region region"
    and "starts_with (text_field message ''topic_id'') topic_prefix"
    and "0 \<le> mail_clock inp"
  shows "validate_message (JObj message) = Inr message
    \<and> (\<exists>topics. load_active_topics (Doc (JObj registry)) = Some topics \<and> registered topics message)
    \<and> length (filter (\<lambda>(name, regular). ends_with name ''.json'' \<and> regular) (spool_entries inp))
        < max_queued_messages
    \<and> min_free_spool_bytes \<le> spool_free inp"
proof -
  obtain users user title where q:
      "jget_or registry (u ''users'') (JObj []) = JObj users" "truthy (jget config (u ''enabled''))"
      "map_of users (env_text environ ''SLURM_JOB_USER'') = Some (JObj user)"
      "truthy (jget user (u ''topic_id''))" "utf8_size title \<le> max_title_bytes"
      "json_encodable (JObj message)" "message = queued_message T config user title environ inp"
    using queue_message_stored [OF assms(1)] assms(2) by (metis json.inject(6))
  obtain topic where topic: "jget user (u ''topic_id'') = JStr topic" "starts_with topic topic_prefix"
    using assms(5) unfolding q(7) queued_message_def text_field_def message_fields
    by (cases "jget user (u ''topic_id'')") (simp_all add: topic_prefix_def)
  have title: "encodable title"
    using q(6) unfolding q(7) queued_message_def new_message_def by (simp add: Let_def del: u_simps)
  have valid: "validate_message (JObj message) = Inr message"
    unfolding q(7) queued_message_def
    by (intro new_message_validates [OF assms(3,4) topic assms(6) title q(5)]
        body_choice [OF labels_plain, THEN conjunct1])
      (simp_all add: notification_fields_def q(5))
  define topics where "topics = concat (map (\<lambda>(username, details).
      case details of JObj d \<Rightarrow> if truthy (jget d (u ''topic_id'')) then [(username, jget d (u ''topic_id''))] else []
      | _ \<Rightarrow> []) users)"
  have loaded: "load_active_topics (Doc (JObj registry)) = Some topics"
    using assms(2) q(1,2) by (simp add: load_active_topics_def topics_def del: u_simps)
  have "map_of topics (env_text environ ''SLURM_JOB_USER'') = Some (JStr topic)"
    using load_topics_of_users [OF q(3,4)] topic(1) by (simp add: topics_def del: u_simps)
  then have "registered topics message"
    unfolding q(7) queued_message_def registered_def text_field_def message_fields topic(1) by simp
  moreover have "queue_has_capacity inp" by (rule queue_message_capacity [OF assms(1)])
  ultimately show ?thesis
    using valid loaded capacity_loop_count [of 0 "spool_entries inp"]
    by (auto simp: queue_has_capacity_def max_queued_messages_def)
qed

lemma encodable_all: "encodable s \<longleftrightarrow> (\<forall>c \<in> set s. \<not> surrogate c)"
  by (simp add: encodable_def list_all_iff)

lemma encodable_join: "encodable sep \<Longrightarrow> list_all encodable ls \<Longrightarrow> encodable (join sep ls)"
  by (induction sep ls rule: join.induct) auto

lemma encodable_u: "list_all (\<lambda>c. c < 55296) s \<Longrightarrow> encodable s"
  by (auto simp: encodable_def surrogate_def elim!: list.pred_mono_strong)

lemma encodable_row: "encodable label \<Longrightarrow> encodable v \<Longrightarrow> encodable (table_row T label v)"
  by (auto simp: table_row_def pad_table_value_def encodable_all surrogate_def)

lemma encodable_rows:
  assumes "encodable label" "encodable v"
  shows "list_all encodable (field_rows T (label, v))"
proof -
  have "concat (split_display_chunks T table_value_width v) = v"
    by (rule split_display_chunks_facts) (simp add: table_value_width_def)
  then have "encodable l" if "l \<in> set (split_display_chunks T table_value_width v)" for l
    using assms(2) that 
  proof -
    have "set l \<subseteq> set (concat (split_display_chunks T table_value_width v))" using that by auto
    then show ?thesis using \<open>concat (split_display_chunks T table_value_width v) = v\<close> assms(2)
      by (auto simp: encodable_all)
  qed
  then show ?thesis
    using assms(1) unfolding field_rows_def prod.case
    by (auto simp: list_all_iff enumerate_eq_zip intro!: encodable_row dest!: set_zip_rightD)
qed

lemma encodable_limited: "encodable (normalize_table_value T v) \<Longrightarrow> encodable (limit_table_value T limit v)"
  by (cases limit) (auto simp: limit_table_value_def Let_def encodable_all dest: in_set_takeD)

text \<open>A body of encodable values can be stored.\<close>

lemma encodable_body:
  assumes "list_all (\<lambda>(label, v). encodable label \<and> encodable (normalize_table_value T v)) raw_fields"
    and "raw_fields \<noteq> []"
  shows "encodable (build_notification_body T raw_fields limit)"
proof -
  have limited: "list_all (\<lambda>(label, v). encodable label \<and> encodable v) (table_rows T raw_fields limit)"
    using assms(1) by (induction raw_fields) (auto simp: table_rows_def encodable_limited)
  have "list_all (\<lambda>(label, v). encodable label \<and> encodable v) rows
      \<Longrightarrow> list_all encodable (concat (map (field_rows T) rows))" for rows
    by (induction rows) (auto simp: encodable_rows)
  then have rows: "list_all encodable (concat (map (field_rows T) (table_rows T raw_fields limit)))"
    using limited by blast
  have "encodable (snd (table_rows T raw_fields limit ! 0))"
    using limited assms(2) by (cases "table_rows T raw_fields limit") (auto simp: table_rows_def)
  moreover have "encodable table_border"
    by (auto simp: table_border_def encodable_all surrogate_def)
  ultimately show ?thesis
    using rows
    by (simp add: build_notification_body_def Let_def table_rows_def [symmetric] table_lines_def
        closing_line_def encodable_join encodable_row surrogate_def line_feed_def)
qed

definition demo_registry :: "nat jdict" where
  "demo_registry =
     [(u ''config'', JObj [(u ''enabled'', JBool True), (u ''region'', JStr (u ''us-ashburn-1'')),
        (u ''cluster_name'', JStr (u ''hpc''))]),
      (u ''users'', JObj [(u ''ann'', JObj [(u ''topic_id'', JStr (u ''ocid1.onstopic.oc1..a''))])])]"

definition demo_environ :: "(ustr \<times> ustr) list" where
  "demo_environ = [(u ''SLURM_JOB_USER'', u ''ann''), (u ''SLURM_JOB_ID'', u ''7''),
     (u ''SLURM_JOB_MAIL_TYPE'', u ''Ended'')]"

definition demo_inputs :: mail_inputs where
  "demo_inputs = \<lparr>spool_ready = True, spool_entries = [(''a.json'', True), (''.lock'', True)],
     spool_free = 2 ^ 30, mail_clock = 100, mail_uuid = ''1'', spool_write = Stored\<rparr>"

definition demo_config :: "nat jdict" where
  "demo_config = [(u ''enabled'', JBool True), (u ''region'', JStr (u ''us-ashburn-1'')),
     (u ''cluster_name'', JStr (u ''hpc''))]"

definition demo_user :: "nat jdict" where
  "demo_user = [(u ''topic_id'', JStr (u ''ocid1.onstopic.oc1..a''))]"

lemma demo_parts:
  "jget_or demo_registry (u ''config'') (JObj []) = JObj demo_config"
  "jget_or demo_registry (u ''users'') (JObj []) = JObj [(u ''ann'', JObj demo_user)]"
  "truthy (jget demo_config (u ''enabled''))" "truthy (jget demo_user (u ''topic_id''))"
  "jget_or demo_config (u ''region'') (JStr []) = JStr (u ''us-ashburn-1'')"
  "env_text demo_environ ''SLURM_JOB_USER'' = u ''ann''" "slurm_job_id demo_environ = u ''7''"
  "normalize_event no_tables (env_text demo_environ ''SLURM_JOB_MAIL_TYPE'') = u ''END''"
  "sanitize_title [] (u ''END'') (u ''7'') = Inr (u ''[Slurm] job 7 END'')"
  "queue_has_capacity demo_inputs"
  by code_simp+

lemma demo_body:
  "encodable (build_notification_body_for_publish no_tables (u ''[Slurm] job 7 END'')
     (notification_fields demo_config demo_environ (u ''ann'') (u ''END'') (u ''7'')))"
proof -
  let ?fields = "notification_fields demo_config demo_environ (u ''ann'') (u ''END'') (u ''7'')"
  have "list_all (\<lambda>(label, v). encodable label \<and> encodable (normalize_table_value no_tables v)) ?fields"
    by code_simp
  then have body: "encodable (build_notification_body no_tables ?fields limit)" for limit
    by (rule encodable_body) (simp add: notification_fields_def)
  moreover have "encodable truncation_suffix" by code_simp
  moreover have "utf8_size (u ''[Slurm] job 7 END'') \<le> max_title_bytes" by code_simp
  ultimately show ?thesis
    using body_choice [OF labels_plain, of demo_config demo_environ "u ''ann''" "u ''END''" "u ''7''"
        "u ''[Slurm] job 7 END''" no_tables]
    by (auto simp: limited_body_def notification_fields_def simp del: u_simps)
qed

lemma demo_queued:
  "queue_message no_tables demo_registry [] demo_environ demo_inputs
     = (Inr True, Some (''1.json'',
         queued_message no_tables demo_config demo_user (u ''[Slurm] job 7 END'') demo_environ demo_inputs))"
proof -
  have "json_encodable (JObj (queued_message no_tables demo_config demo_user (u ''[Slurm] job 7 END'')
      demo_environ demo_inputs))"
    using demo_body demo_parts(5) by (simp add: queued_message_def new_message_def Let_def demo_parts demo_user_def
        demo_inputs_def jget_def encodable_all surrogate_def)
  moreover have "spool_ready demo_inputs" "spool_write demo_inputs = Stored" "mail_uuid demo_inputs = ''1''"
    by (simp_all add: demo_inputs_def)
  moreover have "jget_or [(u ''ann'', JObj demo_user)] (u ''ann'') (JObj []) = JObj demo_user"
    by (simp add: jget_or_def)
  ultimately show ?thesis
    by (simp add: queue_message_def demo_parts Let_def queued_message_def
        del: u_simps json_encodable.simps)
qed

lemma queued_message_valid_witness:
  "validate_message (JObj (snd (the (snd (queue_message no_tables demo_registry [] demo_environ demo_inputs)))))
     = Inr (snd (the (snd (queue_message no_tables demo_registry [] demo_environ demo_inputs))))"
proof -
  have "text_field (queued_message no_tables demo_config demo_user (u ''[Slurm] job 7 END'') demo_environ
      demo_inputs) ''topic_id'' = u ''ocid1.onstopic.oc1..a''"
    unfolding queued_message_def text_field_def message_fields by (simp add: demo_user_def jget_def)
  moreover have "starts_with (u ''ocid1.onstopic.oc1..a'') topic_prefix" by code_simp
  moreover have "valid_region (u ''us-ashburn-1'')" by code_simp
  moreover have "0 \<le> mail_clock demo_inputs" by (simp add: demo_inputs_def)
  ultimately show ?thesis
    using queued_message_valid [OF demo_queued demo_parts(1) demo_parts(5)]
    by (simp add: demo_queued del: u_simps)
qed

end
