(* ===== verification/Cloud.thy ===== *)
theory Cloud
  imports Json_Data
begin

text \<open>
  What \<open>bin/resize.py\<close> sees of the OCI services: the attributes of the SDK's objects it
  reads, the exceptions it tells apart and the calls it makes. The services are a parameter
  (\<open>'w cloud\<close>): each call is a command over an abstract world \<open>'w\<close>, with any result and any
  effect. The state of a run adds the pending-deletion journal on disk and a trace that records
  what was asked and seen, together with the journal on disk at that moment.
\<close>

section \<open>Objects and exceptions\<close>

text \<open>
  What a call may raise: the SDK's \<open>ServiceError\<close>, with the HTTP status the code inspects, or
  any other exception. \<open>Exited\<close> is the \<open>SystemExit\<close> of \<open>exit(status)\<close>, which \<open>except Exception\<close>
  does not catch. \<open>Diverged\<close> is no exception of the program: a loop of the model ends with it when
  its rounds are used up.
\<close>

datatype api_error = ServiceError int | ClientError string

datatype resize_error =
    RuntimeError string
  | ValueFailure string
  | OtherFailure string
  | Api api_error
  | Exited int
  | Diverged

type_synonym tags = "(string \<times> string) list"

record cloud_instance =
  instance_name :: string
  instance_compartment :: string
  instance_state :: string
  instance_tags :: "tags option"

record attachment =
  at_name :: "string option"
  at_device :: "string option"
  at_state :: string
  at_type :: "string option"
  at_instance :: "string option"
  at_volume :: string
  at_at_launch :: "bool option"
  at_ipv4 :: "string option"
  at_port :: "int option"
  at_iqn :: "string option"

record volume =
  vol_name :: "string option"
  vol_state :: string
  vol_tags :: "tags option"
  vol_size :: "int option"
  vol_vpus :: "int option"
  vol_compartment :: "string option"

text \<open>The size of a pool is whatever the SDK puts there: the code checks that it is an integer.\<close>

record pool =
  pool_id :: "string option"
  pool_compartment :: "string option"
  pool_size :: "char json"

text \<open>
  A VNIC attachment (the one without a name is the primary one), and the summaries of cluster
  networks, compute clusters and instance pools; a cluster network lists its pools with their
  OCID and size, an instance pool has a size of its own.
\<close>

record vnic_attachment =
  vnic_name :: "string option"
  vnic_id :: string
  vnic_subnet :: string

record cluster_summary =
  cs_id :: string
  cs_name :: "string option"
  cs_state :: string
  cs_pools :: "(string \<times> int) list"
  cs_size :: int

text \<open>
  What a node is launched with: the instance whose shape, image, metadata and agent
  configuration it copies, and what the program sets itself.
\<close>

record launch_volume =
  lv_name :: string
  lv_size :: int
  lv_vpus :: int
  lv_attachment :: string
  lv_device :: string

record launch_request =
  lr_template :: string
  lr_compartment :: string
  lr_cluster :: string
  lr_name :: string
  lr_tags :: tags
  lr_subnet :: string
  lr_volumes :: "launch_volume list"

text \<open>
  What replacing a file does (\<open>os.replace\<close>, then \<open>fsync_directory\<close>): it may fail before or after the
  new file is in place.
\<close>

datatype write_outcome = Written | WriteFailed string | SyncFailed string

record 'w cloud =
  get_instance :: "string \<Rightarrow> ('w, api_error, cloud_instance) cmd"
  list_volume_attachments :: "string \<Rightarrow> string \<Rightarrow> ('w, api_error, attachment list) cmd"
  get_volume :: "string \<Rightarrow> ('w, api_error, volume) cmd"
  delete_volume :: "string \<Rightarrow> ('w, api_error, unit) cmd"
  terminate_instance :: "string \<Rightarrow> bool \<Rightarrow> ('w, api_error, unit) cmd"
  list_instances_named ::
    "string \<Rightarrow> string \<Rightarrow> ('w, api_error, (string \<times> cloud_instance) list) cmd"
  list_pool_instances :: "string \<Rightarrow> string \<Rightarrow> ('w, api_error, (string \<times> string) list) cmd"
  detach_pool_instance :: "string \<Rightarrow> string \<Rightarrow> ('w, api_error, unit) cmd"
  get_instance_pool :: "string \<Rightarrow> ('w, api_error, pool) cmd"
  list_zones :: "string \<Rightarrow> string \<Rightarrow> ('w, api_error, string list) cmd"
  delete_rr_set :: "string \<Rightarrow> string \<Rightarrow> ('w, api_error, unit) cmd"
  replace_journal :: "'w \<Rightarrow> write_outcome \<times> 'w"
  stage_tf_files :: "('w, api_error, unit) cmd"
  push_tf_state :: "string list \<Rightarrow> string list \<Rightarrow> 'w \<Rightarrow> (bool \<times> string list) \<times> 'w"
  replace_variables :: "'w \<Rightarrow> write_outcome \<times> 'w"
  list_compute_cluster_instances ::
    "string \<Rightarrow> string \<Rightarrow> ('w, api_error, (string \<times> cloud_instance) list) cmd"
  list_network_instances :: "string \<Rightarrow> string \<Rightarrow> ('w, api_error, (string \<times> string) list) cmd"
  list_vnic_attachments :: "string \<Rightarrow> string \<Rightarrow> ('w, api_error, vnic_attachment list) cmd"
  get_vnic_ip :: "string \<Rightarrow> ('w, api_error, string) cmd"
  cluster_network_state :: "string \<Rightarrow> ('w, api_error, string) cmd"
  instance_pool_state :: "string \<Rightarrow> ('w, api_error, string) cmd"
  list_cluster_networks :: "string \<Rightarrow> string \<Rightarrow> ('w, api_error, cluster_summary list) cmd"
  list_compute_clusters :: "string \<Rightarrow> string \<Rightarrow> ('w, api_error, cluster_summary list) cmd"
  list_instance_pools :: "string \<Rightarrow> string \<Rightarrow> ('w, api_error, cluster_summary list) cmd"
  get_compute_cluster :: "string \<Rightarrow> ('w, api_error, string \<times> string) cmd"
  update_pool_size :: "string \<Rightarrow> int \<Rightarrow> ('w, api_error, unit) cmd"
  launch_instance :: "launch_request \<Rightarrow> ('w, api_error, string) cmd"
  update_rr_set :: "string \<Rightarrow> string \<Rightarrow> string \<Rightarrow> ('w, api_error, unit) cmd"
  open_for_writing :: "string \<Rightarrow> ('w, api_error, unit) cmd"
  sudo_mv :: "string \<Rightarrow> string \<Rightarrow> 'w \<Rightarrow> bool \<times> 'w"
  find_reachable_hosts :: "string list \<Rightarrow> string \<Rightarrow> ('w, api_error, string list) cmd"
  wait_for_hosts :: "string \<Rightarrow> string \<Rightarrow> ('w, api_error, int) cmd"
  ansible_playbook ::
    "string option \<Rightarrow> string \<Rightarrow> (string \<times> string) list \<Rightarrow> ('w, api_error, int) cmd"
  now :: "'w \<Rightarrow> rat"
  wait_for :: "rat \<Rightarrow> 'w \<Rightarrow> 'w"

section \<open>Runs\<close>

datatype event =
    Saw_volume string volume
  | Saw_attachments string "attachment list"
  | Asked_detach string string
  | Asked_terminate string bool
  | Asked_delete_volume string
  | Asked_delete_record string string
  | Asked_push "string list"
  | Asked_resize string int
  | Asked_launch launch_request
  | Asked_update_record string string string
  | Ran_playbook "string option" string "(string \<times> string) list" int

text \<open>
  The files beside the inventory: the journal, and the lines of \<open>terraform.tfstate\<close> and
  \<open>variables.tf\<close> (\<open>None\<close>: no such file); and the text files by path, the inventories among
  them. \<open>Ran_playbook\<close> records the text of the inventory file, the playbook, the variables
  added to the environment and the exit status.
\<close>

record 'w run =
  world_of :: 'w
  journal :: "char doc"
  tf_state :: "string list option"
  tf_variables :: "string list option"
  files :: "(string \<times> string) list"
  trace :: "(event \<times> char doc) list"

type_synonym ('w, 'a) resize = "('w run, resize_error, 'a) cmd"

definition api :: "('w, api_error, 'a) cmd \<Rightarrow> ('w, 'a) resize" where
  "api call = (\<lambda>s. case call (world_of s) of
     (Inl e, w) \<Rightarrow> (Inl (Api e), s\<lparr>world_of := w\<rparr>) | (Inr x, w) \<Rightarrow> (Inr x, s\<lparr>world_of := w\<rparr>))"

definition record_event :: "event \<Rightarrow> ('w, unit) resize" where
  "record_event ev = (\<lambda>s. (Inr (), s\<lparr>trace := trace s @ [(ev, journal s)]\<rparr>))"

text \<open>A request that changes the cloud, and a reading that is worth remembering.\<close>

definition request :: "event \<Rightarrow> ('w, api_error, 'a) cmd \<Rightarrow> ('w, 'a) resize" where
  "request ev call = cbind (record_event ev) (\<lambda>_. api call)"

definition reading :: "('a \<Rightarrow> event) \<Rightarrow> ('w, api_error, 'a) cmd \<Rightarrow> ('w, 'a) resize" where
  "reading ev call = cbind (api call) (\<lambda>x. cbind (record_event (ev x)) (\<lambda>_. creturn x))"

definition clock :: "'w cloud \<Rightarrow> ('w, rat) resize" where
  "clock c = (\<lambda>s. (Inr (now c (world_of s)), s))"

definition sleep :: "'w cloud \<Rightarrow> rat \<Rightarrow> ('w, unit) resize" where
  "sleep c t = (\<lambda>s. (Inr (), s\<lparr>world_of := wait_for c t (world_of s)\<rparr>))"

text \<open>
  The waiting loops of the program have one shape:
  \<open>while True: <body, which may return or raise>; if time.time() >= deadline: raise ...;
  time.sleep(step)\<close>. The body returns \<open>Inl\<close> the result of the loop or \<open>Inr\<close> the variable it
  carries to the next iteration. \<open>rounds\<close> bounds the iterations of the model.
\<close>

fun poll_until ::
  "'w cloud \<Rightarrow> nat \<Rightarrow> rat \<Rightarrow> rat \<Rightarrow> resize_error \<Rightarrow> ('b \<Rightarrow> ('w, 'a + 'b) resize) \<Rightarrow> 'b
     \<Rightarrow> ('w, 'a) resize" where
  "poll_until c 0 deadline step timeout body b = craise Diverged"
| "poll_until c (Suc rounds) deadline step timeout body b =
     cbind (body b) (\<lambda>r. case r of
         Inl x \<Rightarrow> creturn x
       | Inr b' \<Rightarrow>
           cbind (clock c) (\<lambda>t.
           if deadline \<le> t then craise timeout
           else cbind (sleep c step) (\<lambda>_. poll_until c rounds deadline step timeout body b')))"

text \<open>Enough rounds to wait \<open>limit\<close> seconds in steps of \<open>step\<close>.\<close>

definition rounds_for :: "rat \<Rightarrow> rat \<Rightarrow> nat" where
  "rounds_for limit step = nat (ceiling (limit / step)) + 1"

definition tag_dict :: "tags option \<Rightarrow> tags" where
  "tag_dict t = (case t of None \<Rightarrow> [] | Some d \<Rightarrow> d)"

text \<open>\<open>tags.get("parent_cluster", tags.get("cluster_name"))\<close>.\<close>

definition parent_cluster :: "tags \<Rightarrow> string option" where
  "parent_cluster d =
     (case map_of d ''parent_cluster'' of None \<Rightarrow> map_of d ''cluster_name'' | Some v \<Rightarrow> Some v)"

lemmas run_equations [code] =
  api_def [THEN fun_cong] record_event_def [THEN fun_cong] request_def [THEN fun_cong]
  reading_def [THEN fun_cong] clock_def [THEN fun_cong] sleep_def [THEN fun_cong]
  poll_until.simps [THEN fun_cong]

section \<open>Laws of the commands\<close>

lemma api_world: "api call s = (r, s') \<Longrightarrow> s' = s\<lparr>world_of := snd (call (world_of s))\<rparr>"
  by (auto simp: api_def split: prod.splits sum.splits)

lemma api_Inr:
  "api call s = (Inr x, s') \<longleftrightarrow> (\<exists>w. call (world_of s) = (Inr x, w) \<and> s' = s\<lparr>world_of := w\<rparr>)"
  by (auto simp: api_def split: prod.splits sum.splits)

lemma api_not_Diverged [simp]: "fst (api call s) \<noteq> Inl Diverged"
  by (auto simp: api_def split: prod.splits sum.splits)

lemma cbind_clock [simp, result_simps]: "cbind (clock c) f s = f (now c (world_of s)) s"
  by (simp add: cbind_def clock_def)

lemma cbind_sleep [simp, result_simps]:
  "cbind (sleep c t) f s = f () (s\<lparr>world_of := wait_for c t (world_of s)\<rparr>)"
  by (simp add: cbind_def sleep_def)

text \<open>
  A run only appends to the trace: \<open>grows P s s'\<close> holds when every entry a command added
  satisfies \<open>P\<close>.
\<close>

definition grows :: "(event \<times> char doc \<Rightarrow> bool) \<Rightarrow> 'w run \<Rightarrow> 'w run \<Rightarrow> bool" where
  "grows P s s' \<longleftrightarrow> (\<exists>new. trace s' = trace s @ new \<and> list_all P new)"

lemma grows_refl [simp, intro]: "grows P s s"
  by (simp add: grows_def)

lemma grows_trans: "grows P s t \<Longrightarrow> grows P t v \<Longrightarrow> grows P s v"
  by (auto simp: grows_def)

lemma grows_rel [intro]: "reflp (grows P)" "transp (grows P)"
  by (auto intro: reflpI transpI grows_trans)

lemma grows_mono: "grows P s s' \<Longrightarrow> (\<And>e. P e \<Longrightarrow> Q e) \<Longrightarrow> grows Q s s'"
  unfolding grows_def by (metis list.pred_mono_strong)

lemma grows_same: "trace s' = trace s \<Longrightarrow> grows P s s'"
  by (simp add: grows_def)

definition same_journal :: "'w run \<Rightarrow> 'w run \<Rightarrow> bool" where
  "same_journal s s' \<longleftrightarrow> journal s' = journal s"

lemma same_journal_rel [intro]: "reflp same_journal" "transp same_journal"
  by (auto simp: same_journal_def intro: reflpI transpI)

text \<open>
  Both at once: the journal and the text files are left alone, and every added entry satisfies
  \<open>P\<close> for that journal.
\<close>

definition quiet :: "(event \<Rightarrow> char doc \<Rightarrow> bool) \<Rightarrow> 'w run \<Rightarrow> 'w run \<Rightarrow> bool" where
  "quiet P s s' \<longleftrightarrow>
     journal s' = journal s \<and> files s' = files s \<and> (\<exists>new. trace s' = trace s @ new \<and>
       list_all (\<lambda>(ev, j). j = journal s \<and> P ev j) new)"

lemma quiet_refl [simp, intro]: "quiet P s s"
  by (simp add: quiet_def)

lemma quiet_trans: "quiet P s t \<Longrightarrow> quiet P t v \<Longrightarrow> quiet P s v"
  by (auto simp: quiet_def)

lemma quiet_rel [intro]: "reflp (quiet P)" "transp (quiet P)"
  by (auto intro: reflpI transpI quiet_trans)

lemma quiet_mono: "quiet P s s' \<Longrightarrow> (\<And>ev j. P ev j \<Longrightarrow> Q ev j) \<Longrightarrow> quiet Q s s'"
  unfolding quiet_def by (fastforce simp: list_all_iff)

lemma quiet_journal: "quiet P s s' \<Longrightarrow> journal s' = journal s"
  by (simp add: quiet_def)

lemma quiet_files: "quiet P s s' \<Longrightarrow> files s' = files s"
  by (simp add: quiet_def)

lemma quiet_grows: "quiet P s s' \<Longrightarrow> grows (\<lambda>(ev, j). j = journal s \<and> P ev j) s s'"
  by (auto simp: quiet_def grows_def)

named_theorems quiet_intros \<open>commands that leave the journal alone\<close>

lemma keeps_quiet_pure [quiet_intros]:
  "keeps (quiet P) (creturn x)" "keeps (quiet P) (craise e)" "keeps (quiet P) (clift r)"
  by auto

lemma keeps_quiet_cbind [quiet_intros]:
  "keeps (quiet P) m \<Longrightarrow> (\<And>x. keeps (quiet P) (f x)) \<Longrightarrow> keeps (quiet P) (cbind m f)"
  by auto

lemma keeps_quiet_ctry [quiet_intros]:
  "keeps (quiet P) m \<Longrightarrow> (\<And>e. keeps (quiet P) (h e)) \<Longrightarrow> keeps (quiet P) (ctry m h)"
  by auto

lemma keeps_branch [quiet_intros]:
  "(b \<Longrightarrow> keeps R m) \<Longrightarrow> (\<not> b \<Longrightarrow> keeps R n) \<Longrightarrow> keeps R (if b then m else n)"
  "(opt = None \<Longrightarrow> keeps R m1) \<Longrightarrow> (\<And>x. opt = Some x \<Longrightarrow> keeps R (m2 x)) \<Longrightarrow>
     keeps R (case opt of None \<Rightarrow> m1 | Some x \<Rightarrow> m2 x)"
  "(xs = [] \<Longrightarrow> keeps R m3) \<Longrightarrow> (\<And>y ys. xs = y # ys \<Longrightarrow> keeps R (m4 y ys)) \<Longrightarrow>
     keeps R (case xs of [] \<Rightarrow> m3 | y # ys \<Rightarrow> m4 y ys)"
  "(\<And>x. res = Inl x \<Longrightarrow> keeps R (m5 x)) \<Longrightarrow> (\<And>y. res = Inr y \<Longrightarrow> keeps R (m6 y)) \<Longrightarrow>
     keeps R (case res of Inl x \<Rightarrow> m5 x | Inr y \<Rightarrow> m6 y)"
  by (auto split: option.splits list.splits sum.splits)

lemma keeps_quiet_api [quiet_intros]: "keeps (quiet P) (api call)"
  by (rule keepsI) (auto simp: api_def quiet_def split: prod.splits sum.splits)

lemma keeps_quiet_clock [quiet_intros]:
  "keeps (quiet P) (clock c)" "keeps (quiet P) (sleep c t)"
  by (auto intro!: keepsI simp: clock_def sleep_def quiet_def)

lemma keeps_quiet_event: "(\<And>j. P ev j) \<Longrightarrow> keeps (quiet P) (record_event ev)"
  by (rule keepsI) (auto simp: record_event_def quiet_def)

lemma keeps_quiet_request [quiet_intros]:
  "(\<And>j. P ev j) \<Longrightarrow> keeps (quiet P) (request ev call)"
  unfolding request_def by (intro quiet_intros keeps_quiet_event)

lemma keeps_quiet_reading [quiet_intros]:
  "(\<And>x j. P (ev x) j) \<Longrightarrow> keeps (quiet P) (reading ev call)"
  unfolding reading_def by (intro quiet_intros keeps_quiet_event)

lemma keeps_quiet_poll [quiet_intros]:
  "(\<And>b. keeps (quiet P) (body b)) \<Longrightarrow> keeps (quiet P) (poll_until c n d st e body b)"
proof (induction n arbitrary: b)
  case 0
  show ?case by (simp only: poll_until.simps) (intro quiet_intros)
next
  case (Suc n)
  show ?case
    by (simp only: poll_until.simps) (intro quiet_intros Suc.prems Suc.IH)
qed

text \<open>
  A clock that does not go back, and advances by at least the time slept: what the waiting
  loops rely on to end. \<open>on_time\<close> is the relation every call of the loop bodies must keep.
\<close>

definition on_time :: "'w cloud \<Rightarrow> 'w run \<Rightarrow> 'w run \<Rightarrow> bool" where
  "on_time c s s' \<longleftrightarrow> now c (world_of s) \<le> now c (world_of s')"

definition sleeps :: "'w cloud \<Rightarrow> bool" where
  "sleeps c \<longleftrightarrow> (\<forall>t w. 0 \<le> t \<longrightarrow> now c w + t \<le> now c (wait_for c t w))"

lemma poll_until_ends:
  assumes "sleeps c" and "0 < step"
    and "\<And>b. keeps (on_time c) (body b)"
    and "\<And>b s. fst (body b s) \<noteq> Inl Diverged"
    and "timeout \<noteq> Diverged"
    and "deadline \<le> now c (world_of s) + (of_nat rounds - 1) * step" and "0 < rounds"
  shows "fst (poll_until c rounds deadline step timeout body b s) \<noteq> Inl Diverged"
  using assms(6,7)
proof (induction rounds arbitrary: b s)
  case 0
  then show ?case by simp
next
  case (Suc rounds)
  obtain r s1 where body: "body b s = (r, s1)" by fastforce
  show ?case
  proof (cases r)
    case (Inl e)
    with body assms(4) [of b s] show ?thesis by (auto simp: cbind_run)
  next
    case (Inr v)
    have ran: "cbind (body b) f s = f v s1" for f :: "'c + 'b \<Rightarrow> ('a, 'c) resize"
      using body Inr by (simp add: cbind_run)
    have later: "now c (world_of s) \<le> now c (world_of s1)"
      using keepsD [OF assms(3) body] by (simp add: on_time_def)
    show ?thesis
    proof (cases v)
      case (Inl x)
      then show ?thesis by (simp add: ran)
    next
      case (Inr b')
      show ?thesis
      proof (cases "deadline \<le> now c (world_of s1)")
        case True
        then show ?thesis using Inr assms(5) by (simp add: ran)
      next
        case False
        let ?s2 = "s1\<lparr>world_of := wait_for c step (world_of s1)\<rparr>"
        have "now c (world_of s1) + step \<le> now c (world_of ?s2)"
          using assms(1,2) by (simp add: sleeps_def)
        then have "deadline \<le> now c (world_of ?s2) + (of_nat rounds - 1) * step"
          using Suc.prems(1) later by (simp add: algebra_simps)
        moreover have "0 < rounds"
          using False Suc.prems(1) later by (cases rounds) auto
        ultimately have "fst (poll_until c rounds deadline step timeout body b' ?s2) \<noteq> Inl Diverged"
          by (rule Suc.IH)
        then show ?thesis using False Inr by (simp add: ran)
      qed
    qed
  qed
qed

lemma rounds_for_enough:
  assumes "0 < step" and "0 \<le> limit"
  shows "limit \<le> (of_nat (rounds_for limit step) - 1) * step" and "0 < rounds_for limit step"
proof -
  have "limit / step \<le> of_int (ceiling (limit / step))" by (rule le_of_int_ceiling)
  also have "\<dots> = of_nat (nat (ceiling (limit / step)))"
    using assms by simp
  finally have "limit / step \<le> of_nat (rounds_for limit step) - 1"
    by (simp add: rounds_for_def)
  then show "limit \<le> (of_nat (rounds_for limit step) - 1) * step"
    using assms(1) by (simp add: pos_divide_le_eq)
qed (simp add: rounds_for_def)

lemma poll_until_result:
  assumes "poll_until c n d st e body b s = (Inr x, s')"
    and "\<And>b. keeps (quiet P) (body b)"
  shows "\<exists>b' s1. body b' s1 = (Inr (Inl x), s') \<and> quiet P s s1"
  using assms(1)
proof (induction n arbitrary: b s)
  case 0
  then show ?case by simp
next
  case (Suc n)
  from Suc.prems obtain r s1 where body: "body b s = (Inr r, s1)"
    and rest: "(case r of Inl x \<Rightarrow> creturn x
        | Inr b' \<Rightarrow> cbind (clock c) (\<lambda>t. if d \<le> t then craise e
            else cbind (sleep c st) (\<lambda>_. poll_until c n d st e body b'))) s1 = (Inr x, s')"
    by (auto simp: cbind_Inr_iff)
  show ?case
  proof (cases r)
    case (Inl y)
    with body rest show ?thesis by auto
  next
    case (Inr b')
    let ?s2 = "s1\<lparr>world_of := wait_for c st (world_of s1)\<rparr>"
    from Inr rest have "poll_until c n d st e body b' ?s2 = (Inr x, s')"
      by (simp split: if_splits)
    from Suc.IH [OF this] obtain b'' s3 where s3: "body b'' s3 = (Inr (Inl x), s')" "quiet P ?s2 s3"
      by blast
    have "quiet P s s1" using assms(2) body by (blast dest: keepsD)
    moreover have "quiet P s1 ?s2" by (simp add: quiet_def)
    ultimately have "quiet P s s3" using s3(2) by (blast intro: quiet_trans)
    with s3(1) show ?thesis by blast
  qed
qed

text \<open>A cloud that refuses everything, to build concrete ones from.\<close>

definition refusing_cloud :: "nat cloud" where
  "refusing_cloud =
     \<lparr>get_instance = \<lambda>_. craise (ClientError ''refused''),
      list_volume_attachments = \<lambda>_ _. craise (ClientError ''refused''),
      get_volume = \<lambda>_. craise (ClientError ''refused''),
      delete_volume = \<lambda>_. craise (ClientError ''refused''),
      terminate_instance = \<lambda>_ _. craise (ClientError ''refused''),
      list_instances_named = \<lambda>_ _. craise (ClientError ''refused''),
      list_pool_instances = \<lambda>_ _. craise (ClientError ''refused''),
      detach_pool_instance = \<lambda>_ _. craise (ClientError ''refused''),
      get_instance_pool = \<lambda>_. craise (ClientError ''refused''),
      list_zones = \<lambda>_ _. craise (ClientError ''refused''),
      delete_rr_set = \<lambda>_ _. craise (ClientError ''refused''),
      replace_journal = \<lambda>w. (WriteFailed ''refused'', w),
      stage_tf_files = craise (ClientError ''refused''),
      push_tf_state = \<lambda>_ old w. ((False, old), w),
      replace_variables = \<lambda>w. (WriteFailed ''refused'', w),
      list_compute_cluster_instances = \<lambda>_ _. craise (ClientError ''refused''),
      list_network_instances = \<lambda>_ _. craise (ClientError ''refused''),
      list_vnic_attachments = \<lambda>_ _. craise (ClientError ''refused''),
      get_vnic_ip = \<lambda>_. craise (ClientError ''refused''),
      cluster_network_state = \<lambda>_. craise (ClientError ''refused''),
      instance_pool_state = \<lambda>_. craise (ClientError ''refused''),
      list_cluster_networks = \<lambda>_ _. craise (ClientError ''refused''),
      list_compute_clusters = \<lambda>_ _. craise (ClientError ''refused''),
      list_instance_pools = \<lambda>_ _. craise (ClientError ''refused''),
      get_compute_cluster = \<lambda>_. craise (ClientError ''refused''),
      update_pool_size = \<lambda>_ _. craise (ClientError ''refused''),
      launch_instance = \<lambda>_. craise (ClientError ''refused''),
      update_rr_set = \<lambda>_ _ _. craise (ClientError ''refused''),
      open_for_writing = \<lambda>_. craise (ClientError ''refused''),
      sudo_mv = \<lambda>_ _ w. (False, w),
      find_reachable_hosts = \<lambda>_ _. craise (ClientError ''refused''),
      wait_for_hosts = \<lambda>_ _. craise (ClientError ''refused''),
      ansible_playbook = \<lambda>_ _ _. craise (ClientError ''refused''),
      now = of_nat,
      wait_for = \<lambda>t w. w + nat (ceiling t)\<rparr>"

end
