(* ===== verification/Local_Volume.thy ===== *)
theory Local_Volume
  imports Cloud
begin

text \<open>
  The local Block Volume of a compute node (\<open>bin/resize.py\<close>): its configuration in the
  inventory, the instance tags that carry it, the mount points it may have, and the attachment
  through which a node reaches its volume. Inventory values are text of code points below 256.
\<close>

section \<open>Reading inventory variables\<close>

text \<open>An inventory: its sections in file order, each with its lines (line ends included).\<close>

type_synonym inventory = "(string \<times> string list) list"

definition device :: string where
  "device = ''/dev/oracleoci/oraclevdc''"

definition tag_enabled :: string where
  "tag_enabled = ''oci_hpc_local_block_volume''"

definition tag_size :: string where
  "tag_size = ''oci_hpc_local_block_volume_size''"

definition tag_vpus :: string where
  "tag_vpus = ''oci_hpc_local_block_volume_vpus''"

definition tag_mount :: string where
  "tag_mount = ''oci_hpc_local_block_volume_mount''"

text \<open>The tag keys, in the order \<open>sorted\<close> gives them.\<close>

definition tag_keys :: "string list" where
  "tag_keys = [tag_enabled, tag_mount, tag_size, tag_vpus]"

definition parse_bool :: "bool + string \<Rightarrow> resize_error + bool" where
  "parse_bool v =
     (case v of
        Inl b \<Rightarrow> Inr b
      | Inr s \<Rightarrow>
          (let normalized = py_lower (py_strip s)
           in if normalized \<in> set [''true'', ''yes'', ''1'', ''on''] then Inr True
              else if normalized \<in> set [''false'', ''no'', ''0'', ''off'', ''''] then Inr False
              else Inl (ValueFailure (''Invalid boolean value: '' @ s))))"

fun find_variable :: "string \<Rightarrow> string list \<Rightarrow> string option" where
  "find_variable name [] = None"
| "find_variable name (inv_var # rest) =
     (case partition_at CHR ''='' inv_var of (key, separator, v) \<Rightarrow>
        if separator \<and> py_strip key = name then Some (py_strip v) else find_variable name rest)"

definition inventory_lines :: "inventory \<Rightarrow> string \<Rightarrow> string list" where
  "inventory_lines invt section = (case map_of invt section of None \<Rightarrow> [] | Some ls \<Rightarrow> ls)"

definition get_inventory_variable :: "inventory \<Rightarrow> string \<Rightarrow> string option" where
  "get_inventory_variable invt name = find_variable name (inventory_lines invt ''all:vars'')"

definition variable_or :: "inventory \<Rightarrow> string \<Rightarrow> string \<Rightarrow> string" where
  "variable_or invt name dflt =
     (case get_inventory_variable invt name of None \<Rightarrow> dflt | Some v \<Rightarrow> v)"

section \<open>Mount points\<close>

definition slash :: char where
  "slash = CHR 0x2F"

definition strip_slashes :: "string \<Rightarrow> string" where
  "strip_slashes s = rstrip_by (\<lambda>c. c = slash) s"

definition path_char :: "char \<Rightarrow> bool" where
  "path_char c \<longleftrightarrow> is_upper_alpha c \<or> is_lower_alpha c \<or> is_digit c
     \<or> c \<in> set [CHR ''.'', CHR ''_'', slash, CHR ''-'']"

text \<open>\<open>re.fullmatch(r"/[A-Za-z0-9._/-]+", mount_point)\<close>.\<close>

definition absolute_path :: "string \<Rightarrow> bool" where
  "absolute_path m \<longleftrightarrow> m \<noteq> [] \<and> hd m = slash \<and> tl m \<noteq> [] \<and> list_all path_char (tl m)"

definition reserved_mount_points :: "inventory \<Rightarrow> string list" where
  "reserved_mount_points invt =
     (let path = (\<lambda>name dflt. let v = variable_or invt name dflt
                              in strip_slashes (if v = [] then dflt else v))
      in [path ''nvme_path'' ''/mnt/localdisk'',
          path ''scratch_nfs_path'' ''/nfs/scratch'',
          path ''cluster_nfs_path'' ''/nfs/cluster'',
          ''/mnt/localdisk/nfs'',
          ''/home'',
          path ''nfs_target_path'' ''/share''])"

definition conflicting :: "string \<Rightarrow> string \<Rightarrow> bool" where
  "conflicting m r \<longleftrightarrow> m = r \<or> starts_with m (r @ [slash]) \<or> starts_with r (m @ [slash])"

definition canonical_mount_point :: "string \<Rightarrow> bool" where
  "canonical_mount_point m \<longleftrightarrow>
     (let normalized = strip_slashes m;
          components = tl (split_on slash normalized)
      in \<not> (\<not> absolute_path m
            \<or> 200 < length m
            \<or> normalized = []
            \<or> normalized = [slash]
            \<or> list_ex (\<lambda>c. c \<in> set ['''', ''.'', ''..'']) components
            \<or> normpath normalized \<noteq> normalized))"

definition validate_mount_point :: "string \<Rightarrow> inventory \<Rightarrow> resize_error + string" where
  "validate_mount_point m invt =
     rbind (check (ValueFailure
       ''local_block_volume_mount_point must be a canonical absolute path other than /'')
       (canonical_mount_point m)) (\<lambda>_.
     let normalized = strip_slashes m
     in rbind (fold_err (\<lambda>_ r. check (ValueFailure
          (''local_block_volume_mount_point conflicts with reserved path '' @ r))
          (\<not> conflicting normalized r)) () (reserved_mount_points invt)) (\<lambda>_.
        Inr normalized))"

section \<open>The configuration and its tags\<close>

record volume_config =
  cfg_size :: int
  cfg_vpus :: int
  cfg_mount :: string

definition performance_values :: "(string \<times> int) list" where
  "performance_values =
     [(''0.  Lower performance'', 0), (''10. Balanced performance'', 10),
      (''20. High Performance'', 20)]"

definition get_local_block_volume_config :: "inventory \<Rightarrow> resize_error + bool \<times> volume_config" where
  "get_local_block_volume_config invt =
     rbind (parse_bool (Inr (variable_or invt ''use_local_block_volume'' ''false''))) (\<lambda>enabled.
     rbind (need (ValueFailure ''invalid literal for int()'')
       (py_int (variable_or invt ''local_block_volume_size'' ''1000''))) (\<lambda>size_in_gbs.
     let performance = variable_or invt ''local_block_volume_performance'' ''10. Balanced performance'';
         mount_point = variable_or invt ''local_block_volume_mount_point'' ''/scratch''
     in rbind (need (ValueFailure (''Invalid local_block_volume_performance: '' @ performance))
          (map_of performance_values performance)) (\<lambda>vpus_per_gb.
        rbind (check (ValueFailure ''local_block_volume_size must be at least 50 GB'')
          (50 \<le> size_in_gbs)) (\<lambda>_.
        rbind (validate_mount_point mount_point invt) (\<lambda>_.
        Inr (enabled, \<lparr>cfg_size = size_in_gbs, cfg_vpus = vpus_per_gb, cfg_mount = mount_point\<rparr>))))))"

text \<open>\<open>re.fullmatch(r"[1-9][0-9]*", s)\<close>.\<close>

definition positive_decimal :: "string \<Rightarrow> bool" where
  "positive_decimal s \<longleftrightarrow> s \<noteq> [] \<and> is_digit (hd s) \<and> hd s \<noteq> CHR ''0'' \<and> list_all is_digit (tl s)"

text \<open>\<open>a or b\<close> for optional strings.\<close>

definition or_else :: "string option \<Rightarrow> string option \<Rightarrow> string option" where
  "or_else a b = (case a of None \<Rightarrow> b | Some s \<Rightarrow> if s = [] then b else a)"

definition tag_value :: "tags \<Rightarrow> string \<Rightarrow> string" where
  "tag_value d k = (case map_of d k of None \<Rightarrow> [] | Some v \<Rightarrow> py_strip v)"

text \<open>\<open>None\<close> is \<open>{"enabled": False}\<close>.\<close>

definition get_instance_config ::
  "string \<Rightarrow> cloud_instance \<Rightarrow> inventory \<Rightarrow> string \<Rightarrow> resize_error + volume_config option" where
  "get_instance_config iid inst invt expected_cluster_name =
     (let d = tag_dict (instance_tags inst);
          failure = (\<lambda>text. RuntimeError (''Instance '' @ iid @ text));
          missing = filter (\<lambda>k. map_of d k = None) tag_keys
      in if missing = tag_keys then Inr None
         else if tag_enabled \<in> set missing
         then Inl (failure '' has incomplete local Block Volume tags'')
         else let enabled_value = py_lower (tag_value d tag_enabled)
         in if enabled_value \<notin> set [''true'', ''false'']
         then Inl (failure ('' has an invalid '' @ tag_enabled @ '' tag''))
         else if enabled_value = ''false'' then Inr None
         else
           rbind (check (failure ('' is missing local Block Volume tags: '' @ join '', '' missing))
             (missing = [])) (\<lambda>_.
           rbind (check (failure ('' does not belong to cluster '' @ expected_cluster_name))
             (or_else (map_of d ''parent_cluster'') (map_of d ''cluster_name'')
                = Some expected_cluster_name)) (\<lambda>_.
           let size_value = tag_value d tag_size;
               vpus_value = tag_value d tag_vpus;
               mount_point = tag_value d tag_mount
           in rbind (check (failure '' has an invalid local Block Volume size tag'')
                (positive_decimal size_value \<and> 50 \<le> digits_value size_value)) (\<lambda>_.
              rbind (check (failure '' has an invalid local Block Volume VPUs tag'')
                (vpus_value \<in> set [''0'', ''10'', ''20''])) (\<lambda>_.
              (case validate_mount_point mount_point invt of
                 Inl (ValueFailure text) \<Rightarrow>
                   Inl (failure ('' has an invalid local Block Volume mount tag: '' @ text))
               | Inl e \<Rightarrow> Inl e
               | Inr _ \<Rightarrow> Inr (Some \<lparr>cfg_size = int (digits_value size_value),
                   cfg_vpus = int (digits_value vpus_value), cfg_mount = mount_point\<rparr>)))))))"

text \<open>The tags and the volume with which a new node is launched.\<close>

definition launch_freeform_tags :: "tags option \<Rightarrow> bool \<Rightarrow> volume_config \<Rightarrow> tags" where
  "launch_freeform_tags t enabled cfg =
     dupdate (tag_dict t)
       [(tag_enabled, if enabled then ''true'' else ''false''),
        (tag_size, show_int (cfg_size cfg)),
        (tag_vpus, show_int (cfg_vpus cfg)),
        (tag_mount, cfg_mount cfg)]"

definition launch_display_name :: "string \<Rightarrow> int \<Rightarrow> int \<Rightarrow> string" where
  "launch_display_name name max_previous_index index =
     join ''-'' (butlast (split_on CHR ''-'' name) @ [show_int (max_previous_index + 1 + index)])"

definition launch_volume_attachments :: "string \<Rightarrow> bool \<Rightarrow> volume_config \<Rightarrow> launch_volume list" where
  "launch_volume_attachments new_display_name enabled cfg =
     (if enabled
      then [\<lparr>lv_name = new_display_name @ ''-local-scratch'', lv_size = cfg_size cfg,
             lv_vpus = cfg_vpus cfg,
             lv_attachment = new_display_name @ ''-local-scratch-attachment'',
             lv_device = device\<rparr>]
      else [])"

section \<open>Which mount points are accepted\<close>

lemma concat_split_on: "concat (map (Cons c) (split_on c s)) = c # s"
proof (induction s)
  case Nil
  show ?case by (simp add: split_on_def)
next
  case (Cons x s)
  then show ?case
    by (cases "split_by (\<lambda>y. y = c) s") (auto simp: split_on_def)
qed

lemma split_on_concat:
  "list_all (\<lambda>w. c \<notin> set w) cs \<Longrightarrow> cs \<noteq> [] \<Longrightarrow> split_on c (tl (concat (map (Cons c) cs))) = cs"
proof (induction cs)
  case (Cons w cs)
  show ?case
  proof (cases cs)
    case Nil
    then show ?thesis using Cons.prems by (auto simp: split_on_def intro!: split_by_no_sep)
  next
    case (Cons v vs)
    then obtain t where t: "concat (map ((#) c) cs) = c # t" by simp
    then have "split_on c (w @ c # t) = w # split_on c t"
      using Cons.prems by (auto simp: split_on_def intro!: split_by_append_sep)
    then show ?thesis using Cons.IH Cons.prems Cons t by simp
  qed
qed simp

lemma join_concat: "cs \<noteq> [] \<Longrightarrow> c # join [c] cs = concat (map (Cons c) cs)"
  by (induction "[c]" cs rule: join.induct) auto

text \<open>A canonical path below the root: \<open>/a/b/c\<close> with proper components.\<close>

definition path_component :: "string \<Rightarrow> bool" where
  "path_component c \<longleftrightarrow> c \<noteq> [] \<and> c \<noteq> ''.'' \<and> c \<noteq> ''..'' \<and> list_all (\<lambda>x. path_char x \<and> x \<noteq> slash) c"

definition path_of :: "string list \<Rightarrow> string" where
  "path_of cs = concat (map (Cons slash) cs)"

definition canonical_path :: "string \<Rightarrow> bool" where
  "canonical_path p \<longleftrightarrow> (\<exists>cs. cs \<noteq> [] \<and> list_all path_component cs \<and> p = path_of cs)"

definition below :: "string \<Rightarrow> string \<Rightarrow> bool" where
  "below a b \<longleftrightarrow> a = b \<or> (\<exists>rest. a = b @ slash # rest)"

lemma path_char_slash [simp]: "path_char slash"
  by (simp add: path_char_def)

lemma norm_components_proper:
  "list_all (\<lambda>c. c \<noteq> [] \<and> c \<noteq> ''.'' \<and> c \<noteq> ''..'') cs \<Longrightarrow> norm_components r out cs = out @ cs"
  by (induction r out cs rule: norm_components.induct) auto

lemma normpath_path_of:
  assumes "cs \<noteq> []" and "list_all path_component cs"
  shows "normpath (path_of cs) = path_of cs"
proof -
  obtain w ws where cs: "cs = w # ws" using assms(1) by (cases cs) auto
  with assms(2) obtain x v where w: "w = x # v" and x: "x \<noteq> slash"
    by (cases w) (auto simp: path_component_def)
  have split: "split_on slash (path_of cs) = [] # cs"
    using split_on_concat [of slash cs] assms
    by (auto simp: path_of_def cs split_on_def path_component_def list_all_iff)
  have "norm_components True [] ([] # cs) = cs"
    using assms(2) norm_components_proper [of cs True "[]"]
    by (auto simp: path_component_def list_all_iff)
  then have nn: "norm_components True [] (split_on slash (path_of cs)) = cs"
    by (simp only: split)
  have "path_of cs = slash # x # v @ path_of ws" by (simp add: path_of_def cs w)
  then have "path_of cs \<noteq> []" "\<not> starts_with (path_of cs) ''//''" "starts_with (path_of cs) ''/''"
    using x by (simp_all add: slash_def)
  moreover have "''/'' @ join ''/'' cs = path_of cs"
    using join_concat [OF assms(1), of slash] by (simp add: path_of_def slash_def)
  ultimately show ?thesis
    using nn by (simp add: normpath_def Let_def slash_def)
qed

lemma canonical_path_iff:
  "canonical_path p \<longleftrightarrow> p \<noteq> [] \<and> hd p = slash \<and> list_all path_char p
     \<and> list_all (\<lambda>c. c \<noteq> [] \<and> c \<noteq> ''.'' \<and> c \<noteq> ''..'') (tl (split_on slash p))"
  (is "?l = ?r")
proof
  assume ?l
  then obtain cs where cs: "cs \<noteq> []" "list_all path_component cs" "p = path_of cs"
    by (auto simp: canonical_path_def)
  then have "hd p = slash" "p \<noteq> []" by (cases cs; simp add: path_of_def)+
  moreover have "list_all path_char p"
    using cs(2) unfolding cs(3) path_of_def
    by (induction cs) (auto simp: path_component_def list_all_iff)
  moreover have "tl (split_on slash p) = cs"
  proof -
    obtain t where "p = slash # t" using calculation by (cases p) auto
    then have "tl (split_on slash p) = split_on slash (tl p)"
      by (simp add: split_on_def)
    then show ?thesis
      using split_on_concat [of slash cs] cs
      by (auto simp: path_of_def path_component_def list_all_iff)
  qed
  ultimately show ?r using cs(2) by (auto simp: path_component_def list_all_iff)
next
  assume r: ?r
  then obtain t where t: "p = slash # t" by (cases p) auto
  let ?cs = "split_on slash t"
  have "p = path_of ?cs" using t concat_split_on [of slash t] by (simp add: path_of_def)
  moreover have "?cs \<noteq> []" by (simp add: split_on_def)
  moreover have "list_all path_component ?cs"
  proof -
    have "tl (split_on slash p) = ?cs" by (simp add: t split_on_def)
    moreover have "path_char x \<and> x \<noteq> slash" if "w \<in> set ?cs" "x \<in> set w" for w x
    proof -
      have "x \<in> set t" using split_by_pieces_subset [of w "\<lambda>y. y = slash" t] that
        by (auto simp: split_on_def)
      moreover have "x \<noteq> slash"
        using split_by_pieces [of w "\<lambda>y. y = slash" t x] that by (auto simp: split_on_def)
      ultimately show ?thesis using r t by (auto simp: list_all_iff)
    qed
    ultimately show ?thesis using r by (auto simp: list_all_iff path_component_def)
  qed
  ultimately show ?l by (auto simp: canonical_path_def)
qed

lemma conflicting_iff: "conflicting m r \<longleftrightarrow> below m r \<or> below r m"
  by (auto simp: conflicting_def below_def starts_with_iff)

lemma strip_slashes_iff:
  assumes "n = [] \<or> last n \<noteq> slash"
  shows "strip_slashes m = n \<longleftrightarrow> (\<exists>k. m = n @ replicate k slash)"
proof
  assume "strip_slashes m = n"
  then obtain t where "m = n @ t" "\<forall>x \<in> set t. x = slash"
    using rstrip_by_prefix [of m "\<lambda>c. c = slash"] by (auto simp: strip_slashes_def)
  then show "\<exists>k. m = n @ replicate k slash"
    by (metis replicate_length_same)
next
  assume "\<exists>k. m = n @ replicate k slash"
  then obtain k where "m = n @ replicate k slash" by auto
  then show "strip_slashes m = n"
  proof (induction k arbitrary: m)
    case 0
    then show ?case
      using assms by (auto simp: strip_slashes_def intro!: rstrip_by_id)
  next
    case (Suc k)
    then show ?case
      using rstrip_by_append_space [of "\<lambda>c. c = slash" slash "n @ replicate k slash"]
      by (simp add: strip_slashes_def flip: replicate_append_same)
  qed
qed

lemma strip_slashes_last: "strip_slashes m = [] \<or> last (strip_slashes m) \<noteq> slash"
  unfolding strip_slashes_def using rstrip_by_last [of "\<lambda>c. c = slash" m] by auto

lemma canonical_path_last: "canonical_path p \<Longrightarrow> last p \<noteq> slash"
proof -
  assume "canonical_path p"
  then obtain cs where cs: "cs \<noteq> []" "list_all path_component cs" "p = path_of cs"
    by (auto simp: canonical_path_def)
  then obtain ws w where w: "cs = ws @ [w]" by (cases cs rule: rev_cases) auto
  with cs(2) have "w \<noteq> []" "last w \<noteq> slash"
    by (auto simp: path_component_def list_all_iff)
  then show ?thesis by (simp add: cs(3) path_of_def w)
qed

lemma canonical_mount_point_iff:
  "canonical_mount_point m \<longleftrightarrow> length m \<le> 200 \<and> canonical_path (strip_slashes m)"
proof -
  obtain k where k: "m = strip_slashes m @ replicate k slash"
    using strip_slashes_iff [OF strip_slashes_last] by auto
  show ?thesis
  proof
    assume m: "canonical_mount_point m"
    then have ne: "strip_slashes m \<noteq> []" and abs: "absolute_path m" "length m \<le> 200"
      by (auto simp: canonical_mount_point_def Let_def)
    have "hd (strip_slashes m) = hd m" using k ne by (metis hd_append2)
    moreover have "set (strip_slashes m) \<subseteq> set m" using k by (metis Un_upper1 set_append)
    moreover have "list_all path_char m"
      using abs by (cases m) (auto simp: absolute_path_def)
    ultimately show "length m \<le> 200 \<and> canonical_path (strip_slashes m)"
      using m ne abs
      by (auto simp: canonical_path_iff canonical_mount_point_def Let_def absolute_path_def
          list_all_iff list_ex_iff)
  next
    assume r: "length m \<le> 200 \<and> canonical_path (strip_slashes m)"
    then obtain cs where cs: "cs \<noteq> []" "list_all path_component cs" "strip_slashes m = path_of cs"
      by (auto simp: canonical_path_def)
    obtain x v where n: "strip_slashes m = slash # x # v"
      using cs by (cases cs; cases "hd cs") (auto simp: path_of_def path_component_def)
    have iff: "list_all path_char (strip_slashes m)"
      "list_all (\<lambda>c. c \<noteq> [] \<and> c \<noteq> ''.'' \<and> c \<noteq> ''..'') (tl (split_on slash (strip_slashes m)))"
      using r canonical_path_iff by auto
    have "list_all path_char (strip_slashes m @ replicate k slash)"
      using iff(1) by (auto simp: list_all_iff)
    then have "list_all path_char m" by (simp only: k [symmetric])
    moreover have "m = slash # x # v @ replicate k slash" using k unfolding n by simp
    ultimately have "absolute_path m" by (auto simp: absolute_path_def)
    moreover have "normpath (strip_slashes m) = strip_slashes m"
      using cs normpath_path_of by auto
    ultimately show "canonical_mount_point m"
      using r n iff(2)
      by (auto simp: canonical_mount_point_def Let_def list_all_iff list_ex_iff)
  qed
qed

lemma fold_check:
  "fold_err (\<lambda>_ r. check (f r) (ok r)) () rs = Inr y \<longleftrightarrow> list_all ok rs"
  by (induction rs) (auto simp: check_def)

lemma validate_mount_point_Inr:
  "validate_mount_point m invt = Inr n \<longleftrightarrow>
     canonical_mount_point m \<and> n = strip_slashes m
     \<and> list_all (\<lambda>r. \<not> conflicting n r) (reserved_mount_points invt)"
  by (auto simp: validate_mount_point_def Let_def fold_check)

text \<open>
  C31: a mount point is accepted exactly when, up to trailing slashes, it is a canonical absolute
  path \<open>/a/b\<close> of at most 200 characters of \<open>[A-Za-z0-9._-]\<close> components that are neither \<open>.\<close>
  nor \<open>..\<close>, and neither it nor any reserved path lies inside the other. In particular the
  separate test against \<open>os.path.normpath\<close> refuses nothing that the test of the components
  lets through.
\<close>

theorem mount_point_accepted_iff:
  "validate_mount_point m invt = Inr n \<longleftrightarrow>
     length m \<le> 200 \<and> canonical_path n \<and> (\<exists>k. m = n @ replicate k slash)
     \<and> list_all (\<lambda>r. \<not> below n r \<and> \<not> below r n) (reserved_mount_points invt)"
proof -
  have "n = strip_slashes m \<and> canonical_path (strip_slashes m)
      \<longleftrightarrow> canonical_path n \<and> (\<exists>k. m = n @ replicate k slash)"
    using strip_slashes_iff [of n m] canonical_path_last [of n] by auto
  then show ?thesis
    unfolding validate_mount_point_Inr canonical_mount_point_iff conflicting_iff de_Morgan_disj
    by auto
qed

section \<open>Tags carry the configuration\<close>

lemma hd_show_nat: "0 < n \<Longrightarrow> hd (show_nat n) \<noteq> CHR ''0''"
proof (induction n rule: show_nat.induct)
  case (1 n)
  show ?case
  proof (cases "n < 10")
    case True
    have "(of_char (digit n) :: nat) \<noteq> of_char CHR ''0''"
      using True 1(2) by (simp add: of_char_digit)
    then show ?thesis using True by (subst show_nat.simps) auto
  next
    case False
    with 1 show ?thesis by (subst show_nat.simps) simp
  qed
qed

lemma positive_decimal_show_int: "0 < i \<Longrightarrow> positive_decimal (show_int i)"
  using hd_show_nat [of "nat i"] show_nat_digits [of _ "nat i"]
  by (cases "show_nat (nat i)") (auto simp: positive_decimal_def show_int_def list_all_iff)

lemma py_strip_show_int: "0 \<le> i \<Longrightarrow> py_strip (show_int i) = show_int i"
  by (simp add: show_int_def py_strip_digits list_all_iff show_nat_digits)

lemma digits_value_show_int: "0 \<le> i \<Longrightarrow> int (digits_value (show_int i)) = i"
  by (simp add: show_int_def)

lemma show_int_vpus: "show_int 0 = ''0''" "show_int 10 = ''10''" "show_int 20 = ''20''"
  by code_simp+

lemma path_char_not_space: "path_char c \<Longrightarrow> \<not> py_space c"
  by (auto simp: path_char_def py_space_def is_digit_def is_lower_alpha_def is_upper_alpha_def
      slash_def Let_def)

lemma py_strip_mount: "canonical_mount_point m \<Longrightarrow> py_strip m = m"
proof -
  assume "canonical_mount_point m"
  then have "list_all path_char m"
    by (cases m) (auto simp: canonical_mount_point_def Let_def absolute_path_def)
  then show ?thesis
    unfolding py_strip_def by (intro strip_by_no_space) (auto simp: list_all_iff path_char_not_space)
qed

lemma get_local_block_volume_config_Inr:
  assumes "get_local_block_volume_config invt = Inr (enabled, cfg)"
  shows "50 \<le> cfg_size cfg" and "cfg_vpus cfg \<in> {0, 10, 20}"
    and "\<exists>n. validate_mount_point (cfg_mount cfg) invt = Inr n"
proof -
  obtain size_in_gbs vpus n where
    vpus: "map_of performance_values (variable_or invt ''local_block_volume_performance''
        ''10. Balanced performance'') = Some vpus"
    and size: "50 \<le> size_in_gbs"
    and mount: "validate_mount_point (variable_or invt ''local_block_volume_mount_point'' ''/scratch'')
        invt = Inr n"
    and cfg: "\<lparr>cfg_size = size_in_gbs, cfg_vpus = vpus, cfg_mount =
        variable_or invt ''local_block_volume_mount_point'' ''/scratch''\<rparr> = cfg"
    using assms unfolding get_local_block_volume_config_def Let_def rbind_eq_Inr check_need_simps
      sum.inject prod.inject
    apply (elim exE conjE)
    apply (rule that)
       apply assumption
      apply assumption
     apply assumption
    apply assumption
    done
  have "vpus \<in> snd ` set performance_values"
    by (rule rev_image_eqI [OF map_of_SomeD [OF vpus]]) simp
  then show "cfg_vpus cfg \<in> {0, 10, 20}" unfolding cfg [symmetric] by (simp add: performance_values_def)
  show "50 \<le> cfg_size cfg" "\<exists>n. validate_mount_point (cfg_mount cfg) invt = Inr n"
    unfolding cfg [symmetric] using size mount by simp_all
qed

lemma launch_tags_lookup:
  "map_of (launch_freeform_tags t e cfg) tag_enabled = Some (if e then ''true'' else ''false'')"
  "map_of (launch_freeform_tags t e cfg) tag_size = Some (show_int (cfg_size cfg))"
  "map_of (launch_freeform_tags t e cfg) tag_vpus = Some (show_int (cfg_vpus cfg))"
  "map_of (launch_freeform_tags t e cfg) tag_mount = Some (cfg_mount cfg)"
  "k \<notin> set tag_keys \<Longrightarrow> map_of (launch_freeform_tags t e cfg) k = map_of (tag_dict t) k"
  by (simp_all add: launch_freeform_tags_def dupdate_def tag_enabled_def tag_size_def tag_vpus_def
      tag_mount_def tag_keys_def)

lemma launch_tags_missing: "filter (\<lambda>k. map_of (launch_freeform_tags t e cfg) k = None) tag_keys = []"
  by (simp add: tag_keys_def launch_tags_lookup)

lemma tag_keys_not_Nil: "[] \<noteq> tag_keys"
  by (simp add: tag_keys_def)

text \<open>
  C29: the tags a new node is launched with say again what the inventory configured. Reading
  them back on the launched instance, under the same inventory and the cluster its tags name,
  gives the configuration the launch used, and no volume when the feature was off.
\<close>

theorem launch_tags_roundtrip:
  assumes "get_local_block_volume_config invt = Inr (enabled, cfg)"
    and "or_else (map_of (tag_dict t) ''parent_cluster'') (map_of (tag_dict t) ''cluster_name'')
      = Some cluster"
    and "instance_tags launched = Some (launch_freeform_tags t enabled cfg)"
  shows "get_instance_config iid launched invt cluster = Inr (if enabled then Some cfg else None)"
proof -
  note cfg = get_local_block_volume_config_Inr [OF assms(1)]
  obtain n where n: "validate_mount_point (cfg_mount cfg) invt = Inr n" using cfg(3) by auto
  then have mount: "py_strip (cfg_mount cfg) = cfg_mount cfg"
    by (intro py_strip_mount) (simp add: validate_mount_point_Inr)
  let ?d = "launch_freeform_tags t enabled cfg"
  have d: "tag_dict (instance_tags launched) = ?d" by (simp add: assms(3) tag_dict_def)
  have flag: "py_lower (tag_value ?d tag_enabled) = (if enabled then ''true'' else ''false'')"
    by (simp add: tag_value_def launch_tags_lookup) (intro conjI impI; code_simp)
  have cluster: "map_of ?d ''parent_cluster'' = map_of (tag_dict t) ''parent_cluster''"
    "map_of ?d ''cluster_name'' = map_of (tag_dict t) ''cluster_name''"
    by (intro launch_tags_lookup(5);
        simp add: tag_keys_def tag_enabled_def tag_size_def tag_vpus_def tag_mount_def)+
  have size: "tag_value ?d tag_size = show_int (cfg_size cfg)"
    "tag_value ?d tag_vpus = show_int (cfg_vpus cfg)" "tag_value ?d tag_mount = cfg_mount cfg"
    using cfg mount by (auto simp: tag_value_def launch_tags_lookup py_strip_show_int)
  have "50 \<le> digits_value (show_int (cfg_size cfg))"
    using cfg(1) digits_value_show_int [of "cfg_size cfg"] by linarith
  moreover have "show_int (cfg_vpus cfg) \<in> {''0'', ''10'', ''20''}"
    using cfg(2) show_int_vpus by auto
  moreover have "positive_decimal (show_int (cfg_size cfg))"
    using cfg(1) by (intro positive_decimal_show_int) simp
  moreover have "0 \<le> cfg_vpus cfg" "0 \<le> cfg_size cfg" using cfg by auto
  ultimately show ?thesis
    using assms(2) n
    by (simp add: get_instance_config_def Let_def d launch_tags_missing flag size cluster
        tag_keys_not_Nil digits_value_show_int)
qed

definition sample_inventory :: inventory where
  "sample_inventory =
     [(''all:vars'', [''cluster_name=hpc'' @ [CHR 0x0A], ''use_local_block_volume=true'' @ [CHR 0x0A],
        ''local_block_volume_size=750'' @ [CHR 0x0A],
        ''local_block_volume_mount_point=/scratch/'' @ [CHR 0x0A]])]"

definition sample_volume_config :: volume_config where
  "sample_volume_config = \<lparr>cfg_size = 750, cfg_vpus = 10, cfg_mount = ''/scratch/''\<rparr>"

lemma sample_inventory_config:
  "get_local_block_volume_config sample_inventory = Inr (True, sample_volume_config)"
  by code_simp

lemma launch_tags_roundtrip_witness:
  "get_instance_config ''ocid1.instance.a''
     \<lparr>instance_name = ''hpc-node-4'', instance_compartment = ''c'', instance_state = ''RUNNING'',
      instance_tags = Some (launch_freeform_tags
        (Some [(''parent_cluster'', ''hpc''), (tag_size, ''50'')]) True sample_volume_config)\<rparr>
     sample_inventory ''hpc'' = Inr (Some sample_volume_config)"
proof -
  have "or_else (map_of (tag_dict (Some [(''parent_cluster'', ''hpc''), (tag_size, ''50'')]))
      ''parent_cluster'') (map_of (tag_dict (Some [(''parent_cluster'', ''hpc''), (tag_size, ''50'')]))
      ''cluster_name'') = Some ''hpc''"
    by code_simp
  from launch_tags_roundtrip [OF sample_inventory_config this] show ?thesis by simp
qed

end
