(* ===== verification/Volume_Attachment.thy ===== *)
theory Volume_Attachment
  imports Local_Volume
begin

text \<open>
  Finding the attachment of an instance's local Block Volume and waiting until it is usable
  (\<open>get_local_block_volume_attachment\<close> of \<open>bin/resize.py\<close>), and the readings of the cloud the
  other operations share. Each reading of the attachments and of a volume enters the trace.
\<close>

section \<open>The checks\<close>

datatype volume_scope = Cluster_scope | Instance_scope

definition attachment_suffix :: string where
  "attachment_suffix = ''-local-scratch-attachment''"

definition volume_suffix :: string where
  "volume_suffix = ''-local-scratch''"

definition live_local :: "attachment \<Rightarrow> bool" where
  "live_local a \<longleftrightarrow> at_device a = Some device \<and> at_state a \<noteq> ''DETACHED''"

definition lower_or_empty :: "string option \<Rightarrow> string" where
  "lower_or_empty s = (case s of None \<Rightarrow> [] | Some t \<Rightarrow> py_lower t)"

text \<open>The scope of an attachment and the name its volume must have.\<close>

definition attachment_scope ::
  "string \<Rightarrow> string \<Rightarrow> string \<Rightarrow> attachment \<Rightarrow> resize_error + volume_scope \<times> string" where
  "attachment_scope cluster name iid a =
     rbind (check (RuntimeError (''The vdc attachment is not iSCSI for instance '' @ iid))
       (lower_or_empty (at_type a) = ''iscsi'')) (\<lambda>_.
     rbind (check (RuntimeError ''The local Block Volume attachment belongs to another instance'')
       (case at_instance a of None \<Rightarrow> True | Some i \<Rightarrow> i = iid)) (\<lambda>_.
     if at_name a = Some (cluster @ attachment_suffix)
     then Inr (Cluster_scope, cluster @ volume_suffix)
     else if at_name a = Some (name @ attachment_suffix)
     then Inr (Instance_scope, name @ volume_suffix)
     else Inl (RuntimeError
       (''The vdc attachment has an unexpected display name for instance '' @ iid))))"

definition check_launch_marker :: "string \<Rightarrow> volume_scope \<Rightarrow> attachment \<Rightarrow> resize_error + unit" where
  "check_launch_marker iid scope a =
     check (RuntimeError (''The local scratch volume was not created with instance '' @ iid))
       (\<not> (scope = Instance_scope \<and> at_at_launch a \<noteq> Some True))"

definition check_volume ::
  "string \<Rightarrow> string \<Rightarrow> volume_config \<Rightarrow> volume_scope \<times> string \<Rightarrow> volume \<Rightarrow> resize_error + unit" where
  "check_volume cluster iid cfg expected v =
     (let d = tag_dict (vol_tags v);
          parent = parent_cluster d;
          purpose = map_of d ''oci_hpc_local_scratch''
      in rbind (check (RuntimeError
           (''The local scratch volume has an unexpected display name for instance '' @ iid))
           (vol_name v = Some (snd expected))) (\<lambda>_.
         rbind (case fst expected of
             Cluster_scope \<Rightarrow>
               check (RuntimeError ''The cluster-managed local scratch volume has invalid ownership tags'')
                 (\<not> (parent \<noteq> Some cluster \<or> purpose \<noteq> Some ''true''))
           | Instance_scope \<Rightarrow>
               rbind (check (RuntimeError
                   (''The local scratch volume parent tag does not match cluster '' @ cluster))
                 (\<not> (parent \<noteq> None \<and> parent \<noteq> Some cluster))) (\<lambda>_.
               check (RuntimeError ''The local scratch volume purpose tag is invalid'')
                 (\<not> (purpose \<noteq> None \<and> purpose \<noteq> Some ''true'')))) (\<lambda>_.
         check (RuntimeError
           (''The local scratch volume does not match its instance tags for instance '' @ iid))
           (\<not> (vol_size v \<noteq> Some (cfg_size cfg) \<or> vol_vpus v \<noteq> Some (cfg_vpus cfg))))))"

text \<open>The iSCSI coordinates a node needs are present.\<close>

definition iscsi_ready :: "attachment \<Rightarrow> bool" where
  "iscsi_ready a \<longleftrightarrow>
     (case at_ipv4 a of None \<Rightarrow> False | Some s \<Rightarrow> s \<noteq> [])
     \<and> (case at_port a of None \<Rightarrow> False | Some p \<Rightarrow> 0 < p)
     \<and> (case at_iqn a of None \<Rightarrow> False | Some s \<Rightarrow> s \<noteq> [])"

section \<open>Readings\<close>

definition read_attachments ::
  "'w cloud \<Rightarrow> string \<Rightarrow> string \<Rightarrow> ('w, attachment list) resize" where
  "read_attachments c compartment iid =
     reading (Saw_attachments iid) (list_volume_attachments c compartment iid)"

definition read_volume :: "'w cloud \<Rightarrow> string \<Rightarrow> ('w, volume) resize" where
  "read_volume c vid = reading (Saw_volume vid) (get_volume c vid)"

text \<open>\<open>except ServiceError as error: if error.status != 404: raise\<close>: \<open>None\<close> is "not found".\<close>

definition if_found :: "('w, 'a) resize \<Rightarrow> ('w, 'a option) resize" where
  "if_found m =
     ctry (cbind m (\<lambda>x. creturn (Some x)))
       (\<lambda>e. if e = Api (ServiceError 404) then creturn None else craise e)"

section \<open>Waiting for the attachment\<close>

definition attachment_round ::
  "'w cloud \<Rightarrow> string \<Rightarrow> string \<Rightarrow> string \<Rightarrow> string \<Rightarrow> volume_config \<Rightarrow> unit
     \<Rightarrow> ('w, attachment + unit) resize" where
  "attachment_round c compartment iid cluster name cfg _ =
     cbind (read_attachments c compartment iid) (\<lambda>attachments.
     case filter live_local attachments of
       [] \<Rightarrow> creturn (Inr ())
     | [a] \<Rightarrow>
         cbind (clift (attachment_scope cluster name iid a)) (\<lambda>expected.
         if at_state a \<noteq> ''ATTACHED'' then creturn (Inr ())
         else cbind (clift (check_launch_marker iid (fst expected) a)) (\<lambda>_.
         cbind (if_found (read_volume c (at_volume a))) (\<lambda>found.
         case found of
           None \<Rightarrow> creturn (Inr ())
         | Some v \<Rightarrow>
             cbind (clift (check_volume cluster iid cfg expected v)) (\<lambda>_.
             if iscsi_ready a then creturn (Inl a) else creturn (Inr ())))))
     | _ \<Rightarrow> craise (RuntimeError
         (''Multiple local Block Volume attachments were found for instance '' @ iid)))"

text \<open>The caller passes the configuration read from the tags (\<open>None\<close>: no volume expected).\<close>

definition get_local_block_volume_attachment ::
  "'w cloud \<Rightarrow> string \<Rightarrow> string \<Rightarrow> rat \<Rightarrow> volume_config option \<Rightarrow> string \<Rightarrow> cloud_instance
     \<Rightarrow> ('w, attachment) resize" where
  "get_local_block_volume_attachment c compartment iid max_wait expected_config cluster inst =
     cbind (clift (need (RuntimeError (''Instance '' @ iid @ '' does not expect a local Block Volume''))
       expected_config)) (\<lambda>cfg.
     cbind (clock c) (\<lambda>start.
     poll_until c (rounds_for max_wait 5) (start + max_wait) 5
       (RuntimeError (''The local Block Volume attachment did not become ready for instance '' @ iid))
       (attachment_round c compartment iid cluster (instance_name inst) cfg) ()))"

text \<open>Called without a configuration, the function reads the instance and its tags itself.\<close>

definition get_instance_attachment ::
  "'w cloud \<Rightarrow> inventory \<Rightarrow> string \<Rightarrow> string \<Rightarrow> string \<Rightarrow> ('w, attachment) resize" where
  "get_instance_attachment c invt cluster compartment iid =
     cbind (api (get_instance c iid)) (\<lambda>inst.
     cbind (clift (get_instance_config iid inst invt cluster)) (\<lambda>expected_config.
     get_local_block_volume_attachment c compartment iid 300 expected_config cluster inst))"

lemmas attachment_equations [code] =
  read_attachments_def [THEN fun_cong] read_volume_def [THEN fun_cong] if_found_def [THEN fun_cong]
  attachment_round_def [THEN fun_cong] get_local_block_volume_attachment_def [THEN fun_cong]
  get_instance_attachment_def [THEN fun_cong]

section \<open>What an accepted attachment is\<close>

text \<open>
  The specification: the one live attachment of the device, of type iSCSI, named after the
  cluster or the instance, attached, with iSCSI coordinates; and a volume of the right name,
  size and performance, whose tags name the cluster. A volume of the cluster must carry its
  ownership tags; a volume of the instance must have been created with it.
\<close>

definition usable_attachment :: "string \<Rightarrow> attachment list \<Rightarrow> attachment \<Rightarrow> bool" where
  "usable_attachment iid attachments a \<longleftrightarrow>
     filter live_local attachments = [a] \<and> at_state a = ''ATTACHED'' \<and> iscsi_ready a
     \<and> lower_or_empty (at_type a) = ''iscsi'' \<and> at_instance a \<in> {None, Some iid}"

definition own_volume ::
  "string \<Rightarrow> string \<Rightarrow> volume_config \<Rightarrow> attachment \<Rightarrow> volume \<Rightarrow> bool" where
  "own_volume cluster name cfg a v \<longleftrightarrow>
     vol_size v = Some (cfg_size cfg) \<and> vol_vpus v = Some (cfg_vpus cfg)
     \<and> (at_name a = Some (cluster @ attachment_suffix) \<and> vol_name v = Some (cluster @ volume_suffix)
         \<and> parent_cluster (tag_dict (vol_tags v)) = Some cluster
         \<and> map_of (tag_dict (vol_tags v)) ''oci_hpc_local_scratch'' = Some ''true''
        \<or> at_name a = Some (name @ attachment_suffix) \<and> vol_name v = Some (name @ volume_suffix)
         \<and> at_at_launch a = Some True
         \<and> parent_cluster (tag_dict (vol_tags v)) \<in> {None, Some cluster}
         \<and> map_of (tag_dict (vol_tags v)) ''oci_hpc_local_scratch'' \<in> {None, Some ''true''})"

lemma attachment_scope_Inr:
  "attachment_scope cluster name iid a = Inr (scope, vname) \<longleftrightarrow>
     lower_or_empty (at_type a) = ''iscsi'' \<and> at_instance a \<in> {None, Some iid}
     \<and> (at_name a = Some (cluster @ attachment_suffix)
          \<and> scope = Cluster_scope \<and> vname = cluster @ volume_suffix
        \<or> at_name a \<noteq> Some (cluster @ attachment_suffix)
          \<and> at_name a = Some (name @ attachment_suffix)
          \<and> scope = Instance_scope \<and> vname = name @ volume_suffix)"
  unfolding attachment_scope_def rbind_eq_Inr check_need_simps
  by (cases "at_instance a") (simp_all, blast+)

lemma check_volume_Inr:
  "check_volume cluster iid cfg (scope, vname) v = Inr () \<longleftrightarrow>
     vol_name v = Some vname \<and> vol_size v = Some (cfg_size cfg) \<and> vol_vpus v = Some (cfg_vpus cfg)
     \<and> (case scope of
          Cluster_scope \<Rightarrow> parent_cluster (tag_dict (vol_tags v)) = Some cluster
            \<and> map_of (tag_dict (vol_tags v)) ''oci_hpc_local_scratch'' = Some ''true''
        | Instance_scope \<Rightarrow> parent_cluster (tag_dict (vol_tags v)) \<in> {None, Some cluster}
            \<and> map_of (tag_dict (vol_tags v)) ''oci_hpc_local_scratch'' \<in> {None, Some ''true''})"
  unfolding check_volume_def Let_def rbind_eq_Inr check_need_simps
  by (cases scope) (simp_all, blast+)

section \<open>Only the instance's own volume\<close>

lemma read_attachments_quiet [quiet_intros]:
  "(\<And>xs j. P (Saw_attachments iid xs) j) \<Longrightarrow> keeps (quiet P) (read_attachments c compartment iid)"
  unfolding read_attachments_def by (intro quiet_intros)

lemma read_volume_quiet [quiet_intros]:
  "(\<And>v j. P (Saw_volume vid v) j) \<Longrightarrow> keeps (quiet P) (read_volume c vid)"
  unfolding read_volume_def by (intro quiet_intros)

lemma if_found_quiet [quiet_intros]: "keeps (quiet P) m \<Longrightarrow> keeps (quiet P) (if_found m)"
  unfolding if_found_def by (intro quiet_intros)

text \<open>Readings only: no entry of the trace is a request.\<close>

definition is_reading :: "event \<Rightarrow> char doc \<Rightarrow> bool" where
  "is_reading ev j \<longleftrightarrow> (case ev of Saw_volume _ _ \<Rightarrow> True | Saw_attachments _ _ \<Rightarrow> True | _ \<Rightarrow> False)"

lemma attachment_round_quiet [quiet_intros]:
  "keeps (quiet is_reading) (attachment_round c compartment iid cluster name cfg b)"
  unfolding attachment_round_def by (intro quiet_intros) (simp_all add: is_reading_def)

lemma get_local_block_volume_attachment_quiet [quiet_intros]:
  "keeps (quiet is_reading)
     (get_local_block_volume_attachment c compartment iid w expected_config cluster inst)"
  unfolding get_local_block_volume_attachment_def by (intro quiet_intros)

lemma reading_Inr:
  "reading ev call s = (Inr x, s') \<longleftrightarrow>
     (\<exists>w. call (world_of s) = (Inr x, w) \<and>
       s' = s\<lparr>world_of := w, trace := trace s @ [(ev x, journal s)]\<rparr>)"
  by (auto simp: reading_def cbind_Inr_iff api_Inr record_event_def)

lemma if_found_Some:
  "if_found m s = (Inr (Some x), s') \<longleftrightarrow> m s = (Inr x, s')"
  by (auto simp: if_found_def ctry_apply cbind_apply split: prod.splits sum.splits)

lemma attachment_round_Inl:
  "attachment_round c compartment iid cluster name cfg b s = (Inr (Inl a), s') \<longleftrightarrow>
     (\<exists>attachments s1 expected v.
        read_attachments c compartment iid s = (Inr attachments, s1)
        \<and> filter live_local attachments = [a]
        \<and> attachment_scope cluster name iid a = Inr expected
        \<and> at_state a = ''ATTACHED''
        \<and> check_launch_marker iid (fst expected) a = Inr ()
        \<and> read_volume c (at_volume a) s1 = (Inr v, s')
        \<and> check_volume cluster iid cfg expected v = Inr ()
        \<and> iscsi_ready a)" (is "?l \<longleftrightarrow> ?r")
proof
  assume l: ?l
  then obtain attachments s1 where one: "read_attachments c compartment iid s = (Inr attachments, s1)"
    unfolding attachment_round_def cbind_Inr_iff by blast
  with l obtain x where x: "filter live_local attachments = [x]"
    by (auto simp: attachment_round_def cbind_Inr_iff one split: list.splits)
  from l obtain expected found s2 where
    two: "attachment_scope cluster name iid x = Inr expected" "at_state x = ''ATTACHED''"
      "check_launch_marker iid (fst expected) x = Inr ()"
      "if_found (read_volume c (at_volume x)) s1 = (Inr found, s2)"
    and rest: "(case found of None \<Rightarrow> creturn (Inr ())
         | Some v \<Rightarrow> cbind (clift (check_volume cluster iid cfg expected v)) (\<lambda>_.
             if iscsi_ready x then creturn (Inl x) else creturn (Inr ()))) s2 = (Inr (Inl a), s')"
    by (auto simp: attachment_round_def cbind_Inr_iff one x split: if_splits)
  from rest obtain v where "found = Some v" "check_volume cluster iid cfg expected v = Inr ()"
      "iscsi_ready x" "x = a" "s2 = s'"
    by (auto simp: cbind_Inr_iff split: option.splits if_splits)
  with one two x show ?r
    by (auto simp: if_found_Some)
next
  assume ?r
  then obtain attachments s1 expected v where
    one: "read_attachments c compartment iid s = (Inr attachments, s1)"
      "filter live_local attachments = [a]"
    and two: "attachment_scope cluster name iid a = Inr expected" "at_state a = ''ATTACHED''"
      "check_launch_marker iid (fst expected) a = Inr ()"
      "check_volume cluster iid cfg expected v = Inr ()" "iscsi_ready a"
    and three: "read_volume c (at_volume a) s1 = (Inr v, s')"
    by blast
  have "if_found (read_volume c (at_volume a)) s1 = (Inr (Some v), s')"
    using three by (simp add: if_found_Some)
  with one two show ?l
    by (simp add: attachment_round_def cbind_Inr_iff)
qed

lemma accepted_iff:
  "filter live_local attachments = [a] \<and> attachment_scope cluster name iid a = Inr expected
     \<and> at_state a = ''ATTACHED'' \<and> check_launch_marker iid (fst expected) a = Inr ()
     \<and> check_volume cluster iid cfg expected v = Inr () \<and> iscsi_ready a
   \<Longrightarrow> usable_attachment iid attachments a \<and> own_volume cluster name cfg a v"
  by (cases expected)
    (auto simp: usable_attachment_def own_volume_def attachment_scope_Inr check_volume_Inr
      check_launch_marker_def)

lemma attachment_accepted:
  assumes "get_local_block_volume_attachment c compartment iid w (Some cfg) cluster inst s = (Inr a, s')"
  shows "\<exists>earlier attachments v.
      trace s' = trace s @ earlier @ [(Saw_attachments iid attachments, journal s),
                                      (Saw_volume (at_volume a) v, journal s)]
      \<and> list_all (\<lambda>(ev, _). is_reading ev (journal s)) earlier
      \<and> usable_attachment iid attachments a \<and> own_volume cluster (instance_name inst) cfg a v
      \<and> journal s' = journal s"
proof -
  from assms obtain n d e where
    "poll_until c n d 5 e (attachment_round c compartment iid cluster (instance_name inst) cfg) () s
       = (Inr a, s')"
    by (auto simp: get_local_block_volume_attachment_def cbind_run)
  from poll_until_result [OF this attachment_round_quiet] obtain b s1 where
    last: "attachment_round c compartment iid cluster (instance_name inst) cfg b s1 = (Inr (Inl a), s')"
    and before: "quiet is_reading s s1"
    by blast
  from last obtain attachments s2 expected v where
    accepted: "filter live_local attachments = [a] \<and>
        attachment_scope cluster (instance_name inst) iid a = Inr expected
        \<and> at_state a = ''ATTACHED'' \<and> check_launch_marker iid (fst expected) a = Inr ()
        \<and> check_volume cluster iid cfg expected v = Inr () \<and> iscsi_ready a"
    and reads: "read_attachments c compartment iid s1 = (Inr attachments, s2)"
      "read_volume c (at_volume a) s2 = (Inr v, s')"
    unfolding attachment_round_Inl by blast
  from before obtain earlier where earlier: "journal s1 = journal s" "trace s1 = trace s @ earlier"
      "list_all (\<lambda>(ev, j). j = journal s \<and> is_reading ev j) earlier"
    by (auto simp: quiet_def)
  have "trace s' = trace s @ earlier @ [(Saw_attachments iid attachments, journal s),
                                      (Saw_volume (at_volume a) v, journal s)]
      \<and> journal s' = journal s"
    using reads earlier(1,2) by (auto simp: read_attachments_def read_volume_def reading_Inr)
  moreover have "list_all (\<lambda>(ev, _). is_reading ev (journal s)) earlier"
    using earlier(3) by (auto simp: list_all_iff)
  ultimately show ?thesis using accepted_iff [OF accepted] by blast
qed

text \<open>
  C28: the attachment the program hands out is the instance's own. Whatever the cloud answers,
  an accepted attachment is the only live one of the device in the last reading of the
  instance's attachments, it is of type iSCSI, attached and complete, and the last reading of
  its volume shows the configured size and performance and the ownership the names and tags
  must prove. Looking for it asks for no change and leaves the journal alone.
\<close>

theorem attachment_is_own:
  assumes "get_local_block_volume_attachment c compartment iid w (Some cfg) cluster inst s = (Inr a, s')"
  shows "\<exists>earlier attachments v.
      trace s' = trace s @ earlier @ [(Saw_attachments iid attachments, journal s),
                                      (Saw_volume (at_volume a) v, journal s)]
      \<and> list_all (\<lambda>(ev, _). is_reading ev (journal s)) earlier
      \<and> usable_attachment iid attachments a \<and> own_volume cluster (instance_name inst) cfg a v
      \<and> journal s' = journal s"
  using assms by (rule attachment_accepted)

definition sample_attachment :: attachment where
  "sample_attachment =
     \<lparr>at_name = Some ''hpc-local-scratch-attachment'', at_device = Some device,
      at_state = ''ATTACHED'', at_type = Some ''iSCSI'', at_instance = Some ''ocid1.instance.a'',
      at_volume = ''ocid1.volume.a'', at_at_launch = None, at_ipv4 = Some ''169.254.2.2'',
      at_port = Some 3260, at_iqn = Some ''iqn.2015-12.com.oracleiaas:a''\<rparr>"

definition sample_volume :: volume where
  "sample_volume =
     \<lparr>vol_name = Some ''hpc-local-scratch'', vol_state = ''AVAILABLE'',
      vol_tags = Some [(''parent_cluster'', ''hpc''), (''oci_hpc_local_scratch'', ''true'')],
      vol_size = Some 750, vol_vpus = Some 10, vol_compartment = Some ''c''\<rparr>"

definition sample_instance :: cloud_instance where
  "sample_instance =
     \<lparr>instance_name = ''hpc-node-4'', instance_compartment = ''c'', instance_state = ''RUNNING'',
      instance_tags = Some (launch_freeform_tags (Some [(''parent_cluster'', ''hpc'')]) True
        sample_volume_config)\<rparr>"

definition sample_cloud :: "nat cloud" where
  "sample_cloud = refusing_cloud
     \<lparr>get_instance := \<lambda>_. creturn sample_instance,
      list_volume_attachments := \<lambda>_ _. creturn [sample_attachment],
      get_volume := \<lambda>_. creturn sample_volume\<rparr>"

definition sample_run_start :: "nat run" where
  "sample_run_start = \<lparr>world_of = 0, journal = Absent, tf_state = None, tf_variables = None, files = [], trace = []\<rparr>"

lemma attachment_is_own_witness:
  "\<exists>earlier attachments v.
      trace (snd (get_local_block_volume_attachment sample_cloud ''c'' ''ocid1.instance.a'' 300
        (Some sample_volume_config) ''hpc'' sample_instance sample_run_start))
        = trace sample_run_start
          @ earlier @ [(Saw_attachments ''ocid1.instance.a'' attachments, journal sample_run_start),
            (Saw_volume (at_volume sample_attachment) v, journal sample_run_start)]
      \<and> list_all (\<lambda>(ev, _). is_reading ev (journal sample_run_start)) earlier
      \<and> usable_attachment ''ocid1.instance.a'' attachments sample_attachment
      \<and> own_volume ''hpc'' (instance_name sample_instance) sample_volume_config sample_attachment v
      \<and> journal (snd (get_local_block_volume_attachment sample_cloud ''c'' ''ocid1.instance.a'' 300
        (Some sample_volume_config) ''hpc'' sample_instance sample_run_start))
        = journal sample_run_start"
proof -
  let ?r = "get_local_block_volume_attachment sample_cloud ''c'' ''ocid1.instance.a'' 300
        (Some sample_volume_config) ''hpc'' sample_instance sample_run_start"
  have "fst ?r = Inr sample_attachment" by code_simp
  then have "?r = (Inr sample_attachment, snd ?r)" by (metis prod.collapse)
  from attachment_is_own [OF this] show ?thesis .
qed

section \<open>The volume of a launched node is found\<close>

lemma rounds_for_Suc: "\<exists>k. rounds_for limit step = Suc k"
  by (simp add: rounds_for_def)

lemma attachment_found:
  assumes "attachment_round c compartment iid cluster (instance_name inst) cfg () s = (Inr (Inl a), s')"
  shows "get_local_block_volume_attachment c compartment iid w (Some cfg) cluster inst s = (Inr a, s')"
proof -
  obtain k where "rounds_for w 5 = Suc k" using rounds_for_Suc by blast
  then show ?thesis
    using assms by (simp add: get_local_block_volume_attachment_def cbind_run)
qed

text \<open>
  A node launched with a local volume is recognised. When the cloud shows the attachment
  and the volume the launch asked for (names, size, performance and device of the launch
  details, created at launch, attached over iSCSI with its coordinates) the wait ends in its
  first round with that attachment, provided the node is not itself named like the cluster.
\<close>

lemma launched_volume_is_found:
  assumes "launch_volume_attachments name True cfg = [lv]"
    and "name = instance_name inst" and "name \<noteq> cluster"
    and "at_name a = Some (lv_attachment lv) \<and> at_device a = Some (lv_device lv)
      \<and> at_state a = ''ATTACHED'' \<and> at_type a = Some ''iscsi'' \<and> at_instance a = Some iid
      \<and> at_at_launch a = Some True \<and> iscsi_ready a"
    and "vol_name v = Some (lv_name lv) \<and> vol_size v = Some (lv_size lv)
      \<and> vol_vpus v = Some (lv_vpus lv) \<and> parent_cluster (tag_dict (vol_tags v)) \<in> {None, Some cluster}
      \<and> map_of (tag_dict (vol_tags v)) ''oci_hpc_local_scratch'' = None"
    and "list_volume_attachments c compartment iid (world_of s) = (Inr [a], w1)"
    and "get_volume c (at_volume a) w1 = (Inr v, w2)"
  shows "fst (get_local_block_volume_attachment c compartment iid wait (Some cfg) cluster inst s) = Inr a"
proof -
  have lv: "lv = \<lparr>lv_name = name @ volume_suffix, lv_size = cfg_size cfg,
      lv_vpus = cfg_vpus cfg, lv_attachment = name @ attachment_suffix, lv_device = device\<rparr>"
    using assms(1)
    by (simp add: launch_volume_attachments_def volume_suffix_def attachment_suffix_def)
  obtain s1 where s1: "read_attachments c compartment iid s = (Inr [a], s1)" "world_of s1 = w1"
    using assms(6) by (auto simp: read_attachments_def reading_Inr)
  obtain s2 where s2: "read_volume c (at_volume a) s1 = (Inr v, s2)"
    using assms(7) s1(2) by (auto simp: read_volume_def reading_Inr)
  have live: "live_local a"
    using assms(4) lv by (simp add: live_local_def)
  have "py_lower ''iscsi'' = ''iscsi''" by code_simp
  then have scope: "attachment_scope cluster name iid a = Inr (Instance_scope, name @ volume_suffix)"
    using assms(3,4) by (simp add: attachment_scope_Inr lower_or_empty_def lv)
  have volume: "check_volume cluster iid cfg (Instance_scope, name @ volume_suffix) v = Inr ()"
    using assms(5) by (simp add: check_volume_Inr lv)
  have marker: "check_launch_marker iid Instance_scope a = Inr ()"
    using assms(4) by (simp add: check_launch_marker_def)
  have "attachment_round c compartment iid cluster (instance_name inst) cfg () s = (Inr (Inl a), s2)"
    unfolding attachment_round_Inl
    using s1 s2 live scope volume marker assms(2,4)
    by (intro exI [of _ "[a]"] exI [of _ s1] exI [of _ "(Instance_scope, name @ volume_suffix)"]
        exI [of _ v]) simp
  from attachment_found [OF this] show ?thesis by simp
qed

definition launched_attachment :: attachment where
  "launched_attachment = sample_attachment
     \<lparr>at_name := Some ''hpc-node-4-local-scratch-attachment'', at_type := Some ''iscsi'',
      at_at_launch := Some True\<rparr>"

definition launched_volume :: volume where
  "launched_volume = sample_volume
     \<lparr>vol_name := Some ''hpc-node-4-local-scratch'', vol_tags := None\<rparr>"

definition launched_cloud :: "nat cloud" where
  "launched_cloud = refusing_cloud
     \<lparr>list_volume_attachments := \<lambda>_ _. creturn [launched_attachment],
      get_volume := \<lambda>_. creturn launched_volume\<rparr>"

lemma launched_volume_is_found_witness:
  "fst (get_local_block_volume_attachment launched_cloud ''c'' ''ocid1.instance.a'' 300
     (Some sample_volume_config) ''hpc'' sample_instance sample_run_start) = Inr launched_attachment"
proof (rule launched_volume_is_found
    [where name = "''hpc-node-4''" and v = launched_volume and ?w1.0 = 0 and ?w2.0 = 0])
  show "launch_volume_attachments ''hpc-node-4'' True sample_volume_config =
      [\<lparr>lv_name = ''hpc-node-4-local-scratch'', lv_size = 750, lv_vpus = 10,
        lv_attachment = ''hpc-node-4-local-scratch-attachment'', lv_device = device\<rparr>]"
    by code_simp
qed (code_simp+)

end
