(* ===== verification/Journal.thy ===== *)
theory Journal
  imports Cloud
begin

text \<open>
  The journal of pending volume deletions (\<open>.pending-local-block-volume-deletions.json\<close>,
  \<open>bin/resize.py\<close>): a record is written before a node with a managed volume is taken out of its
  pool, and stays until the removal is complete. The records are the JSON objects of the file;
  reading validates each of them and refuses two for one volume.
\<close>

section \<open>Records\<close>

type_synonym deletion = "char jdict"

definition required_string_keys :: "string list" where
  "required_string_keys =
     [''cluster_name'', ''compartment_id'', ''instance_id'', ''instance_display_name'',
      ''instance_private_ip'', ''instance_pool_id'', ''volume_id'', ''volume_display_name'']"

text \<open>\<open>not isinstance(v, bool) and isinstance(v, int) and v >= low\<close>.\<close>

definition int_at_least :: "int \<Rightarrow> char json \<Rightarrow> bool" where
  "int_at_least low v \<longleftrightarrow> (case as_int v of None \<Rightarrow> False | Some i \<Rightarrow> low \<le> i)"

definition journal_error :: "string \<Rightarrow> resize_error" where
  "journal_error text = RuntimeError (''The pending local Block Volume deletion record '' @ text)"

definition validate_record :: "char json \<Rightarrow> resize_error + deletion" where
  "validate_record v =
     rbind (need (journal_error ''is not an object'') (as_obj v)) (\<lambda>r.
     rbind (fold_err (\<lambda>_ key. check (journal_error (''has an invalid '' @ key))
       (nonempty_str (jget r key) \<noteq> None)) () required_string_keys) (\<lambda>_.
     rbind (check (journal_error ''has an invalid size_in_gbs'')
       (int_at_least 50 (jget r ''size_in_gbs''))) (\<lambda>_.
     rbind (check (journal_error ''has an invalid vpus_per_gb'')
       (list_ex (py_eq (jget r ''vpus_per_gb'')) [JInt 0, JInt 10, JInt 20])) (\<lambda>_.
     rbind (check (journal_error ''has an invalid instance_pool_size_before_removal'')
       (int_at_least 1 (jget r ''instance_pool_size_before_removal''))) (\<lambda>_.
     Inr r)))))"

text \<open>\<open>record[key]\<close> for the string members of a validated record.\<close>

definition str_of :: "deletion \<Rightarrow> string \<Rightarrow> string" where
  "str_of r key = (case as_str (jget r key) of None \<Rightarrow> [] | Some s \<Rightarrow> s)"

definition volume_id :: "deletion \<Rightarrow> string" where
  "volume_id r = str_of r ''volume_id''"

definition pool_size_before :: "deletion \<Rightarrow> int" where
  "pool_size_before r =
     (case as_int (jget r ''instance_pool_size_before_removal'') of None \<Rightarrow> 0 | Some i \<Rightarrow> i)"

definition same_record :: "deletion \<Rightarrow> deletion \<Rightarrow> bool" where
  "same_record r q = py_eq (JObj r) (JObj q)"

section \<open>Reading and writing the file\<close>

definition load_step :: "string set \<times> deletion list \<Rightarrow> char json
    \<Rightarrow> resize_error + string set \<times> deletion list" where
  "load_step st v =
     rbind (validate_record v) (\<lambda>r.
     rbind (check (RuntimeError
       ''The pending local Block Volume deletion file contains a duplicate volume OCID'')
       (volume_id r \<notin> fst st)) (\<lambda>_.
     Inr (insert (volume_id r) (fst st), snd st @ [r])))"

definition load_journal :: "char doc \<Rightarrow> resize_error + deletion list" where
  "load_journal doc =
     (case doc of
        Absent \<Rightarrow> Inr []
      | Unreadable \<Rightarrow> Inl (RuntimeError ''Failed to read pending local Block Volume deletions'')
      | Doc v \<Rightarrow>
          (let malformed = RuntimeError
             ''The pending local Block Volume deletion file has an invalid format''
           in rbind (need malformed (as_obj v)) (\<lambda>d.
              rbind (check malformed (py_eq (jget d ''version'') (JInt 1))) (\<lambda>_.
              rbind (need malformed (as_arr (jget d ''deletions''))) (\<lambda>deletions.
              rbind (fold_err load_step ({}, []) deletions) (\<lambda>st. Inr (snd st)))))))"

definition journal_doc :: "deletion list \<Rightarrow> char doc" where
  "journal_doc rs =
     (if rs = [] then Absent
      else Doc (JObj [(''deletions'', JArr (map JObj rs)), (''version'', JInt 1)]))"

text \<open>
  \<open>load_pending_local_block_volume_deletions\<close> and
  \<open>write_pending_local_block_volume_deletions\<close>. The file is replaced as a whole; the operating
  system may refuse, before or after the replacement.
\<close>

definition load_deletions :: "('w, deletion list) resize" where
  "load_deletions = (\<lambda>s. (load_journal (journal s), s))"

definition put_journal :: "'w cloud \<Rightarrow> char doc \<Rightarrow> ('w, unit) resize" where
  "put_journal c doc =
     (\<lambda>s. case replace_journal c (world_of s) of
        (Written, w) \<Rightarrow> (Inr (), s\<lparr>world_of := w, journal := doc\<rparr>)
      | (WriteFailed text, w) \<Rightarrow> (Inl (OtherFailure text), s\<lparr>world_of := w\<rparr>)
      | (SyncFailed text, w) \<Rightarrow> (Inl (OtherFailure text), s\<lparr>world_of := w, journal := doc\<rparr>))"

definition write_deletions :: "'w cloud \<Rightarrow> deletion list \<Rightarrow> ('w, unit) resize" where
  "write_deletions c rs =
     (\<lambda>s. if rs = [] \<and> journal s = Absent then (Inr (), s)
          else cbind (clift (map_err (\<lambda>r. validate_record (JObj r)) rs)) (\<lambda>_.
               put_journal c (journal_doc rs)) s)"

definition find_deletion :: "deletion list \<Rightarrow> string \<Rightarrow> deletion option" where
  "find_deletion rs vid = find (\<lambda>r. volume_id r = vid) rs"

definition remember_deletion :: "'w cloud \<Rightarrow> deletion \<Rightarrow> ('w, unit) resize" where
  "remember_deletion c r =
     cbind (clift (validate_record (JObj r))) (\<lambda>_.
     cbind load_deletions (\<lambda>pending.
     case find_deletion pending (volume_id r) of
       Some existing \<Rightarrow>
         clift (check (RuntimeError
           ''The pending local Block Volume deletion record changed unexpectedly'')
           (same_record existing r))
     | None \<Rightarrow> write_deletions c (pending @ [r])))"

lemmas journal_equations [code] =
  load_deletions_def [THEN fun_cong] put_journal_def [THEN fun_cong]
  write_deletions_def [THEN fun_cong] remember_deletion_def [THEN fun_cong]

section \<open>What a journal may hold\<close>

definition valid_record :: "deletion \<Rightarrow> bool" where
  "valid_record r \<longleftrightarrow> validate_record (JObj r) = Inr r"

definition valid_log :: "deletion list \<Rightarrow> bool" where
  "valid_log rs \<longleftrightarrow> list_all valid_record rs \<and> distinct (map volume_id rs)"

lemma validate_record_same: "validate_record v = Inr r \<Longrightarrow> v = JObj r \<and> valid_record r"
  by (auto simp: validate_record_def valid_record_def)

lemma validate_record_iff: "validate_record v = Inr r \<longleftrightarrow> v = JObj r \<and> valid_record r"
  using validate_record_same by (auto simp: valid_record_def)

lemma load_fold:
  assumes "unique_log volume_id st"
  shows "fold_err load_step st vs = Inr st' \<longleftrightarrow>
     (\<exists>rs. vs = map JObj rs \<and> list_all valid_record rs \<and> distinct (map volume_id (snd st @ rs))
        \<and> st' = (volume_id ` set (snd st @ rs), snd st @ rs))"
  using assms
proof (induction vs arbitrary: st)
  case Nil
  then show ?case by (cases st) (auto simp: unique_log_def)
next
  case (Cons v vs)
  show ?case
  proof (cases "\<exists>r. v = JObj r \<and> valid_record r \<and> volume_id r \<notin> fst st")
    case True
    then obtain r where r: "v = JObj r" "valid_record r" "volume_id r \<notin> fst st" by blast
    then have step: "load_step st v = Inr (insert (volume_id r) (fst st), snd st @ [r])"
      by (simp add: load_step_def valid_record_def)
    have log: "unique_log volume_id (insert (volume_id r) (fst st), snd st @ [r])"
      using Cons.prems r(3) by (cases st) (auto simp: unique_log_def)
    have not_in: "volume_id r \<notin> volume_id ` set (snd st)"
      using Cons.prems r(3) by (auto simp: unique_log_def)
    have shift: "(\<exists>rs. v # vs = map JObj rs \<and> Q rs) \<longleftrightarrow> (\<exists>rs. vs = map JObj rs \<and> Q (r # rs))" for Q
      by (auto simp: r(1) Cons_eq_map_conv)
    show ?thesis
      unfolding shift using Cons.IH [OF log] r(2) not_in by (simp add: step)
  next
    case False
    have "load_step st v \<noteq> Inr st2" for st2
      using False by (auto simp: load_step_def validate_record_iff)
    then obtain e where "load_step st v = Inl e" by (cases "load_step st v") auto
    moreover have "volume_id ` set (snd st) = fst st" using Cons.prems by (simp add: unique_log_def)
    ultimately show ?thesis using False by (auto simp: Cons_eq_map_conv)
  qed
qed

lemma load_journal_Doc:
  "load_journal (Doc v) = Inr rs \<longleftrightarrow>
     (\<exists>d. v = JObj d \<and> py_eq (jget d ''version'') (JInt 1) \<and> jget d ''deletions'' = JArr (map JObj rs)
        \<and> valid_log rs)"
proof -
  have fold: "fold_err load_step ({}, []) vs = Inr st \<longleftrightarrow>
      vs = map JObj (snd st) \<and> valid_log (snd st) \<and> fst st = volume_id ` set (snd st)" for vs st
    using load_fold [of "({}, [])" vs st, OF unique_log_empty] by (cases st) (auto simp: valid_log_def)
  show ?thesis
    by (auto simp: load_journal_def Let_def fold)
qed

lemma load_journal_valid: "load_journal doc = Inr rs \<Longrightarrow> valid_log rs"
  by (cases doc) (auto simp: load_journal_Doc, auto simp: load_journal_def valid_log_def)

text \<open>The journal reads back what was written.\<close>

lemma load_journal_doc [simp]: "valid_log rs \<Longrightarrow> load_journal (journal_doc rs) = Inr rs"
  by (auto simp: journal_doc_def load_journal_Doc jget_def) (simp add: load_journal_def)

section \<open>The store as an interface\<close>

text \<open>
  What the clients of the journal rely on: a successful save is what the next load gives, and a
  failed one leaves either the old contents or the new ones, never anything else.
\<close>

locale record_store =
  fixes load :: "'s \<Rightarrow> 'e + 'r list"
    and save :: "'r list \<Rightarrow> ('s, 'e, unit) cmd"
    and ok :: "'r list \<Rightarrow> bool"
  assumes load_ok: "load s = Inr rs \<Longrightarrow> ok rs"
    and save_done: "ok rs \<Longrightarrow> save rs s = (Inr x, s') \<Longrightarrow> load s' = Inr rs"
    and save_failed: "ok rs \<Longrightarrow> save rs s = (Inl e, s') \<Longrightarrow> load s' = load s \<or> load s' = Inr rs"
begin

lemma save_outcome:
  assumes "ok rs'" and "load s = Inr rs" and "save rs' s = (res, s')"
  obtains kept where "load s' = Inr kept" "kept = rs \<or> kept = rs'" "res = Inr () \<Longrightarrow> kept = rs'"
proof (cases res)
  case (Inl e)
  with save_failed [OF assms(1)] assms(3) have "load s' = load s \<or> load s' = Inr rs'" by blast
  with that assms(2) Inl show thesis by auto
next
  case (Inr x)
  with save_done [OF assms(1)] assms(3) have "load s' = Inr rs'" by blast
  with that show thesis by blast
qed

lemma save_growing:
  assumes "ok rs'" and "load s = Inr rs" and "save rs' s = (res, s')" and "set rs \<subseteq> set rs'"
  shows "\<exists>kept. load s' = Inr kept \<and> set rs \<subseteq> set kept \<and> set kept \<subseteq> set rs'"
  using assms(1-3) by (rule save_outcome) (use assms(4) in auto)

lemma save_shrinking:
  assumes "ok (filter keep rs)" and "load s = Inr rs" and "save (filter keep rs) s = (res, s')"
  shows "\<exists>kept. load s' = Inr kept \<and> set kept \<subseteq> set rs \<and> {r \<in> set rs. keep r} \<subseteq> set kept"
  using assms by (rule save_outcome) auto

end

definition deletions :: "'w run \<Rightarrow> resize_error + deletion list" where
  "deletions s = load_journal (journal s)"

lemma map_err_valid:
  "map_err (\<lambda>r. validate_record (JObj r)) rs = Inr qs \<longleftrightarrow> list_all valid_record rs \<and> qs = rs"
proof (induction rs arbitrary: qs)
  case (Cons r rs)
  show ?case
  proof (cases "validate_record (JObj r)")
    case (Inl e)
    then show ?thesis by (simp add: valid_record_def)
  next
    case (Inr q)
    then have "valid_record r" "q = r" by (auto simp: validate_record_iff)
    then show ?thesis
      using Inr Cons.IH [of rs] Cons.IH
      by (cases "map_err (\<lambda>r. validate_record (JObj r)) rs") auto
  qed
qed auto

lemma put_journal_cases:
  assumes "put_journal c doc s = (res, s')"
  shows "(journal s' = doc \<or> (\<exists>e. res = Inl e) \<and> journal s' = journal s) \<and> trace s' = trace s"
  using assms by (auto simp: put_journal_def split: prod.splits write_outcome.splits)

lemma write_deletions_cases:
  assumes "write_deletions c rs s = (res, s')"
  shows "(journal s' = journal_doc rs \<or> (\<exists>e. res = Inl e) \<and> journal s' = journal s)
    \<and> trace s' = trace s"
proof (cases "rs = [] \<and> journal s = Absent \<or> (\<exists>e. map_err (\<lambda>r. validate_record (JObj r)) rs = Inl e)")
  case True
  then show ?thesis
    using assms by (auto simp: write_deletions_def journal_doc_def cbind_apply split: if_splits)
next
  case False
  then obtain qs where "map_err (\<lambda>r. validate_record (JObj r)) rs = Inr qs"
    by (cases "map_err (\<lambda>r. validate_record (JObj r)) rs") auto
  with False assms have "put_journal c (journal_doc rs) s = (res, s')"
    by (simp add: write_deletions_def cbind_apply split: if_splits)
  then show ?thesis by (rule put_journal_cases)
qed

interpretation store: record_store deletions "write_deletions c" valid_log for c :: "'w cloud"
proof unfold_locales
  fix s s' :: "'w run" and rs e x
  show "deletions s = Inr rs \<Longrightarrow> valid_log rs"
    by (simp add: deletions_def load_journal_valid)
  assume ok: "valid_log rs"
  show "write_deletions c rs s = (Inr x, s') \<Longrightarrow> deletions s' = Inr rs"
    using ok by (auto simp: deletions_def dest!: write_deletions_cases)
  show "write_deletions c rs s = (Inl e, s') \<Longrightarrow> deletions s' = deletions s \<or> deletions s' = Inr rs"
    using ok by (auto simp: deletions_def dest!: write_deletions_cases)
qed

section \<open>Remembering a deletion\<close>

lemma find_deletion_Some: "find_deletion rs vid = Some r \<Longrightarrow> r \<in> set rs \<and> volume_id r = vid"
  by (auto simp: find_deletion_def find_Some_iff)

lemma find_deletion_None: "find_deletion rs vid = None \<longleftrightarrow> vid \<notin> volume_id ` set rs"
  by (auto simp: find_deletion_def find_None_iff)

lemma find_deletion_mem: "valid_log rs \<Longrightarrow> r \<in> set rs \<Longrightarrow> find_deletion rs (volume_id r) = Some r"
  by (induction rs) (auto simp: find_deletion_def valid_log_def)

lemma same_record_str:
  assumes "same_record q r" and "jget q k = JStr x"
  shows "jget r k = JStr x"
proof -
  have "(k, JStr x) \<in> set q" using jget_Str [OF assms(2)] by (rule map_of_SomeD)
  then have "case map_of r k of None \<Rightarrow> False | Some v' \<Rightarrow> py_eq (JStr x) v'"
    using assms(1) by (force simp: same_record_def list_all_iff)
  then show ?thesis by (auto simp: jget_def split: option.splits)
qed

definition recorded :: "char doc \<Rightarrow> deletion \<Rightarrow> bool" where
  "recorded doc r \<longleftrightarrow>
     (case load_journal doc of Inl _ \<Rightarrow> False
      | Inr rs \<Rightarrow> list_ex (\<lambda>q. volume_id q = volume_id r \<and> (q = r \<or> same_record q r)) rs)"

lemma remember_deletion_trace: "remember_deletion c r s = (res, s') \<Longrightarrow> trace s' = trace s"
  by (auto simp: remember_deletion_def cbind_apply load_deletions_def write_deletions_cases
      split: prod.splits sum.splits option.splits dest: write_deletions_cases)

lemma remember_outcome:
  assumes "remember_deletion c r s = (res, s')" and "load_journal (journal s) = Inr rs"
  shows "(load_journal (journal s') = Inr rs \<or> load_journal (journal s') = Inr (rs @ [r]))
    \<and> (res = Inr () \<longrightarrow> recorded (journal s') r)"
proof (cases "find_deletion rs (volume_id r)")
  case (Some q)
  note q = find_deletion_Some [OF Some]
  have "s' = s \<and> (res = Inr () \<longrightarrow> same_record q r)"
    using assms Some
    by (auto simp: remember_deletion_def cbind_apply load_deletions_def check_def
        split: prod.splits sum.splits if_splits)
  then show ?thesis using assms(2) q by (auto simp: recorded_def list_ex_iff)
next
  case None
  show ?thesis
  proof (cases "valid_record r")
    case True
    have "write_deletions c (rs @ [r]) s = (res, s')"
      using assms None True
      by (simp add: remember_deletion_def cbind_apply load_deletions_def valid_record_def)
    moreover have "valid_log (rs @ [r])"
      using load_journal_valid [OF assms(2)] True None
      by (auto simp: valid_log_def find_deletion_None)
    ultimately obtain kept where "deletions s' = Inr kept" "kept = rs \<or> kept = rs @ [r]"
        "res = Inr () \<Longrightarrow> kept = rs @ [r]"
      using store.save_outcome [of "rs @ [r]" s rs c res s'] assms(2)
      by (auto simp: deletions_def)
    then show ?thesis by (auto simp: deletions_def recorded_def)
  next
    case False
    then have "\<exists>e. validate_record (JObj r) = Inl e"
      using validate_record_same by (cases "validate_record (JObj r)") auto
    then show ?thesis using assms by (auto simp: remember_deletion_def cbind_apply)
  qed
qed

text \<open>
  C32: remembering a removal is durable and forgets nothing. Whatever the file system does, the
  journal stays readable and holds afterwards what it held before, with at most the new record
  at its end; and when the call returns, a record of that volume equal to the new one is on disk.
\<close>

theorem remember_is_durable:
  assumes "remember_deletion c r s = (res, s')" and "load_journal (journal s) = Inr rs"
  shows "(load_journal (journal s') = Inr rs \<or> load_journal (journal s') = Inr (rs @ [r]))
    \<and> (res = Inr () \<longrightarrow> recorded (journal s') r)"
  using assms by (rule remember_outcome)

definition sample_deletion :: deletion where
  "sample_deletion =
     [(''cluster_name'', JStr ''hpc''), (''compartment_id'', JStr ''c''),
      (''instance_id'', JStr ''ocid1.instance.a''), (''instance_display_name'', JStr ''hpc-node-4''),
      (''instance_private_ip'', JStr ''10.0.0.7''), (''instance_pool_id'', JStr ''ocid1.pool.p''),
      (''instance_pool_size_before_removal'', JInt 4), (''volume_id'', JStr ''ocid1.volume.a''),
      (''volume_display_name'', JStr ''hpc-local-scratch''), (''size_in_gbs'', JInt 750),
      (''vpus_per_gb'', JInt 10)]"

definition writing_cloud :: "nat cloud" where
  "writing_cloud = refusing_cloud\<lparr>replace_journal := \<lambda>w. (Written, w)\<rparr>"

lemma remember_is_durable_witness:
  "(let s = \<lparr>world_of = 0, journal = Absent, tf_state = None, tf_variables = None, files = [], trace = []\<rparr>;
        s' = snd (remember_deletion writing_cloud sample_deletion s)
    in (load_journal (journal s') = Inr [] \<or> load_journal (journal s') = Inr ([] @ [sample_deletion]))
      \<and> recorded (journal s') sample_deletion)"
proof -
  let ?s = "\<lparr>world_of = 0, journal = Absent, tf_state = None, tf_variables = None, files = [], trace = []\<rparr> :: nat run"
  let ?r = "remember_deletion writing_cloud sample_deletion ?s"
  have "fst ?r = Inr ()" by code_simp
  then have run: "?r = (Inr (), snd ?r)" by (simp add: prod_eq_iff)
  have "load_journal (journal ?s) = Inr []" by code_simp
  from remember_is_durable [OF run this] show ?thesis by (simp add: Let_def)
qed

end
