(* ===== verification/Terraform.thy ===== *)
theory Terraform
  imports Cloud
begin

text \<open>
  Keeping Terraform's view of the pool size in step (\<open>updateTFState\<close> of \<open>bin/resize.py\<close>): the
  lines of \<open>terraform.tfstate\<close> and \<open>variables.tf\<close> are rewritten, the state is pushed with the
  \<open>terraform\<close> command (a parameter: it succeeds or fails, and in either case leaves what it likes
  in the state file), and only then is the variables file replaced, which may fail before or
  after the new file is in place. The two temporary files (creating and writing them, copying mode
  and owner) are one step, \<open>stage_tf_files\<close>, that may fail before anything is pushed.
\<close>

section \<open>The state file\<close>

fun replace_first :: "string \<Rightarrow> string \<Rightarrow> string \<Rightarrow> string" where
  "replace_first old new [] = (if old = [] then new else [])"
| "replace_first old new (c # cs) =
     (if starts_with (c # cs) old then new @ drop (length old) (c # cs)
      else c # replace_first old new cs)"

definition serial_key :: string where
  "serial_key = ''\"serial\":''"

definition size_key :: string where
  "size_key = ''\"size\":''"

text \<open>\<open>int(stripped_line.split(key, 1)[1].split(',', 1)[0])\<close> of a line that starts with the key.\<close>

definition number_after :: "string \<Rightarrow> string \<Rightarrow> resize_error + int" where
  "number_after key stripped_line =
     need (ValueFailure ''invalid literal for int()'')
       (py_int (fst (partition_at CHR '','' (drop (length key) stripped_line))))"

record state_scan =
  out_lines :: "string list"
  found_serial :: bool
  found_size :: bool

definition state_step :: "int \<Rightarrow> state_scan \<Rightarrow> string \<Rightarrow> resize_error + state_scan" where
  "state_step sz st line =
     (let stripped_line = py_strip line
      in if starts_with stripped_line serial_key
         then rbind (number_after serial_key stripped_line) (\<lambda>serial.
           Inr (st\<lparr>out_lines := out_lines st
                  @ [replace_first (show_int serial) (show_int (serial + 1)) line],
                found_serial := True\<rparr>))
         else if starts_with stripped_line size_key
         then rbind (number_after size_key stripped_line) (\<lambda>current_size.
           Inr (st\<lparr>out_lines := out_lines st
                  @ [replace_first (show_int current_size) (show_int sz) line],
                found_size := True\<rparr>))
         else Inr (st\<lparr>out_lines := out_lines st @ [line]\<rparr>))"

definition rewrite_state :: "int \<Rightarrow> string list \<Rightarrow> resize_error + string list" where
  "rewrite_state sz lines =
     rbind (fold_err (state_step sz)
       \<lparr>out_lines = [], found_serial = False, found_size = False\<rparr> lines) (\<lambda>st.
     rbind (check (RuntimeError
       ''Terraform state does not contain the expected serial and instance pool size'')
       (found_serial st \<and> found_size st)) (\<lambda>_.
     Inr (out_lines st)))"

section \<open>The variables file\<close>

text \<open>\<open>\w\<close> below code point 256.\<close>

definition word_char :: "char \<Rightarrow> bool" where
  "word_char c \<longleftrightarrow>
     (let n = of_char c :: nat
      in is_digit c \<or> is_lower_alpha c \<or> is_upper_alpha c \<or> c = CHR ''_''
         \<or> n \<in> set [170, 178, 179, 181, 185, 186, 188, 189, 190]
         \<or> 192 \<le> n \<and> n \<noteq> 215 \<and> n \<noteq> 247)"

text \<open>
  \<open>default\s*=\s*(?P<quote>"?)(?P<value>[0-9]+)(?P=quote)\<close> matched at the start of \<open>s\<close>: the
  text up to the value, and the text after it. No other way to match the blanks, the quote or
  the digits can succeed where this one fails.
\<close>

definition default_at :: "string \<Rightarrow> (string \<times> string) option" where
  "default_at s =
     (if \<not> starts_with s ''default'' then None
      else let s1 = dropWhile py_space (drop 7 s)
      in if \<not> starts_with s1 ''='' then None
      else let s2 = dropWhile py_space (tl s1);
               quoted = starts_with s2 [CHR 0x22];
               s3 = (if quoted then tl s2 else s2);
               digits = takeWhile is_digit s3;
               after = dropWhile is_digit s3
      in if digits = [] \<or> (quoted \<and> \<not> starts_with after [CHR 0x22]) then None
         else Some (take (length s - length s3) s, after))"

fun search_default :: "bool \<Rightarrow> string \<Rightarrow> (string \<times> string) option" where
  "search_default after_word [] = None"
| "search_default after_word (c # cs) =
     (case (if after_word then None else default_at (c # cs)) of
        Some m \<Rightarrow> Some m
      | None \<Rightarrow> (case search_default (word_char c) cs of
          None \<Rightarrow> None | Some (pre, post) \<Rightarrow> Some (c # pre, post)))"

definition node_count_key :: string where
  "node_count_key = ''variable \"node_count\"''"

definition variables_step :: "int \<Rightarrow> string list \<times> bool \<Rightarrow> string
    \<Rightarrow> resize_error + string list \<times> bool" where
  "variables_step sz st line =
     (if starts_with (py_strip line) node_count_key
      then rbind (need (RuntimeError ''Terraform node_count variable has an unsupported format'')
             (search_default False line)) (\<lambda>(pre, post).
           Inr (fst st @ [pre @ show_int sz @ post], True))
      else Inr (fst st @ [line], snd st))"

definition rewrite_variables :: "int \<Rightarrow> string list \<Rightarrow> resize_error + string list" where
  "rewrite_variables sz lines =
     rbind (fold_err (variables_step sz) ([], False) lines) (\<lambda>st.
     rbind (check (RuntimeError ''Terraform variables do not contain node_count'') (snd st)) (\<lambda>_.
     Inr (fst st)))"

section \<open>The update\<close>

definition permanent_inventory :: string where
  "permanent_inventory = ''/etc/ansible/hosts''"

text \<open>
  \<open>terraform state push\<close> of the rewritten lines: \<open>old\<close> are the lines of the state file before it,
  \<open>left\<close> those after it, whether it succeeded or not.
\<close>

definition push_state :: "'w cloud \<Rightarrow> string list \<Rightarrow> string list \<Rightarrow> ('w, unit) resize" where
  "push_state c old lines =
     cbind (record_event (Asked_push lines)) (\<lambda>_ s.
       case push_tf_state c lines old (world_of s) of ((succeeded, left), w) \<Rightarrow>
         (if succeeded then Inr () else Inl (RuntimeError ''Failed to update Terraform state''),
          s\<lparr>world_of := w, tf_state := Some left\<rparr>))"

text \<open>
  \<open>os.replace(temporary_variables_path, variables_path)\<close> and \<open>fsync_directory\<close>, each of which can raise
  although the state is pushed. A failure to remove the temporary file of the state in the \<open>finally\<close>
  that follows looks like one of \<open>fsync_directory\<close>.
\<close>

definition put_variables :: "'w cloud \<Rightarrow> string list \<Rightarrow> ('w, unit) resize" where
  "put_variables c lines =
     (\<lambda>s. case replace_variables c (world_of s) of
        (Written, w) \<Rightarrow> (Inr (), s\<lparr>world_of := w, tf_variables := Some lines\<rparr>)
      | (WriteFailed err, w) \<Rightarrow> (Inl (OtherFailure err), s\<lparr>world_of := w\<rparr>)
      | (SyncFailed err, w) \<Rightarrow>
          (Inl (OtherFailure err), s\<lparr>world_of := w, tf_variables := Some lines\<rparr>))"

definition updateTFState :: "'w cloud \<Rightarrow> string \<Rightarrow> int \<Rightarrow> ('w, bool) resize" where
  "updateTFState c inventory_path sz =
     (if inventory_path = permanent_inventory then creturn False
      else (\<lambda>s.
        cbind (clift (need (RuntimeError (''Terraform state was not found next to inventory ''
                 @ inventory_path)) (tf_state s))) (\<lambda>state_lines.
        cbind (clift (need (RuntimeError (''Terraform variables file was not found next to inventory ''
                 @ inventory_path)) (tf_variables s))) (\<lambda>variables_lines.
        cbind (clift (rewrite_state sz state_lines)) (\<lambda>new_state.
        cbind (clift (rewrite_variables sz variables_lines)) (\<lambda>new_variables.
        cbind (api (stage_tf_files c)) (\<lambda>_.
        cbind (push_state c state_lines new_state) (\<lambda>_.
        cbind (put_variables c new_variables) (\<lambda>_.
        creturn True))))))) s))"

lemmas terraform_equations [code] =
  push_state_def [THEN fun_cong] put_variables_def [THEN fun_cong] updateTFState_def [THEN fun_cong]

section \<open>What the rewriting does to each line\<close>

lemma replace_first_skip:
  assumes "\<forall>c \<in> set pre. c \<noteq> d"
  shows "replace_first (d # old) new (pre @ (d # old) @ rest) = pre @ new @ rest"
  using assms
proof (induction pre)
  case Nil
  show ?case using starts_with_append [of old rest] by simp
next
  case (Cons c pre)
  then show ?case by simp
qed

text \<open>A line of the state as Terraform writes it: blanks, the key, blanks, the number, a comma.\<close>

definition number_line :: "string \<Rightarrow> int \<Rightarrow> string \<Rightarrow> bool" where
  "number_line key n line \<longleftrightarrow> 0 \<le> n \<and>
     (\<exists>ws sp rest. line = ws @ key @ sp @ show_int n @ CHR '','' # rest
        \<and> list_all py_space (ws @ sp))"

lemma number_line_replace:
  assumes "number_line key n line" and "0 \<le> m" and "list_all (\<lambda>c. \<not> is_digit c) key"
  shows "number_line key m (replace_first (show_int n) (show_int m) line)"
proof -
  obtain ws sp rest where line: "line = ws @ key @ sp @ show_int n @ CHR '','' # rest"
    and blanks: "list_all py_space (ws @ sp)" and n: "0 \<le> n"
    using assms(1) by (auto simp: number_line_def)
  obtain d ds where number: "show_int n = d # ds" "is_digit d"
    using n show_nat_digits [of _ "nat n"]
    by (cases "show_nat (nat n)") (auto simp: show_int_def)
  have "\<forall>c \<in> set (ws @ key @ sp). c \<noteq> d"
    using blanks assms(3) number(2) is_digit_not_space by (auto simp: list_all_iff)
  from replace_first_skip [OF this, of ds "show_int m" "CHR '','' # rest"]
  have "replace_first (show_int n) (show_int m) line = ws @ key @ sp @ show_int m @ CHR '','' # rest"
    by (simp add: line number(1))
  then show ?thesis using blanks assms(2) by (auto simp: number_line_def)
qed

lemma py_int_strip: "py_int (py_strip s) = py_int s"
  by (simp add: py_int_def py_strip_def)

lemma py_int_blank_number:
  assumes "list_all py_space sp" and "0 \<le> n"
  shows "py_int (sp @ show_int n) = Some n"
proof -
  have digits: "list_all is_digit (show_int n)" "show_int n \<noteq> []"
    using assms(2) by (auto simp: show_int_def list_all_iff show_nat_digits)
  have "lstrip_by py_space (sp @ show_int n) = lstrip_by py_space (show_int n)"
    using assms(1) by (auto simp: lstrip_by_def list_all_iff dropWhile_append)
  then have "py_strip (sp @ show_int n) = py_strip (show_int n)"
    by (simp add: py_strip_def strip_by_def)
  then have "py_int (sp @ show_int n) = py_int (show_int n)"
    by (metis py_int_strip)
  then show ?thesis using assms(2) by (simp add: py_int_show_int)
qed

lemma py_strip_key:
  assumes "list_all py_space ws" and "key \<noteq> []" and "list_all (\<lambda>c. \<not> py_space c) key"
    and "\<not> py_space d"
  shows "\<exists>rest'. py_strip (ws @ key @ mid @ d # rest) = key @ mid @ d # rest'"
proof -
  have "lstrip_by py_space (ws @ key @ mid @ d # rest) = key @ mid @ d # rest"
    using assms(1-3) by (cases key) (auto simp: lstrip_by_def list_all_iff dropWhile_append)
  moreover have "\<exists>rest'. rstrip_by py_space (key @ mid @ d # rest) = key @ mid @ d # rest'"
  proof -
    have "dropWhile py_space (rev rest @ d # rev mid @ rev key)
        = (if \<forall>x \<in> set rest. py_space x then [] else dropWhile py_space (rev rest))
          @ d # rev mid @ rev key"
      using assms(4) by (auto simp: dropWhile_append)
    then show ?thesis by (auto simp: rstrip_by_def)
  qed
  ultimately show ?thesis by (simp add: py_strip_def strip_by_def)
qed

lemma number_after_line:
  assumes "number_line key n line" and "key \<noteq> []" and "list_all (\<lambda>c. \<not> py_space c) key"
  shows "starts_with (py_strip line) key" and "number_after key (py_strip line) = Inr n"
proof -
  obtain ws sp rest where line: "line = ws @ key @ (sp @ show_int n) @ CHR '','' # rest"
    and blanks: "list_all py_space ws" "list_all py_space sp" and n: "0 \<le> n"
    using assms(1) by (auto simp: number_line_def)
  obtain rest' where strip: "py_strip line = key @ (sp @ show_int n) @ CHR '','' # rest'"
    using py_strip_key [OF blanks(1) assms(2,3), of "CHR '',''" "sp @ show_int n" rest]
    by (auto simp: line py_space_def)
  have "CHR '','' \<notin> set (sp @ show_int n)"
    using blanks(2) n show_nat_digits [of "CHR '',''" "nat n"]
    by (auto simp: list_all_iff py_space_def is_digit_def show_int_def)
  then have "fst (partition_at CHR '','' (drop (length key) (py_strip line))) = sp @ show_int n"
    using partition_at_found [of "CHR '',''" "sp @ show_int n" rest'] by (simp add: strip)
  then show "number_after key (py_strip line) = Inr n"
    using py_int_blank_number [OF blanks(2) n] by (simp add: number_after_def)
  show "starts_with (py_strip line) key" by (simp add: strip)
qed

definition rewritten_line :: "int \<Rightarrow> string \<Rightarrow> string \<Rightarrow> bool" where
  "rewritten_line sz line line' \<longleftrightarrow>
     (if starts_with (py_strip line) serial_key
      then \<forall>n. number_line serial_key n line \<longrightarrow> number_line serial_key (n + 1) line'
      else if starts_with (py_strip line) size_key
      then \<forall>n. number_line size_key n line \<longrightarrow> number_line size_key sz line'
      else line' = line)"

lemma keys_plain:
  "serial_key \<noteq> []" "size_key \<noteq> []"
  "list_all (\<lambda>c. \<not> py_space c) serial_key" "list_all (\<lambda>c. \<not> py_space c) size_key"
  "list_all (\<lambda>c. \<not> is_digit c) serial_key" "list_all (\<lambda>c. \<not> is_digit c) size_key"
  by code_simp+

lemma state_step_line:
  assumes "state_step sz st line = Inr st'" and "0 \<le> sz"
  shows "\<exists>line'. out_lines st' = out_lines st @ [line'] \<and> rewritten_line sz line line'"
proof -
  consider (serial) "starts_with (py_strip line) serial_key"
    | (pool_size) "\<not> starts_with (py_strip line) serial_key" "starts_with (py_strip line) size_key"
    | (other) "\<not> starts_with (py_strip line) serial_key" "\<not> starts_with (py_strip line) size_key"
    by blast
  then show ?thesis
  proof cases
    case serial
    then obtain k where k: "number_after serial_key (py_strip line) = Inr k"
      and st': "out_lines st' = out_lines st @ [replace_first (show_int k) (show_int (k + 1)) line]"
      using assms(1) by (auto simp: state_step_def Let_def)
    have "number_line serial_key (n + 1) (replace_first (show_int k) (show_int (k + 1)) line)"
      if "number_line serial_key n line" for n
    proof -
      have "k = n" using number_after_line(2) [OF that keys_plain(1,3)] k by simp
      moreover have "0 \<le> n" using that by (simp add: number_line_def)
      ultimately show ?thesis using number_line_replace [OF that _ keys_plain(5)] by simp
    qed
    then show ?thesis using serial st' by (auto simp: rewritten_line_def)
  next
    case pool_size
    then obtain k where k: "number_after size_key (py_strip line) = Inr k"
      and st': "out_lines st' = out_lines st @ [replace_first (show_int k) (show_int sz) line]"
      using assms(1) by (auto simp: state_step_def Let_def)
    have "number_line size_key sz (replace_first (show_int k) (show_int sz) line)"
      if "number_line size_key n line" for n
      using number_after_line(2) [OF that keys_plain(2,4)] k
        number_line_replace [OF that assms(2) keys_plain(6)] by simp
    then show ?thesis using pool_size st' by (auto simp: rewritten_line_def)
  next
    case other
    then show ?thesis using assms(1) by (auto simp: state_step_def Let_def rewritten_line_def)
  qed
qed

text \<open>
  The pushed state says the new size and nothing else changes. Every line of the old state
  has exactly one line in the new one, in order; a serial line in Terraform's format carries the
  next serial, a size line the new size, and every other line is the same.
\<close>

lemma rewrite_state_lines:
  assumes "rewrite_state sz lines = Inr out" and "0 \<le> sz"
  shows "list_all2 (rewritten_line sz) lines out
    \<and> list_ex (\<lambda>line. starts_with (py_strip line) size_key) lines
    \<and> list_ex (\<lambda>line. starts_with (py_strip line) serial_key) lines"
proof -
  let ?start = "\<lparr>out_lines = [], found_serial = False, found_size = False\<rparr>"
  obtain st where run: "fold_err (state_step sz) ?start lines = Inr st"
    and found: "found_serial st" "found_size st" and out: "out = out_lines st"
    using assms(1) by (auto simp: rewrite_state_def)
  from run have "list_all2 (rewritten_line sz) lines (out_lines st)
    \<and> (found_serial st \<longrightarrow> list_ex (\<lambda>line. starts_with (py_strip line) serial_key) lines)
    \<and> (found_size st \<longrightarrow> list_ex (\<lambda>line. starts_with (py_strip line) size_key) lines)"
  proof (rule fold_err_invariant_prefix)
    fix ys x zs a a'
    assume inv: "list_all2 (rewritten_line sz) ys (out_lines a)
      \<and> (found_serial a \<longrightarrow> list_ex (\<lambda>line. starts_with (py_strip line) serial_key) ys)
      \<and> (found_size a \<longrightarrow> list_ex (\<lambda>line. starts_with (py_strip line) size_key) ys)"
      and step: "state_step sz a x = Inr a'"
    obtain line' where "out_lines a' = out_lines a @ [line']" "rewritten_line sz x line'"
      using state_step_line [OF step assms(2)] by blast
    moreover have "found_serial a' \<longrightarrow> found_serial a \<or> starts_with (py_strip x) serial_key"
      "found_size a' \<longrightarrow> found_size a \<or> starts_with (py_strip x) size_key"
      using step by (auto simp: state_step_def Let_def split: if_splits)
    ultimately show "list_all2 (rewritten_line sz) (ys @ [x]) (out_lines a')
      \<and> (found_serial a' \<longrightarrow> list_ex (\<lambda>line. starts_with (py_strip line) serial_key) (ys @ [x]))
      \<and> (found_size a' \<longrightarrow> list_ex (\<lambda>line. starts_with (py_strip line) size_key) (ys @ [x]))"
      using inv by (auto intro: list_all2_appendI)
  qed simp
  then show ?thesis using found out by simp
qed

definition sample_state_lines :: "string list" where
  "sample_state_lines =
     [''{'' @ [CHR 0x0A], ''  \"serial\": 41,'' @ [CHR 0x0A],
      ''            \"size\": 4,'' @ [CHR 0x0A], ''}'' @ [CHR 0x0A]]"

lemma sample_state_rewritten:
  "rewrite_state 3 sample_state_lines =
    Inr [''{'' @ [CHR 0x0A], ''  \"serial\": 42,'' @ [CHR 0x0A],
      ''            \"size\": 3,'' @ [CHR 0x0A], ''}'' @ [CHR 0x0A]]"
  by code_simp

lemma rewrite_state_lines_witness:
  "list_all2 (rewritten_line 3) sample_state_lines
     [''{'' @ [CHR 0x0A], ''  \"serial\": 42,'' @ [CHR 0x0A],
      ''            \"size\": 3,'' @ [CHR 0x0A], ''}'' @ [CHR 0x0A]]
   \<and> list_ex (\<lambda>line. starts_with (py_strip line) size_key) sample_state_lines
   \<and> list_ex (\<lambda>line. starts_with (py_strip line) serial_key) sample_state_lines"
by (rule rewrite_state_lines [OF sample_state_rewritten]) simp

section \<open>The order of the update\<close>

text \<open>
  From \<open>s\<close> to \<open>s'\<close> the rewriting of the state for the size \<open>sz\<close> was pushed, once, and the command
  said \<open>succeeded\<close>.
\<close>

definition size_pushed :: "'w cloud \<Rightarrow> int \<Rightarrow> bool \<Rightarrow> 'w run \<Rightarrow> 'w run \<Rightarrow> bool" where
  "size_pushed c sz succeeded s s' \<longleftrightarrow>
     (\<exists>old lines left w w'. tf_state s = Some old \<and> rewrite_state sz old = Inr lines
        \<and> trace s' = trace s @ [(Asked_push lines, journal s)]
        \<and> push_tf_state c lines old w = ((succeeded, left), w') \<and> tf_state s' = Some left)"

text \<open>The variables file of \<open>s'\<close> is that of \<open>s\<close> rewritten for the size \<open>sz\<close>.\<close>

definition size_in_variables :: "int \<Rightarrow> 'w run \<Rightarrow> 'w run \<Rightarrow> bool" where
  "size_in_variables sz s s' \<longleftrightarrow>
     (\<exists>old lines. tf_variables s = Some old \<and> rewrite_variables sz old = Inr lines
        \<and> tf_variables s' = Some lines)"

definition update_done :: "'w cloud \<Rightarrow> int \<Rightarrow> 'w run \<Rightarrow> 'w run \<Rightarrow> bool" where
  "update_done c sz s s' \<longleftrightarrow> size_pushed c sz True s s' \<and> size_in_variables sz s s'"

text \<open>Where an update that raises may have stopped.\<close>

definition update_failed :: "'w cloud \<Rightarrow> int \<Rightarrow> 'w run \<Rightarrow> 'w run \<Rightarrow> bool" where
  "update_failed c sz s s' \<longleftrightarrow>
     trace s' = trace s \<and> tf_state s' = tf_state s \<and> tf_variables s' = tf_variables s
     \<or> size_pushed c sz False s s' \<and> tf_variables s' = tf_variables s
     \<or> size_pushed c sz True s s' \<and> (tf_variables s' = tf_variables s \<or> size_in_variables sz s s')"

lemma push_state_cases:
  assumes "push_state c old lines s = (res, s')"
  shows "journal s' = journal s \<and> tf_variables s' = tf_variables s
    \<and> trace s' = trace s @ [(Asked_push lines, journal s)]
    \<and> (\<exists>left w'. push_tf_state c lines old (world_of s) = ((res = Inr (), left), w')
         \<and> tf_state s' = Some left)"
  using assms
  by (auto simp: push_state_def record_event_def cbind_apply split: prod.splits if_splits)

lemma put_variables_cases:
  assumes "put_variables c lines s = (res, s')"
  shows "journal s' = journal s \<and> tf_state s' = tf_state s \<and> trace s' = trace s
    \<and> (tf_variables s' = Some lines \<or> (\<exists>e. res = Inl e) \<and> tf_variables s' = tf_variables s)"
  using assms by (auto simp: put_variables_def split: prod.splits write_outcome.splits)

lemma updateTFState_cases:
  assumes "updateTFState c inventory_path sz s = (res, s')"
  shows "journal s' = journal s \<and>
    (case res of
       Inl _ \<Rightarrow> inventory_path \<noteq> permanent_inventory \<and> update_failed c sz s s'
     | Inr pushed \<Rightarrow>
         if pushed then inventory_path \<noteq> permanent_inventory \<and> update_done c sz s s'
         else inventory_path = permanent_inventory \<and> s' = s)"
proof (cases "inventory_path = permanent_inventory \<or> tf_state s = None \<or> tf_variables s = None")
  case True
  then show ?thesis
    using assms by (cases "tf_state s"; cases "tf_variables s")
      (auto simp: updateTFState_def update_failed_def cbind_apply split: if_splits)
next
  case False
  then obtain state_lines variables_lines where
    files: "tf_state s = Some state_lines" "tf_variables s = Some variables_lines" by auto
  show ?thesis
  proof (cases "rewrite_state sz state_lines"; cases "rewrite_variables sz variables_lines")
    fix new_state new_variables
    assume new: "rewrite_state sz state_lines = Inr new_state"
      "rewrite_variables sz variables_lines = Inr new_variables"
    obtain staged s1 where stage: "api (stage_tf_files c) s = (staged, s1)" by fastforce
    have staging: "journal s1 = journal s" "trace s1 = trace s" "tf_state s1 = tf_state s"
      "tf_variables s1 = tf_variables s"
      using api_world [OF stage] by simp_all
    obtain pushed s2 where push: "push_state c state_lines new_state s1 = (pushed, s2)" by fastforce
    obtain put s3 where put: "put_variables c new_variables s2 = (put, s3)" by fastforce
    note effects = push_state_cases [OF push]
    note last = put_variables_cases [OF put]
    have went: "size_pushed c sz (pushed = Inr ()) s s2"
      using effects staging files new(1) unfolding size_pushed_def by auto
    show ?thesis
    proof (cases "staged"; cases "pushed")
      fix u v
      assume good: "staged = Inr u" "pushed = Inr v"
      then have "s' = s3" "res = (case put of Inl e \<Rightarrow> Inl e | Inr _ \<Rightarrow> Inr True)"
        using assms False files new stage push put
        by (auto simp: updateTFState_def cbind_apply split: sum.splits)
      moreover have "size_pushed c sz True s s3"
        using went last good by (simp add: size_pushed_def)
      moreover have "size_in_variables sz s s3 \<or> (\<exists>e. put = Inl e) \<and> tf_variables s3 = tf_variables s"
        using last effects staging files(2) new(2) by (auto simp: size_in_variables_def)
      ultimately show ?thesis
        using last effects staging False
        by (cases put) (auto simp: update_done_def update_failed_def)
    next
      fix u e
      assume "staged = Inr u" "pushed = Inl e"
      then have "s' = s2" "res = Inl e"
        using assms False files new stage push by (auto simp: updateTFState_def cbind_apply)
      then show ?thesis
        using went effects staging False \<open>pushed = Inl e\<close> by (simp add: update_failed_def)
    qed (use assms False files new stage staging in
        \<open>auto simp: updateTFState_def cbind_apply update_failed_def\<close>)
  qed (use assms False files in \<open>auto simp: updateTFState_def cbind_apply update_failed_def\<close>)
qed

text \<open>
  C33: the size is recorded in order. If the update returns true, the rewriting of the state for
  the given size was pushed, once and with success, and the variables file holds its rewriting
  for the same size; it returns false only for the permanent inventory, without doing anything.
  If it raises, either nothing was pushed and both files are as they were, or the push was tried
  and failed and the variables file is as it was, or the push succeeded and the variables file
  is as it was or already its rewriting for that size: it is never ahead of the state. The
  journal is not touched.
\<close>

theorem update_is_ordered:
  assumes "updateTFState c inventory_path sz s = (res, s')"
  shows "journal s' = journal s \<and>
    (case res of
       Inl _ \<Rightarrow> inventory_path \<noteq> permanent_inventory \<and> update_failed c sz s s'
     | Inr pushed \<Rightarrow>
         if pushed then inventory_path \<noteq> permanent_inventory \<and> update_done c sz s s'
         else inventory_path = permanent_inventory \<and> s' = s)"
  using assms by (rule updateTFState_cases)

definition sample_variables_lines :: "string list" where
  "sample_variables_lines =
     [''variable \"node_count\" { default = \"4\" }'' @ [CHR 0x0A]]"

definition tf_start :: "nat run" where
  "tf_start = \<lparr>world_of = 0, journal = Absent, tf_state = Some sample_state_lines,
     tf_variables = Some sample_variables_lines, files = [], trace = []\<rparr>"

text \<open>A cloud in which Terraform works, and one in which the directory cannot be synced.\<close>

definition pushing :: "nat cloud \<Rightarrow> nat cloud" where
  "pushing c = c\<lparr>stage_tf_files := creturn (), push_tf_state := \<lambda>lines old w. ((True, lines), w),
     replace_variables := \<lambda>w. (Written, w)\<rparr>"

definition tf_cloud :: "nat cloud" where
  "tf_cloud = pushing refusing_cloud"

definition unsynced_cloud :: "nat cloud" where
  "unsynced_cloud = tf_cloud\<lparr>replace_variables := \<lambda>w. (SyncFailed ''fsync'', w)\<rparr>"

lemma update_is_ordered_witness:
  "update_done tf_cloud 3 tf_start (snd (updateTFState tf_cloud ''/clusters/a/inventory'' 3 tf_start))
    \<and> update_failed unsynced_cloud 3 tf_start
        (snd (updateTFState unsynced_cloud ''/clusters/a/inventory'' 3 tf_start))"
proof
  let ?r = "updateTFState tf_cloud ''/clusters/a/inventory'' 3 tf_start"
  have "fst ?r = Inr True" by code_simp
  then have "?r = (Inr True, snd ?r)" by (simp add: prod_eq_iff)
  from update_is_ordered [OF this] show "update_done tf_cloud 3 tf_start (snd ?r)" by simp
next
  let ?r = "updateTFState unsynced_cloud ''/clusters/a/inventory'' 3 tf_start"
  have "fst ?r = Inl (OtherFailure ''fsync'')" by code_simp
  then have "?r = (Inl (OtherFailure ''fsync''), snd ?r)" by (simp add: prod_eq_iff)
  from update_is_ordered [OF this] show "update_failed unsynced_cloud 3 tf_start (snd ?r)" by simp
qed

text \<open>
  After a failed sync both files already carry the new size although the run ends with an error.
\<close>

lemma unsynced_update:
  "fst (updateTFState unsynced_cloud ''/clusters/a/inventory'' 3 tf_start)
      = Inl (OtherFailure ''fsync'')"
  "tf_variables (snd (updateTFState unsynced_cloud ''/clusters/a/inventory'' 3 tf_start))
      = Some [''variable \"node_count\" { default = \"3\" }'' @ [CHR 0x0A]]"
  by code_simp+

end
