(* ===== verification/Removal.thy ===== *)
theory Removal
  imports Volume_Attachment Journal Terraform
begin

text \<open>
  Taking a node with a managed local volume out of its pool, and finishing removals that were
  interrupted (\<open>bin/resize.py\<close>): detach, terminate, delete the volume, clean up the DNS
  records, record the new pool size, and only then drop the record from the journal.
  The variables of the script's main program that these functions read are a \<open>session\<close>.
\<close>

record session =
  s_cluster :: string
  s_compartment :: string
  s_inventory :: inventory
  s_inventory_path :: string
  s_dns :: bool
  s_zone :: string
  s_queue :: "string option"
  s_instance_type :: string
  s_subnet :: "(int \<times> nat) option"

section \<open>Pool membership\<close>

definition find_cluster_instance_by_name ::
  "'w cloud \<Rightarrow> string \<Rightarrow> string \<Rightarrow> string \<Rightarrow> ('w, (string \<times> cloud_instance) option) resize" where
  "find_cluster_instance_by_name c compartment name cluster =
     cbind (api (list_instances_named c compartment name)) (\<lambda>instances.
     case filter (\<lambda>(iid, i). instance_name i = name \<and> instance_state i \<noteq> ''TERMINATED''
                    \<and> parent_cluster (tag_dict (instance_tags i)) = Some cluster) instances of
       [] \<Rightarrow> creturn None
     | m # ms \<Rightarrow> if ms = [] then creturn (Some m)
                else craise (RuntimeError (''Multiple active instances named '' @ name
                  @ '' belong to cluster '' @ cluster)))"

definition is_pool_member :: "'w cloud \<Rightarrow> string \<Rightarrow> string \<Rightarrow> string \<Rightarrow> ('w, bool) resize" where
  "is_pool_member c compartment pool iid =
     cbind (api (list_pool_instances c compartment pool)) (\<lambda>members. creturn (iid \<in> set (map fst members)))"

text \<open>
  After a failed detach, the loop \<open>while time.time() < deadline\<close> looks whether the instance has
  left the pool after all; errors of the lookup are ignored.
\<close>

fun await_detached ::
  "'w cloud \<Rightarrow> nat \<Rightarrow> rat \<Rightarrow> ('w, bool) resize \<Rightarrow> resize_error \<Rightarrow> ('w, unit) resize" where
  "await_detached c 0 deadline member detach_error = craise Diverged"
| "await_detached c (Suc rounds) deadline member detach_error =
     cbind (clock c) (\<lambda>t.
     if t < deadline
     then cbind (ctry member (\<lambda>_. creturn True)) (\<lambda>still.
          if \<not> still then creturn ()
          else cbind (sleep c 5) (\<lambda>_. await_detached c rounds deadline member detach_error))
     else craise detach_error)"

definition detach_if_needed :: "'w cloud \<Rightarrow> string \<Rightarrow> string \<Rightarrow> string \<Rightarrow> ('w, unit) resize" where
  "detach_if_needed c compartment pool iid =
     cbind (is_pool_member c compartment pool iid) (\<lambda>member.
     if \<not> member then creturn ()
     else ctry (request (Asked_detach pool iid) (detach_pool_instance c pool iid))
       (\<lambda>detach_error. cbind (clock c) (\<lambda>start.
          await_detached c (rounds_for 120 5) (start + 120)
            (is_pool_member c compartment pool iid) detach_error)))"

section \<open>The managed volume of an instance\<close>

definition get_exclusive_attachment ::
  "'w cloud \<Rightarrow> session \<Rightarrow> string \<Rightarrow> string \<Rightarrow> ('w, attachment option) resize" where
  "get_exclusive_attachment c ses compartment iid =
     cbind (api (get_instance c iid)) (\<lambda>inst.
     cbind (clift (get_instance_config iid inst (s_inventory ses) (s_cluster ses))) (\<lambda>expected_config.
     if expected_config = None then creturn None
     else cbind (read_attachments c compartment iid) (\<lambda>attachments.
     if filter live_local attachments = [] then creturn None
     else cbind (get_local_block_volume_attachment c compartment iid 0 expected_config
                   (s_cluster ses) inst) (\<lambda>managed.
     let launch_created = filter (\<lambda>a. at_state a \<noteq> ''DETACHED'' \<and> at_at_launch a = Some True)
                            attachments
     in if at_at_launch managed = Some True \<and> 1 < length launch_created
        then craise (RuntimeError (''Refusing to terminate instance '' @ iid
          @ '' because deleting its managed local scratch volume would also delete''
          @ '' another launch-created data volume''))
        else creturn (Some managed)))))"

definition created_at_launch :: "attachment option \<Rightarrow> bool" where
  "created_at_launch managed =
     (case managed of None \<Rightarrow> False | Some a \<Rightarrow> at_at_launch a = Some True)"

definition has_exclusive_volume ::
  "'w cloud \<Rightarrow> session \<Rightarrow> string \<Rightarrow> string \<Rightarrow> ('w, bool) resize" where
  "has_exclusive_volume c ses compartment iid =
     cbind (get_exclusive_attachment c ses compartment iid) (\<lambda>managed.
     creturn (created_at_launch managed))"

section \<open>Deleting a volume and terminating an instance\<close>

text \<open>One iteration; the variable it carries is \<open>delete_requested\<close>.\<close>

definition delete_round :: "'w cloud \<Rightarrow> string \<Rightarrow> bool \<Rightarrow> ('w, unit + bool) resize" where
  "delete_round c vid delete_requested =
     cbind (if_found (read_volume c vid)) (\<lambda>found.
     case found of
       None \<Rightarrow> creturn (Inl ())
     | Some v \<Rightarrow>
         if vol_state v = ''TERMINATED'' then creturn (Inl ())
         else if delete_requested then creturn (Inr True)
         else ctry (cbind (request (Asked_delete_volume vid) (delete_volume c vid))
                      (\<lambda>_. creturn (Inr True)))
           (\<lambda>e. if e = Api (ServiceError 404) then creturn (Inl ())
                else if e = Api (ServiceError 409) then creturn (Inr False)
                else craise e))"

definition delete_managed_volume :: "'w cloud \<Rightarrow> string \<Rightarrow> rat \<Rightarrow> ('w, unit) resize" where
  "delete_managed_volume c vid max_wait =
     cbind (clock c) (\<lambda>start.
     poll_until c (rounds_for max_wait 5) (start + max_wait) 5
       (RuntimeError (''Timed out while deleting managed local scratch volume '' @ vid))
       (delete_round c vid) False)"

definition terminate_round :: "'w cloud \<Rightarrow> string \<Rightarrow> unit \<Rightarrow> ('w, unit + unit) resize" where
  "terminate_round c iid _ =
     cbind (if_found (api (get_instance c iid))) (\<lambda>found.
     case found of
       None \<Rightarrow> creturn (Inl ())
     | Some i \<Rightarrow> if instance_state i = ''TERMINATED'' then creturn (Inl ()) else creturn (Inr ()))"

text \<open>The request; \<open>True\<close> when the instance is gone already.\<close>

definition ask_terminate ::
  "'w cloud \<Rightarrow> session \<Rightarrow> string \<Rightarrow> bool option \<Rightarrow> ('w, bool) resize" where
  "ask_terminate c ses iid delete_launch_created =
     cbind (case delete_launch_created of
         None \<Rightarrow> has_exclusive_volume c ses (s_compartment ses) iid
       | Some b \<Rightarrow> creturn b) (\<lambda>b.
     ctry (cbind (request (Asked_terminate iid b) (terminate_instance c iid (\<not> b)))
             (\<lambda>_. creturn False))
       (\<lambda>e. if e = Api (ServiceError 404) then creturn True else craise e))"

definition terminate_and_delete ::
  "'w cloud \<Rightarrow> session \<Rightarrow> string \<Rightarrow> rat \<Rightarrow> bool option \<Rightarrow> ('w, unit) resize" where
  "terminate_and_delete c ses iid max_wait delete_launch_created =
     cbind (if_found (api (get_instance c iid))) (\<lambda>found.
     case found of
       None \<Rightarrow> creturn ()
     | Some i \<Rightarrow>
         if instance_state i = ''TERMINATED'' then creturn ()
         else cbind (if instance_state i \<noteq> ''TERMINATING''
                     then ask_terminate c ses iid delete_launch_created
                     else creturn False) (\<lambda>gone.
              if gone then creturn ()
              else cbind (clock c) (\<lambda>start.
                poll_until c (rounds_for max_wait 10) (start + max_wait) 10
                  (RuntimeError (''Timed out while terminating instance '' @ iid))
                  (terminate_round c iid) ())))"

section \<open>The record of a removal\<close>

definition opt_json :: "('a \<Rightarrow> char json) \<Rightarrow> 'a option \<Rightarrow> char json" where
  "opt_json f x = (case x of None \<Rightarrow> JNull | Some y \<Rightarrow> f y)"

definition check_pending_volume ::
  "deletion \<Rightarrow> volume \<Rightarrow> string \<Rightarrow> string \<Rightarrow> resize_error + unit" where
  "check_pending_volume r v cluster compartment =
     (let d = tag_dict (vol_tags v)
      in rbind (check (RuntimeError ''The pending local Block Volume belongs to another cluster'')
           (str_of r ''cluster_name'' = cluster)) (\<lambda>_.
         rbind (check (RuntimeError ''The pending local Block Volume belongs to another compartment'')
           (str_of r ''compartment_id'' = compartment)) (\<lambda>_.
         check (RuntimeError ''The pending local Block Volume no longer matches its ownership record'')
           (\<not> (str_of r ''volume_display_name'' \<noteq> cluster @ volume_suffix
               \<or> vol_name v \<noteq> Some (str_of r ''volume_display_name'')
               \<or> (case vol_compartment v of None \<Rightarrow> False | Some x \<Rightarrow> x \<noteq> compartment)
               \<or> parent_cluster d \<noteq> Some cluster
               \<or> map_of d ''oci_hpc_local_scratch'' \<noteq> Some ''true''
               \<or> \<not> py_eq (opt_json JInt (vol_size v)) (jget r ''size_in_gbs'')
               \<or> \<not> py_eq (opt_json JInt (vol_vpus v)) (jget r ''vpus_per_gb''))))))"

text \<open>
  \<open>ipaddress.ip_address\<close>, for the IPv4 addresses a VNIC has: four decimal numbers up to 255
  without leading zeros. The parsed address prints as the same text. (IPv6 literals are not
  modelled.)
\<close>

definition parse_octet :: "string \<Rightarrow> nat option" where
  "parse_octet s =
     (if s \<noteq> [] \<and> list_all is_digit s \<and> length s \<le> 3 \<and> (hd s = CHR ''0'' \<longrightarrow> length s = 1)
         \<and> digits_value s \<le> 255
      then Some (digits_value s) else None)"

definition parse_ip :: "string \<Rightarrow> int option" where
  "parse_ip s =
     (case map parse_octet (split_on CHR ''.'' s) of
        [Some a, Some b, Some x, Some y] \<Rightarrow> Some (((int a * 256 + int b) * 256 + int x) * 256 + int y)
      | _ \<Rightarrow> None)"

definition valid_pool :: "pool \<Rightarrow> string \<Rightarrow> string \<Rightarrow> bool" where
  "valid_pool p pool compartment \<longleftrightarrow>
     (case pool_id p of None \<Rightarrow> True | Some i \<Rightarrow> i = pool)
     \<and> (case pool_compartment p of None \<Rightarrow> True | Some x \<Rightarrow> x = compartment)
     \<and> int_at_least 1 (pool_size p)"

definition new_record ::
  "session \<Rightarrow> string \<Rightarrow> string \<Rightarrow> string \<Rightarrow> string \<Rightarrow> string \<Rightarrow> cloud_instance \<Rightarrow> pool \<Rightarrow> volume
     \<Rightarrow> deletion" where
  "new_record ses compartment pool iid ip vid inst p v =
     [(''cluster_name'', JStr (s_cluster ses)),
      (''compartment_id'', JStr compartment),
      (''instance_id'', JStr iid),
      (''instance_display_name'', JStr (instance_name inst)),
      (''instance_private_ip'', JStr ip),
      (''instance_pool_id'', JStr pool),
      (''instance_pool_size_before_removal'', pool_size p),
      (''volume_id'', JStr vid),
      (''volume_display_name'', opt_json JStr (vol_name v)),
      (''size_in_gbs'', opt_json JInt (vol_size v)),
      (''vpus_per_gb'', opt_json JInt (vol_vpus v))]"

definition build_record ::
  "'w cloud \<Rightarrow> session \<Rightarrow> string \<Rightarrow> string \<Rightarrow> string \<Rightarrow> string \<Rightarrow> string \<Rightarrow> ('w, deletion) resize" where
  "build_record c ses compartment pool iid ip vid =
     cbind (api (get_instance c iid)) (\<lambda>inst.
     cbind (clift (check (RuntimeError ''The local Block Volume instance belongs to another cluster'')
       (parent_cluster (tag_dict (instance_tags inst)) = Some (s_cluster ses)))) (\<lambda>_.
     cbind (clift (check
       (RuntimeError ''The local Block Volume instance has an invalid private IP address'')
       (parse_ip ip \<noteq> None))) (\<lambda>_.
     cbind (api (get_instance_pool c pool)) (\<lambda>p.
     cbind (clift (check
       (RuntimeError ''The local Block Volume instance pool has an invalid identity or size'')
       (valid_pool p pool compartment))) (\<lambda>_.
     cbind (read_volume c vid) (\<lambda>v.
     let r = new_record ses compartment pool iid ip vid inst p v
     in cbind (clift (validate_record (JObj r))) (\<lambda>_.
        cbind (clift (check_pending_volume r v (s_cluster ses) compartment)) (\<lambda>_.
        creturn r))))))))"

text \<open>A volume that does not go with the instance is recorded before anything is changed.\<close>

definition journal_removal ::
  "'w cloud \<Rightarrow> session \<Rightarrow> string \<Rightarrow> string \<Rightarrow> string \<Rightarrow> string \<Rightarrow> attachment option
     \<Rightarrow> ('w, deletion option) resize" where
  "journal_removal c ses compartment pool iid ip managed =
     (case managed of
        None \<Rightarrow> creturn None
      | Some a \<Rightarrow>
          if created_at_launch managed then creturn None
          else cbind (build_record c ses compartment pool iid ip (at_volume a)) (\<lambda>r.
               cbind (remember_deletion c r) (\<lambda>_. creturn (Some r))))"

definition remove_pool_member ::
  "'w cloud \<Rightarrow> session \<Rightarrow> string \<Rightarrow> string \<Rightarrow> string \<Rightarrow> string \<Rightarrow> ('w, deletion option) resize" where
  "remove_pool_member c ses compartment pool iid ip =
     cbind (get_exclusive_attachment c ses compartment iid) (\<lambda>managed.
     cbind (journal_removal c ses compartment pool iid ip managed) (\<lambda>pending.
     cbind (detach_if_needed c compartment pool iid) (\<lambda>_.
     cbind (terminate_and_delete c ses iid 1800 (Some (created_at_launch managed))) (\<lambda>_.
     cbind (case pending of
         None \<Rightarrow> creturn ()
       | Some r \<Rightarrow> delete_managed_volume c (volume_id r) 1800) (\<lambda>_.
     creturn pending)))))"

lemmas removal_equations [code] =
  find_cluster_instance_by_name_def [THEN fun_cong] is_pool_member_def [THEN fun_cong]
  await_detached.simps [THEN fun_cong] detach_if_needed_def [THEN fun_cong]
  get_exclusive_attachment_def [THEN fun_cong] has_exclusive_volume_def [THEN fun_cong]
  delete_round_def [THEN fun_cong] delete_managed_volume_def [THEN fun_cong]
  terminate_round_def [THEN fun_cong] ask_terminate_def [THEN fun_cong]
  terminate_and_delete_def [THEN fun_cong] build_record_def [THEN fun_cong]
  journal_removal_def [THEN fun_cong] remove_pool_member_def [THEN fun_cong]

section \<open>Requests of a removal\<close>

text \<open>
  What a removal of instance \<open>iid\<close> may ask for: to detach and terminate that instance, and to
  delete the volume of the record \<open>p\<close> it has put into the journal. With a record, terminating
  never deletes volumes by itself.
\<close>

definition removal_event :: "string \<Rightarrow> deletion option \<Rightarrow> event \<Rightarrow> char doc \<Rightarrow> bool" where
  "removal_event iid p ev j \<longleftrightarrow>
     (case ev of
        Saw_volume _ _ \<Rightarrow> True
      | Saw_attachments _ _ \<Rightarrow> True
      | Asked_detach _ i \<Rightarrow> i = iid
      | Asked_terminate i b \<Rightarrow> i = iid \<and> (b \<longrightarrow> p = None)
      | Asked_delete_volume v \<Rightarrow> (case p of None \<Rightarrow> False | Some r \<Rightarrow> v = volume_id r)
      | _ \<Rightarrow> False)"

lemma reading_is_removal: "is_reading ev j \<Longrightarrow> removal_event iid p ev j"
  by (cases ev) (auto simp: is_reading_def removal_event_def)

lemma quiet_reading_removal: "keeps (quiet is_reading) m \<Longrightarrow> keeps (quiet (removal_event iid p)) m"
  by (auto intro!: keepsI dest!: keepsD elim!: quiet_mono intro: reading_is_removal)

lemma is_pool_member_quiet [quiet_intros]: "keeps (quiet P) (is_pool_member c compartment pool iid)"
  unfolding is_pool_member_def by (intro quiet_intros)

lemma await_detached_quiet [quiet_intros]:
  "keeps (quiet P) m \<Longrightarrow> keeps (quiet P) (await_detached c n d m e)"
proof (induction n)
  case 0
  show ?case by (simp only: await_detached.simps) (intro quiet_intros)
next
  case (Suc n)
  show ?case by (simp only: await_detached.simps) (intro quiet_intros Suc)
qed

lemma detach_if_needed_quiet [quiet_intros]:
  "(\<And>j. P (Asked_detach pool iid) j) \<Longrightarrow> keeps (quiet P) (detach_if_needed c compartment pool iid)"
  unfolding detach_if_needed_def by (intro quiet_intros)

lemma get_exclusive_attachment_quiet [quiet_intros]:
  "keeps (quiet is_reading) (get_exclusive_attachment c ses compartment iid)"
  unfolding get_exclusive_attachment_def Let_def by (intro quiet_intros) (simp add: is_reading_def)

lemma has_exclusive_volume_quiet [quiet_intros]:
  "keeps (quiet is_reading) (has_exclusive_volume c ses compartment iid)"
  unfolding has_exclusive_volume_def by (intro quiet_intros)

lemma delete_managed_volume_quiet [quiet_intros]:
  "(\<And>j v. P (Saw_volume vid v) j) \<Longrightarrow> (\<And>j. P (Asked_delete_volume vid) j) \<Longrightarrow>
     keeps (quiet P) (delete_managed_volume c vid max_wait)"
  unfolding delete_managed_volume_def delete_round_def by (intro quiet_intros)

lemma terminate_round_quiet [quiet_intros]: "keeps (quiet P) (terminate_round c iid b)"
  unfolding terminate_round_def by (intro quiet_intros)

lemma terminate_and_delete_quiet [quiet_intros]:
  "(\<And>j. P (Asked_terminate iid b) j) \<Longrightarrow>
     keeps (quiet P) (terminate_and_delete c ses iid max_wait (Some b))"
  unfolding terminate_and_delete_def ask_terminate_def option.case cbind_creturn by (intro quiet_intros)

lemma build_record_quiet [quiet_intros]:
  "keeps (quiet is_reading) (build_record c ses compartment pool iid ip vid)"
  unfolding build_record_def Let_def by (intro quiet_intros) (simp add: is_reading_def)

lemma build_record_Inr:
  assumes "build_record c ses compartment pool iid ip vid s = (Inr r, s')"
  shows "volume_id r = vid" and "str_of r ''instance_id'' = iid" and "valid_record r"
proof -
  obtain inst p v where "r = new_record ses compartment pool iid ip vid inst p v" "valid_record r"
    using assms
    by (clarsimp simp: build_record_def cbind_Inr_iff Let_def validate_record_iff)
  then show "volume_id r = vid" "str_of r ''instance_id'' = iid" "valid_record r"
    by (simp_all add: new_record_def volume_id_def str_of_def jget_def)
qed

text \<open>Requests that change the cloud, after which a crash must leave a trace on disk.\<close>

definition is_change :: "event \<Rightarrow> bool" where
  "is_change ev \<longleftrightarrow> (case ev of Saw_volume _ _ \<Rightarrow> False | Saw_attachments _ _ \<Rightarrow> False | _ \<Rightarrow> True)"

definition journalled :: "deletion option \<Rightarrow> char doc \<Rightarrow> bool" where
  "journalled p j \<longleftrightarrow> (case p of None \<Rightarrow> True | Some r \<Rightarrow> recorded j r)"

lemma removal_tail:
  assumes "(cbind (detach_if_needed c compartment pool iid) (\<lambda>_.
      cbind (terminate_and_delete c ses iid 1800 (Some at_launch)) (\<lambda>_.
      cbind (case p of
          None \<Rightarrow> creturn ()
        | Some r \<Rightarrow> delete_managed_volume c (volume_id r) 1800) (\<lambda>_.
      creturn p)))) s = (res, s')"
    and "at_launch \<longrightarrow> p = None"
  shows "quiet (removal_event iid p) s s' \<and> (\<forall>q. res = Inr q \<longrightarrow> q = p)"
proof -
  have "keeps (quiet (removal_event iid p)) (cbind (detach_if_needed c compartment pool iid) (\<lambda>_.
      cbind (terminate_and_delete c ses iid 1800 (Some at_launch)) (\<lambda>_.
      cbind (case p of
          None \<Rightarrow> creturn ()
        | Some r \<Rightarrow> delete_managed_volume c (volume_id r) 1800) (\<lambda>_.
      creturn p))))"
    using assms(2) by (intro quiet_intros) (auto simp: removal_event_def)
  then have "quiet (removal_event iid p) s s'" using assms(1) by (rule keepsD)
  moreover have "\<forall>q. res = Inr q \<longrightarrow> q = p"
    using assms(1) by (auto simp: cbind_Inr_iff)
  ultimately show ?thesis by blast
qed

text \<open>An entry of the trace a removal may add: a change finds its record in the journal.\<close>

definition removal_entry :: "string \<Rightarrow> deletion option \<Rightarrow> event \<times> char doc \<Rightarrow> bool" where
  "removal_entry iid p entry \<longleftrightarrow>
     (case entry of (ev, j) \<Rightarrow> removal_event iid p ev j \<and> (is_change ev \<longrightarrow> journalled p j))"

text \<open>What holds after a part that only reads and adds to the journal.\<close>

definition prepared :: "deletion list \<Rightarrow> 'w run \<Rightarrow> 'w run \<Rightarrow> bool" where
  "prepared rs s s' \<longleftrightarrow>
     grows (\<lambda>(ev, j). is_reading ev j) s s'
     \<and> (\<exists>rs'. load_journal (journal s') = Inr rs' \<and> set rs \<subseteq> set rs')"

lemma quiet_prepared:
  "quiet is_reading s s' \<Longrightarrow> load_journal (journal s) = Inr rs \<Longrightarrow> prepared rs s s'"
  unfolding prepared_def quiet_def grows_def by (fastforce simp: list_all_iff is_reading_def)

lemma remember_deletion_prepared:
  assumes "remember_deletion c r s2 = (res, s')" and "quiet is_reading s s2"
    and "load_journal (journal s) = Inr rs"
  shows "prepared rs s s' \<and> (res = Inr () \<longrightarrow> recorded (journal s') r)"
proof -
  have "load_journal (journal s2) = Inr rs" using assms(2,3) by (simp add: quiet_journal)
  from remember_outcome [OF assms(1) this] remember_deletion_trace [OF assms(1)] assms(2)
  show ?thesis
    unfolding prepared_def quiet_def grows_def by (fastforce simp: list_all_iff is_reading_def)
qed

lemma journal_removal_prepared:
  assumes "journal_removal c ses compartment pool iid ip managed s1 = (res, s')"
    and "quiet is_reading s s1" and "load_journal (journal s) = Inr rs"
  shows "prepared rs s s' \<and> (\<forall>p. res = Inr p \<longrightarrow> journalled p (journal s')
    \<and> (created_at_launch managed \<longrightarrow> p = None))"
proof (cases "managed = None \<or> created_at_launch managed")
  case True
  then have "journal_removal c ses compartment pool iid ip managed = creturn None"
    by (auto simp: journal_removal_def split: option.splits)
  with assms quiet_prepared show ?thesis by (auto simp: journalled_def)
next
  case False
  then obtain a where a: "managed = Some a" by auto
  obtain rec s2 where build: "build_record c ses compartment pool iid ip (at_volume a) s1 = (rec, s2)"
    by fastforce
  then have s2: "quiet is_reading s s2"
    using assms(2) build_record_quiet by (blast dest: keepsD intro: quiet_trans)
  show ?thesis
  proof (cases rec)
    case (Inl e)
    with assms(1) a False build have "s' = s2" "res = Inl e"
      by (auto simp: journal_removal_def cbind_apply)
    with quiet_prepared [OF s2 assms(3)] show ?thesis by simp
  next
    case (Inr r)
    obtain saved s3 where saved: "remember_deletion c r s2 = (saved, s3)" by fastforce
    from remember_deletion_prepared [OF this s2 assms(3)] assms(1) a False build Inr saved
    show ?thesis
      by (cases saved) (auto simp: journal_removal_def cbind_apply journalled_def)
  qed
qed

lemma prepared_failed:
  assumes "prepared rs s t" and "res = Inl e"
  shows "\<exists>p reads rest rs'. trace t = trace s @ reads @ rest
    \<and> list_all (\<lambda>(ev, j). is_reading ev j) reads
    \<and> list_all (removal_entry iid p) rest
    \<and> (rest = [] \<and> (\<exists>e. res = Inl e) \<or> Q p reads)
    \<and> (\<forall>q. res = Inr q \<longrightarrow> q = p)
    \<and> load_journal (journal t) = Inr rs' \<and> set rs \<subseteq> set rs'"
proof -
  obtain rs' reads where "load_journal (journal t) = Inr rs'" "set rs \<subseteq> set rs'"
    "trace t = trace s @ reads" "list_all (\<lambda>(ev, j). is_reading ev j) reads"
    using assms(1) by (auto simp: prepared_def grows_def)
  then show ?thesis
    using assms(2) by (intro exI [of _ None] exI [of _ reads] exI [of _ "[]"] exI [of _ rs']) simp
qed

lemma journal_removal_grows:
  assumes "journal_removal c ses compartment pool iid ip managed s = (res, s')"
  shows "\<exists>later. trace s' = trace s @ later"
proof -
  have "keeps (grows (\<lambda>_. True)) (build_record c ses compartment pool iid ip vid)" for vid
    by (rule keepsI) (rule grows_mono [OF quiet_grows [OF keepsD [OF build_record_quiet]]], assumption, simp)
  moreover have "keeps (grows (\<lambda>_. True)) (remember_deletion c r)" for r
    by (auto intro!: keepsI grows_same dest: remember_deletion_trace)
  ultimately have "keeps (grows (\<lambda>_. True)) (journal_removal c ses compartment pool iid ip managed)"
    unfolding journal_removal_def by (auto split: option.splits)
  from keepsD [OF this assms] show ?thesis by (auto simp: grows_def)
qed

lemma quiet_removal_entries:
  assumes "quiet (removal_event iid p) s s'" and "journalled p (journal s)"
  shows "\<exists>new. trace s' = trace s @ new \<and>
    list_all (removal_entry iid p) new"
  using assms unfolding quiet_def by (fastforce simp: list_all_iff removal_entry_def)

text \<open>
  Which volume of its own the instance has, as the services showed it: \<open>reads\<close> are the readings of
  the trace since the world was \<open>w\<close>. \<open>None\<close>: the instance's tags (or, without them, the inventory)
  ask for no local volume, or no live attachment of the device was listed.
\<close>

definition volume_seen ::
  "'w cloud \<Rightarrow> session \<Rightarrow> string \<Rightarrow> 'w \<Rightarrow> (event \<times> char doc) list \<Rightarrow> attachment option \<Rightarrow> bool" where
  "volume_seen c ses iid w reads managed \<longleftrightarrow>
     (\<exists>inst w'. get_instance c iid w = (Inr inst, w') \<and>
       (let config = get_instance_config iid inst (s_inventory ses) (s_cluster ses)
        in case managed of
             None \<Rightarrow> config = Inr None
               \<or> (\<exists>ats. Saw_attachments iid ats \<in> fst ` set reads \<and> filter live_local ats = [])
           | Some a \<Rightarrow> \<exists>cfg ats v. config = Inr (Some cfg)
               \<and> Saw_attachments iid ats \<in> fst ` set reads \<and> usable_attachment iid ats a
               \<and> Saw_volume (at_volume a) v \<in> fst ` set reads
               \<and> own_volume (s_cluster ses) (instance_name inst) cfg a v))"

text \<open>
  The record a removal works with: that of the instance's volume, unless there is none or it
  was created with the instance and goes with it.
\<close>

definition record_for :: "string \<Rightarrow> attachment option \<Rightarrow> deletion option \<Rightarrow> bool" where
  "record_for iid managed p \<longleftrightarrow>
     (case p of
        None \<Rightarrow> managed = None \<or> created_at_launch managed
      | Some r \<Rightarrow> \<not> created_at_launch managed \<and> str_of r ''instance_id'' = iid
          \<and> map_option at_volume managed = Some (volume_id r))"

lemma get_exclusive_attachment_seen:
  assumes "get_exclusive_attachment c ses compartment iid s = (Inr managed, s1)"
  shows "\<exists>reads. trace s1 = trace s @ reads \<and> list_all (\<lambda>(ev, j). is_reading ev j) reads
    \<and> volume_seen c ses iid (world_of s) reads managed"
proof -
  have "quiet is_reading s s1" using keepsD [OF get_exclusive_attachment_quiet assms] .
  then obtain reads where reads: "trace s1 = trace s @ reads" "list_all (\<lambda>(ev, j). is_reading ev j) reads"
    by (auto simp: quiet_def list_all_iff is_reading_def split: event.splits)
  obtain inst w' config where inst: "get_instance c iid (world_of s) = (Inr inst, w')"
    and config: "get_instance_config iid inst (s_inventory ses) (s_cluster ses) = Inr config"
    and rest: "(if config = None then creturn None
     else cbind (read_attachments c compartment iid) (\<lambda>attachments.
     if filter live_local attachments = [] then creturn None
     else cbind (get_local_block_volume_attachment c compartment iid 0 config
                   (s_cluster ses) inst) (\<lambda>managed.
     let launch_created = filter (\<lambda>a. at_state a \<noteq> ''DETACHED'' \<and> at_at_launch a = Some True)
                            attachments
     in if at_at_launch managed = Some True \<and> 1 < length launch_created
        then craise (RuntimeError (''Refusing to terminate instance '' @ iid
          @ '' because deleting its managed local scratch volume would also delete''
          @ '' another launch-created data volume''))
        else creturn (Some managed)))) (s\<lparr>world_of := w'\<rparr>) = (Inr managed, s1)"
    using assms unfolding get_exclusive_attachment_def by (auto simp: cbind_Inr_iff api_Inr)
  show ?thesis
  proof (cases config)
    case None
    then have "managed = None" using rest by simp
    then show ?thesis using reads inst config None by (auto simp: volume_seen_def)
  next
    case (Some cfg)
    obtain ats s2 where ats: "read_attachments c compartment iid (s\<lparr>world_of := w'\<rparr>) = (Inr ats, s2)"
      using rest Some by (auto simp: cbind_Inr_iff)
    then have s2: "trace s2 = trace s @ [(Saw_attachments iid ats, journal s)]"
      by (auto simp: read_attachments_def reading_Inr)
    show ?thesis
    proof (cases "filter live_local ats = []")
      case True
      then have "managed = None \<and> s1 = s2" using rest Some ats by (auto simp: cbind_Inr_iff)
      then show ?thesis
        using True s2 inst config
        by (intro exI [of _ "[(Saw_attachments iid ats, journal s)]"])
          (auto simp: volume_seen_def is_reading_def)
    next
      case False
      obtain a where a: "managed = Some a"
        and got: "get_local_block_volume_attachment c compartment iid 0 (Some cfg) (s_cluster ses) inst s2
          = (Inr a, s1)"
        using rest Some ats False by (auto simp: cbind_Inr_iff Let_def split: if_splits)
      obtain earlier ats' v where last: "trace s1 = trace s2 @ earlier @ [(Saw_attachments iid ats', journal s2),
            (Saw_volume (at_volume a) v, journal s2)]"
        and own: "usable_attachment iid ats' a" "own_volume (s_cluster ses) (instance_name inst) cfg a v"
        using attachment_accepted [OF got] by blast
      have "reads = (Saw_attachments iid ats, journal s) # earlier
          @ [(Saw_attachments iid ats', journal s2), (Saw_volume (at_volume a) v, journal s2)]"
        using last s2 reads(1) by simp
      then have "Saw_attachments iid ats' \<in> fst ` set reads"
        "Saw_volume (at_volume a) v \<in> fst ` set reads"
        by force+
      then have "volume_seen c ses iid (world_of s) reads managed"
        using own inst config Some a by (auto simp: volume_seen_def)
      with reads show ?thesis by blast
    qed
  qed
qed

lemma volume_seen_more: "volume_seen c ses iid w reads managed \<Longrightarrow> volume_seen c ses iid w (reads @ later) managed"
  unfolding volume_seen_def Let_def set_append image_Un by (cases managed) (simp_all, blast+)

lemma journal_removal_record:
  assumes "journal_removal c ses compartment pool iid ip managed s = (Inr p, s')"
  shows "record_for iid managed p"
proof (cases "managed = None \<or> created_at_launch managed")
  case True
  then have "journal_removal c ses compartment pool iid ip managed = creturn None"
    by (auto simp: journal_removal_def split: option.splits)
  then show ?thesis using assms True by (auto simp: record_for_def)
next
  case False
  then obtain a where a: "managed = Some a" by auto
  with False assms obtain r s1 where
    "build_record c ses compartment pool iid ip (at_volume a) s = (Inr r, s1)" "p = Some r"
    by (auto simp: journal_removal_def cbind_Inr_iff)
  then show ?thesis using a False by (auto simp: record_for_def dest: build_record_Inr)
qed


definition tagged_instance :: cloud_instance where
  "tagged_instance =
     \<lparr>instance_name = ''hpc-node-4'', instance_compartment = ''c'', instance_state = ''RUNNING'',
      instance_tags = Some [(''parent_cluster'', ''hpc''), (tag_enabled, ''true''),
        (tag_size, ''750''), (tag_vpus, ''10''), (tag_mount, ''/scratch'')]\<rparr>"

definition removal_cloud :: "nat cloud" where
  "removal_cloud = refusing_cloud
     \<lparr>get_instance := \<lambda>_ w.
        (Inr (if 100 \<le> w then tagged_instance\<lparr>instance_state := ''TERMINATED''\<rparr>
              else tagged_instance), w),
      list_volume_attachments := \<lambda>_ _. creturn [sample_attachment],
      get_volume := \<lambda>_ w. (if 200 \<le> w then Inl (ServiceError 404) else Inr sample_volume, w),
      delete_volume := \<lambda>_ w. (Inr (), w + 100),
      terminate_instance := \<lambda>_ _ w. (Inr (), w + 100),
      list_pool_instances := \<lambda>_ _ w. (Inr (if w = 0 then [(''ocid1.instance.a'', ''hpc-node-1'')] else []), w),
      detach_pool_instance := \<lambda>_ _ w. (Inr (), w + 1),
      get_instance_pool := \<lambda>_. creturn
        \<lparr>pool_id = Some ''ocid1.pool.p'', pool_compartment = None, pool_size = JInt 4\<rparr>,
      replace_journal := \<lambda>w. (Written, w)\<rparr>"

definition sample_session :: session where
  "sample_session =
     \<lparr>s_cluster = ''hpc'', s_compartment = ''c'', s_inventory = [],
      s_inventory_path = ''/opt/oci-hpc/autoscaling/clusters/hpc/inventory'', s_dns = True,
      s_zone = ''hpc.local'', s_queue = Some ''compute'', s_instance_type = ''gpu'',
      s_subnet = Some (167772160, 24)\<rparr>"

definition sample_removal :: "(resize_error + deletion option) \<times> nat run" where
  "sample_removal = remove_pool_member removal_cloud sample_session ''c'' ''ocid1.pool.p''
     ''ocid1.instance.a'' ''10.0.0.7'' sample_run_start"


end
