(* ===== verification/Resume.thy ===== *)
theory Resume
  imports Removal
begin

text \<open>
  Finishing interrupted removals (\<open>bin/resize.py\<close>): \<open>retry_pending_local_block_volume_deletions\<close>
  brings every journalled removal to the point where its volume is gone,
  \<open>cleanup_pending_local_block_volume_dns_records\<close> and
  \<open>finalize_pending_local_block_volume_deletions\<close> clean up the DNS records, record the pool
  size and drop the finished records from the journal.
\<close>

section \<open>Retrying\<close>

definition pending_instance_state ::
  "'w cloud \<Rightarrow> string \<Rightarrow> deletion \<Rightarrow> ('w, string) resize" where
  "pending_instance_state c cluster r =
     ctry (cbind (api (get_instance c (str_of r ''instance_id''))) (\<lambda>inst.
           cbind (clift (check
             (RuntimeError ''The pending local Block Volume instance belongs to another cluster'')
             (parent_cluster (tag_dict (instance_tags inst)) = Some cluster))) (\<lambda>_.
           cbind (clift (check
             (RuntimeError ''The pending local Block Volume instance name changed unexpectedly'')
             (instance_name inst = str_of r ''instance_display_name''))) (\<lambda>_.
           creturn (instance_state inst)))))
       (\<lambda>e. if e = Api (ServiceError 404) then creturn ''TERMINATED'' else craise e)"

definition retire_instance ::
  "'w cloud \<Rightarrow> session \<Rightarrow> string \<Rightarrow> bool \<Rightarrow> deletion \<Rightarrow> ('w, unit) resize" where
  "retire_instance c ses compartment resume r =
     (let pool = str_of r ''instance_pool_id''; iid = str_of r ''instance_id'';
          name = str_of r ''instance_display_name''
      in cbind (ctry (is_pool_member c compartment pool iid)
           (\<lambda>e. if e = Api (ServiceError 404) then creturn False else craise e)) (\<lambda>member.
         cbind (if member
           then (if \<not> resume
                 then craise (RuntimeError (''Pending removal for '' @ name
                   @ '' must be resumed explicitly with --nodes '' @ name))
                 else detach_if_needed c compartment pool iid)
           else creturn ()) (\<lambda>_.
         terminate_and_delete c ses iid 1800 (Some False))))"

text \<open>The volume of the record, unless it is gone, is checked against the record and deleted.\<close>

definition delete_checked :: "'w cloud \<Rightarrow> string \<Rightarrow> string \<Rightarrow> deletion \<Rightarrow> ('w, unit) resize" where
  "delete_checked c cluster compartment r =
     cbind (if_found (read_volume c (volume_id r))) (\<lambda>found.
     case found of
       None \<Rightarrow> creturn ()
     | Some v \<Rightarrow>
         cbind (clift (check_pending_volume r v cluster compartment)) (\<lambda>_.
         delete_managed_volume c (volume_id r) 1800))"

definition retry_one ::
  "'w cloud \<Rightarrow> session \<Rightarrow> string \<Rightarrow> string \<Rightarrow> bool \<Rightarrow> deletion list \<Rightarrow> deletion
     \<Rightarrow> ('w, deletion list) resize" where
  "retry_one c ses cluster compartment resume ready r =
     cbind (clift (check
       (RuntimeError ''A pending local Block Volume deletion does not match the requested cluster'')
       (str_of r ''cluster_name'' = cluster \<and> str_of r ''compartment_id'' = compartment))) (\<lambda>_.
     cbind (pending_instance_state c cluster r) (\<lambda>state.
     cbind (if state \<noteq> ''TERMINATED'' then retire_instance c ses compartment resume r
            else creturn ()) (\<lambda>_.
     cbind (delete_checked c cluster compartment r) (\<lambda>_.
     creturn (ready @ [r])))))"

definition retry_deletions ::
  "'w cloud \<Rightarrow> session \<Rightarrow> string \<Rightarrow> string \<Rightarrow> bool \<Rightarrow> ('w, deletion list) resize" where
  "retry_deletions c ses cluster compartment resume =
     cbind load_deletions (\<lambda>pending.
     cfold (retry_one c ses cluster compartment resume) [] pending)"

definition process_for_operation ::
  "'w cloud \<Rightarrow> session \<Rightarrow> string \<Rightarrow> string \<Rightarrow> string \<Rightarrow> string list \<Rightarrow> ('w, deletion list) resize" where
  "process_for_operation c ses cluster compartment mode requested_hostnames =
     cbind load_deletions (\<lambda>pending.
     let names = map (\<lambda>r. str_of r ''instance_display_name'') pending;
         resume = (mode = ''cleanup_compute_cluster''
           \<or> (mode \<in> set [''remove'', ''remove_unreachable''] \<and> set names \<subseteq> set requested_hostnames))
     in retry_deletions c ses cluster compartment resume)"

section \<open>DNS records of a removed node\<close>

definition delete_record_if_present :: "'w cloud \<Rightarrow> string \<Rightarrow> string \<Rightarrow> ('w, unit) resize" where
  "delete_record_if_present c zone_id domain =
     ctry (request (Asked_delete_record zone_id domain) (delete_rr_set c zone_id domain))
       (\<lambda>e. if e = Api (ServiceError 404) then creturn () else craise e)"

text \<open>
  \<open>list(network.hosts())\<close> of an IPv4 network given as address and prefix length: without the
  network and broadcast addresses, except in networks of one or two addresses.
\<close>

definition hosts :: "int \<times> nat \<Rightarrow> int list" where
  "hosts subnet =
     (case subnet of (network, prefix) \<Rightarrow>
        if 31 \<le> prefix then [network..network + 2 ^ (32 - prefix) - 1]
        else [network + 1..network + 2 ^ (32 - prefix) - 2])"

fun index_of :: "'a \<Rightarrow> 'a list \<Rightarrow> nat option" where
  "index_of x [] = None"
| "index_of x (y # ys) = (if x = y then Some 0 else map_option Suc (index_of x ys))"

definition missing_dns_values :: resize_error where
  "missing_dns_values = RuntimeError
     ''Inventory does not contain queue and private_subnet values required for DNS cleanup''"

definition node_domains :: "session \<Rightarrow> deletion \<Rightarrow> resize_error + string list" where
  "node_domains ses r =
     rbind (need missing_dns_values (s_queue ses)) (\<lambda>queue.
     rbind (need missing_dns_values (s_subnet ses)) (\<lambda>subnet.
     let ip = str_of r ''instance_private_ip''
     in rbind (need (ValueFailure ''not an IP address'') (parse_ip ip)) (\<lambda>private_ip.
        rbind (need (RuntimeError (''The pending node private IP is outside private_subnet: '' @ ip))
          (index_of private_ip (hosts subnet))) (\<lambda>index.
        Inr [str_of r ''instance_display_name'' @ ''.'' @ s_zone ses,
             queue @ ''-'' @ s_instance_type ses @ ''-'' @ show_nat (index + 2) @ ''.'' @ s_zone ses]))))"

definition delete_records :: "'w cloud \<Rightarrow> string \<Rightarrow> string list \<Rightarrow> ('w, unit) resize" where
  "delete_records c zone_id domains =
     cfold (\<lambda>_ domain. delete_record_if_present c zone_id domain) () domains"

definition same_as_pending :: "deletion list \<Rightarrow> deletion \<Rightarrow> bool" where
  "same_as_pending pending r =
     (case find_deletion pending (volume_id r) of None \<Rightarrow> False | Some q \<Rightarrow> same_record q r)"

definition check_ready :: "deletion list \<Rightarrow> string \<Rightarrow> string \<Rightarrow> resize_error \<Rightarrow> resize_error \<Rightarrow> deletion
    \<Rightarrow> resize_error + unit" where
  "check_ready pending cluster compartment mismatch changed r =
     rbind (validate_record (JObj r)) (\<lambda>_.
     rbind (check mismatch
       (str_of r ''cluster_name'' = cluster \<and> str_of r ''compartment_id'' = compartment)) (\<lambda>_.
     check changed (same_as_pending pending r)))"

definition cleanup_dns_records ::
  "'w cloud \<Rightarrow> session \<Rightarrow> deletion list \<Rightarrow> string \<Rightarrow> string \<Rightarrow> ('w, nat) resize" where
  "cleanup_dns_records c ses ready cluster compartment =
     (if ready = [] \<or> \<not> s_dns ses then creturn 0
      else cbind load_deletions (\<lambda>pending.
        let mismatch = RuntimeError ''A pending DNS cleanup does not match the requested cluster''
        in cbind (clift (map_err (check_ready pending cluster compartment mismatch mismatch) ready)) (\<lambda>_.
        cbind (api (list_zones c compartment (s_zone ses))) (\<lambda>zones.
        case zones of
          [] \<Rightarrow> creturn (length ready)
        | zone_id # _ \<Rightarrow>
            cbind (clift (map_err (node_domains ses) ready)) (\<lambda>domains.
            cbind (delete_records c zone_id (concat domains)) (\<lambda>_.
            creturn (length ready)))))))"

section \<open>Finalizing\<close>

record pool_view =
  pv_size :: "int option"
  pv_pool :: "string option"
  pv_names :: "string list option"
  pv_ips :: "string list option"

definition check_pool_view :: "pool_view \<Rightarrow> deletion list \<Rightarrow> resize_error + int" where
  "check_pool_view view ready =
     rbind (need (RuntimeError ''The current instance pool size is required to finalize node removal'')
       (pv_size view)) (\<lambda>size_now.
     rbind (need (RuntimeError ''The current instance pool OCID is required to finalize node removal'')
       (or_else (pv_pool view) None)) (\<lambda>pool.
     rbind (check (RuntimeError ''The pending node removal belongs to a different instance pool'')
       (\<not> list_ex (\<lambda>r. str_of r ''instance_pool_id'' \<noteq> pool) ready)) (\<lambda>_.
     rbind (check (RuntimeError
         ''The instance pool size was not decremented for every pending node removal'')
       (\<not> list_ex (\<lambda>r. pool_size_before r \<le> size_now) ready)) (\<lambda>_.
     Inr size_now))))"

definition free_node_domains ::
  "session \<Rightarrow> string list \<Rightarrow> string list \<Rightarrow> deletion \<Rightarrow> resize_error + string list" where
  "free_node_domains ses names ips r =
     (let ip = str_of r ''instance_private_ip''
      in rbind (need (ValueFailure ''not an IP address'') (parse_ip ip)) (\<lambda>_.
         rbind (check (RuntimeError
             ''A pending node hostname or private IP is in use by an active instance'')
           (str_of r ''instance_display_name'' \<notin> set names \<and> ip \<notin> set ips)) (\<lambda>_.
         node_domains ses r)))"

definition finalize_dns ::
  "'w cloud \<Rightarrow> session \<Rightarrow> pool_view \<Rightarrow> deletion list \<Rightarrow> string \<Rightarrow> ('w, unit) resize" where
  "finalize_dns c ses view ready compartment =
     (case (pv_names view, pv_ips view) of
        (Some names, Some ips) \<Rightarrow>
          cbind (api (list_zones c compartment (s_zone ses))) (\<lambda>zones.
          case zones of
            [] \<Rightarrow> craise (RuntimeError (''Private DNS zone '' @ s_zone ses @ '' was not found''))
          | zone_id # _ \<Rightarrow>
              if s_queue ses = None \<or> s_subnet ses = None then craise missing_dns_values
              else cbind (clift (map_err (free_node_domains ses names ips) ready)) (\<lambda>domains.
                   delete_records c zone_id (concat domains)))
      | _ \<Rightarrow> craise (RuntimeError ''Active instance identities are required for DNS cleanup''))"

definition finalize_deletions ::
  "'w cloud \<Rightarrow> session \<Rightarrow> deletion list \<Rightarrow> string \<Rightarrow> string \<Rightarrow> pool_view \<Rightarrow> ('w, nat) resize" where
  "finalize_deletions c ses ready cluster compartment view =
     (if ready = [] then creturn 0
      else cbind load_deletions (\<lambda>pending.
        cbind (clift (map_err (check_ready pending cluster compartment
          (RuntimeError ''A completed local Block Volume deletion does not match the requested cluster'')
          (RuntimeError ''The pending local Block Volume deletion record changed before finalization''))
          ready)) (\<lambda>_.
        cbind (clift (check_pool_view view ready)) (\<lambda>size_now.
        cbind (if s_dns ses then finalize_dns c ses view ready compartment else creturn ()) (\<lambda>_.
        cbind (updateTFState c (s_inventory_path ses) size_now) (\<lambda>_.
        cbind (write_deletions c
          (filter (\<lambda>r. volume_id r \<notin> volume_id ` set ready) pending)) (\<lambda>_.
        creturn (length ready))))))))"

section \<open>Evaluation\<close>

lemmas resume_equations [code] =
  pending_instance_state_def [THEN fun_cong] retire_instance_def [THEN fun_cong]
  delete_checked_def [THEN fun_cong] retry_one_def [THEN fun_cong] retry_deletions_def [THEN fun_cong]
  process_for_operation_def [THEN fun_cong] delete_record_if_present_def [THEN fun_cong]
  delete_records_def [THEN fun_cong] cleanup_dns_records_def [THEN fun_cong]
  finalize_dns_def [THEN fun_cong] finalize_deletions_def [THEN fun_cong]

section \<open>Retrying stays within the journal\<close>

text \<open>What the retry of a record may ask for.\<close>

definition retry_event :: "bool \<Rightarrow> deletion \<Rightarrow> event \<Rightarrow> char doc \<Rightarrow> bool" where
  "retry_event resume r ev j \<longleftrightarrow>
     (case ev of
        Saw_volume _ _ \<Rightarrow> True
      | Saw_attachments _ _ \<Rightarrow> True
      | Asked_detach pool i \<Rightarrow> resume \<and> pool = str_of r ''instance_pool_id'' \<and> i = str_of r ''instance_id''
      | Asked_terminate i b \<Rightarrow> i = str_of r ''instance_id'' \<and> \<not> b
      | Asked_delete_volume v \<Rightarrow> v = volume_id r
      | _ \<Rightarrow> False)"

definition requested :: "string \<Rightarrow> string \<Rightarrow> deletion \<Rightarrow> bool" where
  "requested cluster compartment r \<longleftrightarrow>
     str_of r ''cluster_name'' = cluster \<and> str_of r ''compartment_id'' = compartment"

lemma pending_instance_state_quiet [quiet_intros]:
  "keeps (quiet P) (pending_instance_state c cluster r)"
  unfolding pending_instance_state_def by (intro quiet_intros)

lemma retire_instance_quiet [quiet_intros]:
  "keeps (quiet (retry_event resume r)) (retire_instance c ses compartment resume r)"
  unfolding retire_instance_def Let_def by (intro quiet_intros) (simp_all add: retry_event_def)

lemma delete_checked_quiet [quiet_intros]:
  "keeps (quiet (retry_event resume r)) (delete_checked c cluster compartment r)"
  unfolding delete_checked_def by (intro quiet_intros) (simp_all add: retry_event_def)

lemma retry_one_quiet:
  assumes "retry_one c ses cluster compartment resume ready r s = (res, s')"
  shows "quiet (\<lambda>ev j. requested cluster compartment r \<and> retry_event resume r ev j) s s'"
    and "res = Inr ready' \<Longrightarrow> ready' = ready @ [r] \<and> requested cluster compartment r"
proof -
  have any: "keeps (quiet (retry_event resume r)) (retry_one c ses cluster compartment resume ready r)"
    unfolding retry_one_def by (intro quiet_intros)
  show "quiet (\<lambda>ev j. requested cluster compartment r \<and> retry_event resume r ev j) s s'"
  proof (cases "requested cluster compartment r")
    case True
    then show ?thesis using keepsD [OF any assms] by (auto elim: quiet_mono)
  next
    case False
    then have "s' = s"
      using assms by (auto simp: retry_one_def cbind_apply requested_def check_def)
    then show ?thesis by simp
  qed
  show "ready' = ready @ [r] \<and> requested cluster compartment r" if "res = Inr ready'"
    using assms unfolding that
    by (auto simp: retry_one_def cbind_Inr_iff requested_def split: option.splits)
qed

lemma retry_fold:
  assumes "cfold (retry_one c ses cluster compartment resume) ready rs s = (res, s')"
  shows "quiet (\<lambda>ev j. \<exists>r \<in> set rs. requested cluster compartment r \<and> retry_event resume r ev j) s s'
    \<and> (\<forall>ready'. res = Inr ready' \<longrightarrow>
         ready' = ready @ rs \<and> list_all (requested cluster compartment) rs)"
  using assms
proof (induction rs arbitrary: ready s)
  case Nil
  then show ?case by auto
next
  case (Cons r rs)
  let ?P = "\<lambda>rs ev j. \<exists>r \<in> set rs. requested cluster compartment r \<and> retry_event resume r ev j"
  obtain one s1 where one: "retry_one c ses cluster compartment resume ready r s = (one, s1)"
    by fastforce
  note step = retry_one_quiet [OF one]
  have here: "quiet (?P (r # rs)) s s1" using step(1) by (rule quiet_mono) auto
  show ?case
  proof (cases one)
    case (Inl e)
    with Cons.prems one have "s' = s1" "res = Inl e" by (simp_all add: cbind_apply)
    with here show ?thesis by simp
  next
    case (Inr next')
    with Cons.prems one have "cfold (retry_one c ses cluster compartment resume) next' rs s1 = (res, s')"
      by (simp add: cbind_apply)
    note rest = Cons.IH [OF this]
    then have "quiet (?P (r # rs)) s1 s'" by (auto elim: quiet_mono)
    with here rest step(2) [OF Inr] show ?thesis by (auto intro: quiet_trans)
  qed
qed

text \<open>
  C22: a retry stays within the journal. Whatever the cloud answers, it leaves the journal as it
  is; every request it sends belongs to a record of the journal for the requested cluster and
  compartment (that instance, that pool, that volume), never lets an instance's termination
  delete volumes, and takes an instance out of its pool only when the operation resumes the
  removal. If it returns, it returns all the records of the journal, in order.
\<close>

theorem retry_stays_in_journal:
  assumes "retry_deletions c ses cluster compartment resume s = (res, s')"
    and "load_journal (journal s) = Inr rs"
  shows "journal s' = journal s
    \<and> (\<exists>new. trace s' = trace s @ new
        \<and> list_all (\<lambda>(ev, j). \<exists>r \<in> set rs. requested cluster compartment r
            \<and> retry_event resume r ev j) new)
    \<and> (\<forall>ready. res = Inr ready \<longrightarrow> ready = rs)"
proof -
  have run: "cfold (retry_one c ses cluster compartment resume) [] rs s = (res, s')"
    using assms by (simp add: retry_deletions_def load_deletions_def cbind_apply)
  from retry_fold [OF run] show ?thesis
    unfolding quiet_def by (fastforce simp: list_all_iff)
qed

section \<open>No volume is deleted unseen\<close>

text \<open>
  \<open>vetted_from Q seen es\<close>: in the order of the events, every request to delete a volume comes
  after a reading of that volume that satisfies \<open>Q\<close> (or the volume is in \<open>seen\<close>).
\<close>

fun vetted_from :: "(string \<Rightarrow> volume \<Rightarrow> bool) \<Rightarrow> string set \<Rightarrow> event list \<Rightarrow> bool" where
  "vetted_from Q seen [] = True"
| "vetted_from Q seen (ev # es) =
     (case ev of
        Saw_volume vid v \<Rightarrow> vetted_from Q (if Q vid v then insert vid seen else seen) es
      | Asked_delete_volume vid \<Rightarrow> vid \<in> seen \<and> vetted_from Q seen es
      | _ \<Rightarrow> vetted_from Q seen es)"

lemma vetted_from_mono:
  "vetted_from Q seen es \<Longrightarrow> seen \<subseteq> seen' \<Longrightarrow> vetted_from Q seen' es"
proof (induction es arbitrary: seen seen')
  case (Cons ev es)
  then show ?case by (cases ev) (auto intro: Cons.IH [OF _ insert_mono])
qed simp

lemma vetted_from_append:
  "vetted_from Q seen es \<Longrightarrow> vetted_from Q {} es' \<Longrightarrow> vetted_from Q seen (es @ es')"
proof (induction es arbitrary: seen)
  case Nil
  then show ?case by (auto intro: vetted_from_mono)
next
  case (Cons ev es)
  then show ?case by (cases ev) auto
qed

lemma vetted_from_seen:
  "list_all (\<lambda>ev. \<forall>v. ev = Asked_delete_volume v \<longrightarrow> v \<in> seen) es \<Longrightarrow> vetted_from Q seen es"
proof (induction es arbitrary: seen)
  case (Cons ev es)
  then show ?case
    by (cases ev) (auto intro!: Cons.IH simp: list_all_iff)
qed simp

definition vets :: "(string \<Rightarrow> volume \<Rightarrow> bool) \<Rightarrow> 'w run \<Rightarrow> 'w run \<Rightarrow> bool" where
  "vets Q s s' \<longleftrightarrow> (\<exists>new. trace s' = trace s @ new \<and> vetted_from Q {} (map fst new))"

lemma vets_refl [simp, intro]: "vets Q s s"
  by (simp add: vets_def)

lemma vets_trans: "vets Q s t \<Longrightarrow> vets Q t v \<Longrightarrow> vets Q s v"
  by (auto simp: vets_def vetted_from_append)

lemma vets_rel [intro]: "reflp (vets Q)" "transp (vets Q)"
  by (auto intro: reflpI transpI vets_trans)

definition no_delete :: "event \<Rightarrow> char doc \<Rightarrow> bool" where
  "no_delete ev j \<longleftrightarrow> (\<forall>v. ev \<noteq> Asked_delete_volume v)"

lemma quiet_vets: "quiet no_delete s s' \<Longrightarrow> vets Q s s'"
  unfolding quiet_def vets_def
  by (fastforce simp: no_delete_def list_all_iff intro!: vetted_from_seen)

lemma keeps_vets: "keeps (quiet no_delete) m \<Longrightarrow> keeps (vets Q) m"
  by (auto intro!: keepsI dest!: keepsD intro: quiet_vets)

lemma retire_instance_no_delete: "keeps (quiet no_delete) (retire_instance c ses compartment resume r)"
  unfolding retire_instance_def Let_def by (intro quiet_intros) (simp_all add: no_delete_def)

lemma if_found_cases:
  assumes "if_found m s = (res, s')"
  obtains (raised) e where "res = Inl e" "m s = (Inl e, s')"
  | (missing) e where "res = Inr None" "m s = (Inl e, s')"
  | (found) x where "res = Inr (Some x)" "m s = (Inr x, s')"
  using assms by (auto simp: if_found_def ctry_apply cbind_apply split: prod.splits sum.splits if_splits)

lemma delete_checked_vets:
  assumes "\<And>v. check_pending_volume r v cluster compartment = Inr () \<Longrightarrow> Q (volume_id r) v"
  shows "keeps (vets Q) (delete_checked c cluster compartment r)"
proof (rule keepsI)
  fix s :: "'a run" and res s'
  assume run: "delete_checked c cluster compartment r s = (res, s')"
  obtain found s1 where found: "if_found (read_volume c (volume_id r)) s = (found, s1)" by fastforce
  have "keeps (quiet no_delete) (if_found (read_volume c (volume_id r)))"
    by (intro quiet_intros) (simp add: no_delete_def)
  then have unvetted: "vets Q s s1" using found by (blast dest: keepsD intro: quiet_vets)
  show "vets Q s s'"
  proof (cases "\<exists>v. found = Inr (Some v) \<and> check_pending_volume r v cluster compartment = Inr ()")
    case False
    then have "s' = s1"
      using run found
      by (auto simp: delete_checked_def cbind_apply split: sum.splits option.splits)
    with unvetted show ?thesis by simp
  next
    case True
    then obtain v where v: "found = Inr (Some v)"
      "check_pending_volume r v cluster compartment = Inr ()" by auto
    then have s1: "trace s1 = trace s @ [(Saw_volume (volume_id r) v, journal s)]"
      using found by (auto simp: if_found_Some read_volume_def reading_Inr)
    have "delete_managed_volume c (volume_id r) 1800 s1 = (res, s')"
      using run found v by (simp add: delete_checked_def cbind_apply)
    moreover have "keeps (quiet (\<lambda>ev j. \<forall>x. ev = Asked_delete_volume x \<longrightarrow> x = volume_id r))
        (delete_managed_volume c (volume_id r) 1800)"
      by (intro quiet_intros) simp_all
    ultimately obtain new where new: "trace s' = trace s1 @ new"
      "list_all (\<lambda>(ev, j). \<forall>x. ev = Asked_delete_volume x \<longrightarrow> x = volume_id r) new"
      by (fastforce dest!: keepsD simp: quiet_def list_all_iff)
    have "vetted_from Q {volume_id r} (map fst new)"
      using new(2) by (intro vetted_from_seen) (auto simp: list_all_iff)
    then show ?thesis
      using new(1) s1 assms [OF v(2)] by (simp add: vets_def)
  qed
qed

lemma retry_one_vets:
  assumes "\<And>v. check_pending_volume r v cluster compartment = Inr () \<Longrightarrow> Q (volume_id r) v"
  shows "keeps (vets Q) (retry_one c ses cluster compartment resume ready r)"
  unfolding retry_one_def
  by (intro keeps_cbind keeps_branch vets_rel keeps_pure delete_checked_vets assms
      keeps_vets [OF pending_instance_state_quiet] keeps_vets [OF retire_instance_no_delete])

text \<open>
  C23: no volume is deleted unseen. In every run of a retry, a request to delete a volume comes
  after a reading of that volume in which name, size, performance, compartment and ownership
  tags agreed with a record of the journal for it.
\<close>

theorem retry_deletes_vetted:
  assumes "load_journal (journal s) = Inr rs"
  shows "\<exists>new. trace (snd (retry_deletions c ses cluster compartment resume s)) = trace s @ new
    \<and> vetted_from (\<lambda>vid v. list_ex (\<lambda>r. volume_id r = vid
        \<and> check_pending_volume r v cluster compartment = Inr ()) rs) {} (map fst new)"
proof -
  let ?Q = "\<lambda>vid v. list_ex (\<lambda>r. volume_id r = vid
        \<and> check_pending_volume r v cluster compartment = Inr ()) rs"
  have vets: "keeps (vets ?Q) (cfold (retry_one c ses cluster compartment resume) [] rs)"
    by (intro keeps_cfold vets_rel retry_one_vets) (auto simp: list_ex_iff)
  have "retry_deletions c ses cluster compartment resume s
      = cfold (retry_one c ses cluster compartment resume) [] rs s"
    using assms by (simp add: retry_deletions_def load_deletions_def cbind_apply)
  then have "vets ?Q s (snd (retry_deletions c ses cluster compartment resume s))"
    using keepsD [OF vets prod.collapse [symmetric]] by simp
  then show ?thesis by (simp add: vets_def)
qed

definition pending_start :: "nat run" where
  "pending_start = sample_run_start\<lparr>journal := journal_doc [sample_deletion]\<rparr>"

lemma pending_start_journal: "load_journal (journal pending_start) = Inr [sample_deletion]"
  by code_simp

definition sample_retry :: "(resize_error + deletion list) \<times> nat run" where
  "sample_retry = retry_deletions removal_cloud sample_session ''hpc'' ''c'' True pending_start"

lemma retry_stays_in_journal_witness:
  "journal (snd sample_retry) = journal pending_start
    \<and> (\<exists>new. trace (snd sample_retry) = trace pending_start @ new
        \<and> list_all (\<lambda>(ev, j). \<exists>r \<in> set [sample_deletion]. requested ''hpc'' ''c'' r
            \<and> retry_event True r ev j) new)
    \<and> fst sample_retry \<noteq> Inr []"
proof -
  have "retry_deletions removal_cloud sample_session ''hpc'' ''c'' True pending_start
      = (fst sample_retry, snd sample_retry)"
    by (simp add: sample_retry_def)
  from retry_stays_in_journal [OF this pending_start_journal] show ?thesis by blast
qed

lemma retry_deletes_vetted_witness:
  "\<exists>new. trace (snd (retry_deletions removal_cloud sample_session ''hpc'' ''c'' True pending_start))
      = trace pending_start @ new
    \<and> vetted_from (\<lambda>vid v. list_ex (\<lambda>r. volume_id r = vid
        \<and> check_pending_volume r v ''hpc'' ''c'' = Inr ()) [sample_deletion]) {} (map fst new)"
  using retry_deletes_vetted [OF pending_start_journal, of removal_cloud sample_session "''hpc''" "''c''" True]
  by simp

section \<open>Finalizing\<close>

text \<open>What must hold of a record before its removal counts as finished.\<close>

definition finished :: "string \<Rightarrow> string \<Rightarrow> pool_view \<Rightarrow> deletion list \<Rightarrow> deletion \<Rightarrow> bool" where
  "finished cluster compartment view pending r \<longleftrightarrow>
     requested cluster compartment r \<and> same_as_pending pending r
     \<and> pv_pool view = Some (str_of r ''instance_pool_id'')
     \<and> (case pv_size view of None \<Rightarrow> False | Some n \<Rightarrow> n < pool_size_before r)"

lemma check_pool_view_Inr:
  "check_pool_view view ready = Inr n \<longleftrightarrow>
     pv_size view = Some n \<and> or_else (pv_pool view) None \<noteq> None
     \<and> list_all (\<lambda>r. or_else (pv_pool view) None = Some (str_of r ''instance_pool_id'')
         \<and> n < pool_size_before r) ready"
  unfolding check_pool_view_def rbind_eq_Inr check_need_simps
  by (auto simp: list_all_iff list_ex_iff not_le)

lemma or_else_None: "or_else x None = Some y \<Longrightarrow> x = Some y"
  by (auto simp: or_else_def split: option.splits if_splits)

lemma check_ready_all:
  assumes "map_err (check_ready pending cluster compartment e1 e2) ready = Inr us"
  shows "list_all (\<lambda>r. requested cluster compartment r \<and> same_as_pending pending r) ready"
proof -
  have "list_all2 (\<lambda>r u. check_ready pending cluster compartment e1 e2 r = Inr u) ready us"
    using assms by (simp add: map_err_Inr)
  then show ?thesis
    by (induction rule: list_all2_induct) (auto simp: check_ready_def requested_def)
qed

lemma delete_records_quiet [quiet_intros]:
  "(\<And>domain j. P (Asked_delete_record zone domain) j) \<Longrightarrow>
     keeps (quiet P) (delete_records c zone domains)"
  unfolding delete_records_def delete_record_if_present_def
  by (intro keeps_cfold quiet_rel quiet_intros)

text \<open>Cleaning up the DNS asks for the deletion of records and nothing else.\<close>

definition dns_event :: "event \<Rightarrow> char doc \<Rightarrow> bool" where
  "dns_event ev j \<longleftrightarrow> (case ev of Asked_delete_record _ _ \<Rightarrow> True | _ \<Rightarrow> False)"

lemma finalize_dns_quiet:
  "keeps (quiet dns_event) (finalize_dns c ses view ready compartment)"
  unfolding finalize_dns_def case_prod_conv by (intro quiet_intros) (simp add: dns_event_def)

definition same_tf :: "'w run \<Rightarrow> 'w run \<Rightarrow> bool" where
  "same_tf s s' \<longleftrightarrow> tf_state s' = tf_state s \<and> tf_variables s' = tf_variables s"

lemma same_tf_rel [intro]: "reflp same_tf" "transp same_tf"
  by (auto simp: same_tf_def intro: reflpI transpI)

lemma same_tf_request [intro]: "keeps same_tf (api call)" "keeps same_tf (request ev call)"
  by (auto intro!: keepsI dest!: api_world simp: same_tf_def request_def record_event_def cbind_apply)

lemma finalize_dns_same_tf: "keeps same_tf (finalize_dns c ses view ready compartment)"
  unfolding finalize_dns_def delete_records_def delete_record_if_present_def case_prod_conv
  by (intro keeps_branch keeps_cbind keeps_ctry keeps_cfold keeps_pure same_tf_rel
      same_tf_request)

lemma write_deletions_same_tf: "keeps same_tf (write_deletions c rs)"
  by (rule keepsI)
    (auto simp: write_deletions_def put_journal_def same_tf_def cbind_apply
      split: prod.splits sum.splits write_outcome.splits if_splits)

lemma valid_log_filter: "valid_log rs \<Longrightarrow> valid_log (filter p rs)"
  by (auto simp: valid_log_def list_all_iff distinct_map_filter)

definition unfinished :: "deletion list \<Rightarrow> deletion list \<Rightarrow> deletion list" where
  "unfinished ready rs = filter (\<lambda>r. volume_id r \<notin> volume_id ` set ready) rs"

text \<open>
  From \<open>s\<close> to \<open>s'\<close> the size \<open>sz\<close> was recorded in Terraform's files, after deleting DNS records and
  before the journal was touched (the permanent inventory has no such files).
\<close>

definition size_recorded :: "'w cloud \<Rightarrow> string \<Rightarrow> int \<Rightarrow> 'w run \<Rightarrow> 'w run \<Rightarrow> bool" where
  "size_recorded c path sz s s' \<longleftrightarrow>
     (\<exists>s1. quiet dns_event s s1 \<and> same_tf s s1
        \<and> (if path = permanent_inventory then trace s' = trace s1 \<and> same_tf s s'
           else update_done c sz s1 s'))"

lemma size_recorded_later:
  assumes "size_recorded c path sz s s1" and "trace s2 = trace s1" and "same_tf s1 s2"
  shows "size_recorded c path sz s s2"
  using assms
  by (fastforce simp: size_recorded_def update_done_def size_pushed_def size_in_variables_def same_tf_def)

lemma finalize_steps:
  assumes "finalize_deletions c ses ready cluster compartment view s = (res, s')"
    and "load_journal (journal s) = Inr rs" and "ready \<noteq> []"
  obtains (refused) e where "res = Inl e" "journal s' = journal s"
  | (written) size_now s2 wrote where
      "list_all (finished cluster compartment view rs) ready" "pv_size view = Some size_now"
      "journal s2 = journal s" "size_recorded c (s_inventory_path ses) size_now s s2"
      "write_deletions c (unfinished ready rs) s2 = (wrote, s')"
      "res = (case wrote of Inl e \<Rightarrow> Inl e | Inr _ \<Rightarrow> Inr (length ready))"
proof -
  let ?ready = "map_err (check_ready rs cluster compartment
      (RuntimeError ''A completed local Block Volume deletion does not match the requested cluster'')
      (RuntimeError ''The pending local Block Volume deletion record changed before finalization'')) ready"
  let ?dns = "if s_dns ses then finalize_dns c ses view ready compartment else creturn ()"
  let ?tail = "\<lambda>size_now. cbind ?dns (\<lambda>_.
        cbind (updateTFState c (s_inventory_path ses) size_now) (\<lambda>_.
        cbind (write_deletions c (unfinished ready rs)) (\<lambda>_. creturn (length ready))))"
  have run: "cbind (clift ?ready) (\<lambda>_. cbind (clift (check_pool_view view ready)) ?tail) s = (res, s')"
    using assms unfolding finalize_deletions_def unfinished_def
    by (simp add: load_deletions_def cbind_apply)
  show thesis
  proof (cases "\<exists>us size_now. ?ready = Inr us \<and> check_pool_view view ready = Inr size_now")
    case False
    then have "s' = s \<and> (\<exists>e. res = Inl e)"
      using run by (auto simp: cbind_apply split: sum.splits)
    with refused show thesis by blast
  next
    case True
    then obtain us size_now where ok: "?ready = Inr us" "check_pool_view view ready = Inr size_now"
      by blast
    have checked: "list_all (finished cluster compartment view rs) ready" "pv_size view = Some size_now"
      using check_ready_all [OF ok(1)] ok(2)
      by (auto simp: check_pool_view_Inr finished_def list_all_iff dest: or_else_None)
    from run ok have tail: "?tail size_now s = (res, s')" by (simp add: cbind_apply)
    obtain dns s1 where dns: "?dns s = (dns, s1)" by fastforce
    have "keeps (quiet dns_event) ?dns" "keeps same_tf ?dns"
      by (intro keeps_branch finalize_dns_quiet finalize_dns_same_tf keeps_quiet_pure keeps_pure
          same_tf_rel)+
    then have s1: "quiet dns_event s s1" "same_tf s s1" using dns by (auto dest: keepsD)
    obtain pushed s2 where push:
      "updateTFState c (s_inventory_path ses) size_now s1 = (pushed, s2)" by fastforce
    note pushed = updateTFState_cases [OF push]
    have s2: "journal s2 = journal s" using pushed quiet_journal [OF s1(1)] by simp
    have recorded: "size_recorded c (s_inventory_path ses) size_now s s2" if "pushed = Inr b" for b
      using pushed s1 that by (cases b) (auto simp: size_recorded_def)
    obtain wrote s3 where saving: "write_deletions c (unfinished ready rs) s2 = (wrote, s3)"
      by fastforce
    have "s3 = s' \<and> res = (case wrote of Inl e \<Rightarrow> Inl e | Inr _ \<Rightarrow> Inr (length ready))"
      if "dns = Inr x" "pushed = Inr b" for x b
      using tail dns push saving that by (auto simp: cbind_apply split: sum.splits)
    moreover have "journal s' = journal s \<and> (\<exists>e. res = Inl e)" if "dns = Inl e \<or> pushed = Inl e" for e
      using tail dns push that s2 quiet_journal [OF s1(1)] by (auto simp: cbind_apply split: sum.splits)
    moreover have "(\<exists>e. dns = Inl e \<or> pushed = Inl e) \<or> (\<exists>x b. dns = Inr x \<and> pushed = Inr b)"
      by (cases dns; cases pushed) auto
    ultimately consider "journal s' = journal s" "\<exists>e. res = Inl e"
      | b where "pushed = Inr b" "s3 = s'"
        "res = (case wrote of Inl e \<Rightarrow> Inl e | Inr _ \<Rightarrow> Inr (length ready))"
      by metis
    then show thesis
    proof cases
      case 1
      with refused show thesis by blast
    next
      case 2
      from written [OF checked s2 recorded [OF 2(1)], of wrote] saving 2(2,3) show thesis by simp
    qed
  qed
qed

lemma finalize_outcome:
  assumes "finalize_deletions c ses ready cluster compartment view s = (res, s')"
    and "load_journal (journal s) = Inr rs"
  shows "\<exists>kept. load_journal (journal s') = Inr kept
    \<and> (kept = rs \<or> kept = unfinished ready rs \<and> list_all (finished cluster compartment view rs) ready
        \<and> (\<exists>size_now. pv_size view = Some size_now
             \<and> size_recorded c (s_inventory_path ses) size_now s s'))
    \<and> (\<forall>n. res = Inr n \<longrightarrow> n = length ready \<and> kept = unfinished ready rs)"
proof (cases "ready = []")
  case True
  then show ?thesis using assms by (auto simp: finalize_deletions_def unfinished_def)
next
  case False
  from assms False show ?thesis
  proof (cases rule: finalize_steps)
    case (refused e)
    then show ?thesis using assms(2) by auto
  next
    case (written size_now s2 wrote)
    have ok: "valid_log (unfinished ready rs)"
      using load_journal_valid [OF assms(2)] by (simp add: unfinished_def valid_log_filter)
    have start: "deletions s2 = Inr rs" using written(3) assms(2) by (simp add: deletions_def)
    have trace: "trace s' = trace s2" using write_deletions_cases [OF written(5)] by simp
    have "size_recorded c (s_inventory_path ses) size_now s s'"
      using written(4) trace keepsD [OF write_deletions_same_tf written(5)]
      by (rule size_recorded_later)
    moreover obtain kept where "deletions s' = Inr kept" "kept = rs \<or> kept = unfinished ready rs"
      "wrote = Inr () \<Longrightarrow> kept = unfinished ready rs"
      using store.save_outcome [OF ok start written(5)] by blast
    ultimately show ?thesis
      using written(1,2,6) by (cases wrote) (auto simp: deletions_def)
  qed
qed


definition finalize_view :: pool_view where
  "finalize_view = \<lparr>pv_size = Some 3, pv_pool = Some ''ocid1.pool.p'',
     pv_names = Some [''hpc-node-1''], pv_ips = Some [''10.0.0.3'']\<rparr>"

definition sample_finalize :: "(resize_error + nat) \<times> nat run" where
  "sample_finalize = finalize_deletions
     (pushing removal_cloud) (sample_session\<lparr>s_dns := False\<rparr>)
     [sample_deletion] ''hpc'' ''c'' finalize_view
     (pending_start\<lparr>tf_state := Some sample_state_lines, tf_variables := Some sample_variables_lines\<rparr>)"


section \<open>A resumed removal is completed\<close>

text \<open>
  C25: a recovery that succeeds leaves nothing behind. If a retry returns and finalizing what it
  returned succeeds, the journal holds no record any more, and as many removals were finished as
  the journal held at the start.
\<close>

theorem recovery_empties_journal:
  assumes "retry_deletions c ses cluster compartment resume s = (Inr ready, s1)"
    and "finalize_deletions c ses ready cluster compartment view s1 = (Inr n, s2)"
  shows "load_journal (journal s2) = Inr []
    \<and> (\<exists>rs. load_journal (journal s) = Inr rs \<and> n = length rs)"
proof -
  obtain rs where rs: "load_journal (journal s) = Inr rs"
    and run: "cfold (retry_one c ses cluster compartment resume) [] rs s = (Inr ready, s1)"
    using assms(1)
    by (auto simp: retry_deletions_def load_deletions_def cbind_apply split: sum.splits)
  have ready: "ready = rs" "load_journal (journal s1) = Inr rs"
    using retry_fold [OF run] rs by (auto simp: quiet_journal)
  have "unfinished rs rs = []" by (simp add: unfinished_def)
  with finalize_outcome [OF assms(2) ready(2)] rs ready(1) show ?thesis by auto
qed

text \<open>The instance and the volume are gone; what is left is the journal and the Terraform state.\<close>

definition gone_cloud :: "nat cloud" where
  "gone_cloud = (pushing refusing_cloud)
     \<lparr>get_instance := \<lambda>_. craise (ServiceError 404), get_volume := \<lambda>_. craise (ServiceError 404),
      replace_journal := \<lambda>w. (Written, w)\<rparr>"

definition recovery_session :: session where
  "recovery_session = sample_session\<lparr>s_dns := False, s_inventory := []\<rparr>"

definition recovery_start :: "nat run" where
  "recovery_start = pending_start\<lparr>tf_state := Some sample_state_lines,
     tf_variables := Some sample_variables_lines\<rparr>"

definition recovery_retry :: "(resize_error + deletion list) \<times> nat run" where
  "recovery_retry = retry_deletions gone_cloud recovery_session ''hpc'' ''c'' False recovery_start"

definition recovery_finalize :: "(resize_error + nat) \<times> nat run" where
  "recovery_finalize = finalize_deletions gone_cloud recovery_session [sample_deletion] ''hpc'' ''c''
     finalize_view (snd recovery_retry)"

lemma recovery_retry_result: "recovery_retry = (Inr [sample_deletion], recovery_start)"
proof -
  have "load_journal (journal recovery_start) = Inr [sample_deletion]"
    by (simp add: recovery_start_def pending_start_journal)
  moreover have "pending_instance_state gone_cloud ''hpc'' sample_deletion recovery_start
      = (Inr ''TERMINATED'', recovery_start)"
    by code_simp
  moreover have "delete_checked gone_cloud ''hpc'' ''c'' sample_deletion recovery_start
      = (Inr (), recovery_start)"
    by code_simp
  moreover have "str_of sample_deletion ''cluster_name'' = ''hpc''"
    "str_of sample_deletion ''compartment_id'' = ''c''"
    by code_simp+
  ultimately show ?thesis
    by (simp add: recovery_retry_def retry_deletions_def load_deletions_def cbind_apply retry_one_def)
qed

lemma recovery_finalize_result: "fst recovery_finalize = Inr 1"
  by code_simp

lemma recovery_empties_journal_witness:
  "load_journal (journal (snd recovery_finalize)) = Inr []
    \<and> (\<exists>rs. load_journal (journal recovery_start) = Inr rs \<and> 1 = length rs)"
proof (rule recovery_empties_journal)
  show "retry_deletions gone_cloud recovery_session ''hpc'' ''c'' False recovery_start
      = (Inr [sample_deletion], snd recovery_retry)"
    using recovery_retry_result by (simp add: recovery_retry_def)
  show "finalize_deletions gone_cloud recovery_session [sample_deletion] ''hpc'' ''c''
     finalize_view (snd recovery_retry) = (Inr 1, snd recovery_finalize)"
    using recovery_finalize_result unfolding recovery_finalize_def by (simp add: prod_eq_iff)
qed

end
