(* ===== verification/Inventory.thy ===== *)
theory Inventory
  imports Volume_Attachment
begin

text \<open>
  The Ansible inventory as \<open>bin/resize.py\<close> reads, rewrites and writes it:
  \<open>parse_inventory\<close>, \<open>write_inventory\<close>, the host lines of the compute nodes and
  \<open>prepare_local_block_volume_inventory\<close>, which puts the iSCSI coordinates of each node's
  volume on its line. A file is its text; Python's text mode turns \<open>\r\n\<close> and \<open>\r\<close> into
  \<open>\n\<close> when it reads, and iterating gives the lines with their line ends.
\<close>

section \<open>Files of lines\<close>

definition newline :: char where
  "newline = CHR 0x0A"

definition carriage_return :: char where
  "carriage_return = CHR 0x0D"

fun universal_newlines :: "string \<Rightarrow> string" where
  "universal_newlines [] = []"
| "universal_newlines [c] = [if c = carriage_return then newline else c]"
| "universal_newlines (c # d # s) =
     (if c = carriage_return
      then newline # (if d = newline then universal_newlines s else universal_newlines (d # s))
      else c # universal_newlines (d # s))"

fun keep_lines :: "string \<Rightarrow> string list" where
  "keep_lines [] = []"
| "keep_lines (c # s) =
     (if c = newline then [newline] # keep_lines s
      else (case keep_lines s of [] \<Rightarrow> [[c]] | l # ls \<Rightarrow> (c # l) # ls))"

definition file_lines :: "string \<Rightarrow> string list" where
  "file_lines text = keep_lines (universal_newlines text)"

section \<open>Sections\<close>

definition header_line :: "string \<Rightarrow> bool" where
  "header_line line \<longleftrightarrow> starts_with (py_strip line) ''['' \<and> ends_with (py_strip line) '']''"

text \<open>\<open>line.split('[')[1].split(']')[0]\<close>.\<close>

definition section_name :: "string \<Rightarrow> string" where
  "section_name line = hd (split_on CHR '']'' (split_on CHR ''['' line ! 1))"

definition parse_line :: "inventory \<times> string option \<Rightarrow> string \<Rightarrow> inventory \<times> string option" where
  "parse_line st line =
     (case st of (invt, current_section) \<Rightarrow>
        if header_line line
        then let name = section_name line
             in (if map_of invt name = None then dset name [] invt else invt, Some name)
        else case current_section of
            None \<Rightarrow> (invt, None)
          | Some name \<Rightarrow> (dset name (inventory_lines invt name @ [line]) invt, Some name))"

text \<open>\<open>None\<close> for a file that cannot be opened.\<close>

definition parse_inventory :: "string option \<Rightarrow> inventory option" where
  "parse_inventory text =
     (case text of None \<Rightarrow> None
      | Some t \<Rightarrow> Some (fst (foldl parse_line ([], None) (file_lines t))))"

definition write_inventory :: "inventory \<Rightarrow> string" where
  "write_inventory invt =
     concat (map (\<lambda>(name, ls). ''['' @ name @ '']'' @ [newline] @ concat ls) invt)"

section \<open>Host lines\<close>

record node =
  node_name :: string
  node_ip :: string
  node_ocid :: string

definition compute_inventory_line :: "node \<Rightarrow> string \<Rightarrow> string" where
  "compute_inventory_line n username =
     node_name n @ '' ansible_host='' @ node_ip n @ '' ansible_user='' @ username @
     '' role=compute oci_instance_id='' @ node_ocid n @ [newline]"

text \<open>\<open>re.search(r"\s[#;]", s)\<close>: the text before the match, and the comment without the space.\<close>

fun comment_at :: "string \<Rightarrow> (string \<times> string) option" where
  "comment_at (c # d # s) =
     (if py_space c \<and> d \<in> set ''#;'' then Some ([], d # s)
      else map_option (\<lambda>(text, comment). (c # text, comment)) (comment_at (d # s)))"
| "comment_at _ = None"

definition line_end :: "char \<Rightarrow> bool" where
  "line_end c \<longleftrightarrow> c = newline \<or> c = carriage_return"

definition split_inventory_host_line :: "string \<Rightarrow> (string \<times> string list \<times> string) option" where
  "split_inventory_host_line line =
     (let bare = rstrip_by line_end line;
          leading = take (length bare - length (lstrip_by py_space bare)) bare;
          stripped = py_strip bare
      in if stripped = [] \<or> starts_with stripped ''#'' \<or> starts_with stripped '';'' then None
         else case comment_at stripped of
             None \<Rightarrow> Some (leading, words_by py_space stripped, [])
           | Some (text, comment) \<Rightarrow>
               Some (leading, words_by py_space (rstrip_by py_space text), comment))"

definition managed_token :: "string \<Rightarrow> bool" where
  "managed_token tok =
     (case partition_at CHR ''='' tok of (key, found, _) \<Rightarrow>
        found \<and> (key = ''use_local_block_volume'' \<or> starts_with key ''local_block_volume_''))"

text \<open>The values are already strings: \<open>str(value)\<close>.\<close>

definition setting_token :: "string \<times> string \<Rightarrow> string" where
  "setting_token kv = fst kv @ ''='' @ snd kv"

definition rewrite_compute_inventory_line :: "string \<Rightarrow> (string \<times> string) list \<Rightarrow> string" where
  "rewrite_compute_inventory_line line settings =
     (case split_inventory_host_line line of
        None \<Rightarrow> line
      | Some (leading, toks, comment) \<Rightarrow>
          leading @ join '' '' (filter (\<lambda>t. \<not> managed_token t) toks @ map setting_token settings)
          @ (if comment = [] then [] else '' '' @ comment) @ [newline])"

definition instance_id_key :: string where
  "instance_id_key = ''oci_instance_id=''"

definition get_inventory_instance_id :: "string \<Rightarrow> resize_error + (string \<times> string) option" where
  "get_inventory_instance_id line =
     (case split_inventory_host_line line of
        None \<Rightarrow> Inr None
      | Some (_, toks, _) \<Rightarrow>
          (let ids = map (drop (length instance_id_key))
                 (filter (\<lambda>t. starts_with t instance_id_key) toks)
           in if length ids \<noteq> 1 \<or> hd ids = []
              then Inl (RuntimeError (''Inventory host '' @ (if toks = [] then ''<unknown>'' else hd toks)
                     @ '' must have exactly one oci_instance_id''))
              else Inr (Some (hd toks, hd ids))))"

section \<open>Lines and sections survive a rewrite of the file\<close>

lemma newline_neq [simp]: "newline \<noteq> carriage_return" "carriage_return \<noteq> newline"
  by (simp_all add: newline_def carriage_return_def)

lemma newline_space [simp]: "py_space newline" "py_space carriage_return"
  by (simp_all add: newline_def carriage_return_def py_space_def)

definition whole_line :: "string \<Rightarrow> bool" where
  "whole_line l \<longleftrightarrow> (\<exists>w. l = w @ [newline] \<and> newline \<notin> set w)"

lemma universal_newlines_no_cr: "carriage_return \<notin> set (universal_newlines s)"
  by (induction s rule: universal_newlines.induct) auto

lemma universal_newlines_id: "carriage_return \<notin> set s \<Longrightarrow> universal_newlines s = s"
  by (induction s rule: universal_newlines.induct) auto

lemma universal_newlines_last:
  "s \<noteq> [] \<Longrightarrow> last s = newline \<Longrightarrow>
     universal_newlines s \<noteq> [] \<and> last (universal_newlines s) = newline"
proof (induction s rule: universal_newlines.induct)
  case (3 c d s)
  then show ?case by (cases s) (auto split: if_splits)
qed auto

lemma concat_keep_lines [simp]: "concat (keep_lines s) = s"
  by (induction s) (auto split: list.splits)

lemma keep_lines_whole:
  "s = [] \<or> last s = newline \<Longrightarrow> list_all whole_line (keep_lines s)"
proof (induction s)
  case (Cons c s)
  show ?case
  proof (cases "c = newline")
    case True
    then have "whole_line [c]" by (simp add: whole_line_def)
    then show ?thesis using Cons True by (auto split: if_splits)
  next
    case False
    then have ne: "s \<noteq> []" "last s = newline" using Cons.prems by (auto split: if_splits)
    with Cons.IH obtain l ls where ls: "keep_lines s = l # ls" "whole_line l" "list_all whole_line ls"
      by (cases "keep_lines s") (auto dest: arg_cong [where f = concat])
    then obtain w where "l = w @ [newline]" "newline \<notin> set w" by (auto simp: whole_line_def)
    then have "whole_line (c # l)" using False by (auto simp: whole_line_def intro: exI [of _ "c # w"])
    then show ?thesis using False ls by simp
  qed
qed simp

lemma keep_lines_append: "whole_line l \<Longrightarrow> keep_lines (l @ s) = l # keep_lines s"
proof -
  have "keep_lines (w @ newline # s) = (w @ [newline]) # keep_lines s" if "newline \<notin> set w" for w
    using that by (induction w) auto
  then show "whole_line l \<Longrightarrow> keep_lines (l @ s) = l # keep_lines s"
    by (auto simp: whole_line_def)
qed

lemma keep_lines_concat: "list_all whole_line ls \<Longrightarrow> keep_lines (concat ls @ s) = ls @ keep_lines s"
  by (induction ls) (simp_all add: keep_lines_append)

lemma file_lines_concat:
  assumes "list_all whole_line ls" and "carriage_return \<notin> set (concat ls)"
  shows "file_lines (concat ls) = ls"
  using keep_lines_concat [OF assms(1), of "[]"] assms(2)
  by (simp add: file_lines_def universal_newlines_id)

text \<open>What every parsed inventory satisfies, once its file ends with a line end.\<close>

definition section_ok :: "string \<Rightarrow> bool" where
  "section_ok name \<longleftrightarrow> set name \<inter> {CHR ''['', CHR '']'', newline, carriage_return} = {}"

definition body_ok :: "string \<Rightarrow> bool" where
  "body_ok l \<longleftrightarrow> whole_line l \<and> carriage_return \<notin> set l \<and> \<not> header_line l"

definition inventory_ok :: "inventory \<Rightarrow> bool" where
  "inventory_ok invt \<longleftrightarrow> distinct (map fst invt)
     \<and> list_all (\<lambda>(name, ls). section_ok name \<and> list_all body_ok ls) invt"

definition section_line :: "string \<Rightarrow> string" where
  "section_line name = ''['' @ name @ '']'' @ [newline]"

lemma bracket_not_space: "\<not> py_space CHR ''[''" "\<not> py_space CHR '']''"
  by (simp_all add: py_space_def)

lemma section_line_header: "header_line (section_line name)"
proof -
  have "py_strip (section_line name) = ''['' @ name @ '']''"
    using rstrip_by_append_space [of py_space newline "''['' @ name @ '']''"]
    by (simp add: py_strip_def strip_by_def section_line_def lstrip_by_id rstrip_by_id
        bracket_not_space)
  then show ?thesis by (simp add: header_line_def ends_with_iff)
qed

lemma section_line_name:
  assumes "section_ok name"
  shows "section_name (section_line name) = name"
proof -
  have a: "split_on CHR ''['' (section_line name) = [[], name @ '']'' @ [newline]]"
    unfolding split_on_def section_line_def using assms
    by (auto simp: section_ok_def newline_def intro!: split_by_no_sep)
  have "split_by (\<lambda>x. x = CHR '']'') (name @ CHR '']'' # [newline])
      = name # split_by (\<lambda>x. x = CHR '']'') [newline]"
    by (rule split_by_append_sep) (use assms in \<open>auto simp: section_ok_def\<close>)
  then have "hd (split_on CHR '']'' (name @ '']'' @ [newline])) = name"
    by (simp add: split_on_def)
  then show ?thesis by (simp add: section_name_def a)
qed

lemma section_line_whole: "section_ok name \<Longrightarrow> whole_line (section_line name)"
  by (auto simp: whole_line_def section_line_def section_ok_def newline_def)

lemma write_inventory_lines:
  "write_inventory invt = concat (concat (map (\<lambda>(name, ls). section_line name # ls) invt))"
  by (induction invt) (auto simp: write_inventory_def section_line_def)

lemma dset_new: "k \<notin> fst ` set d \<Longrightarrow> dset k v d = d @ [(k, v)]"
  unfolding dset_def by (induction d) auto

lemma dset_last: "k \<notin> fst ` set d \<Longrightarrow> dset k v (d @ [(k, w)]) = d @ [(k, v)]"
  unfolding dset_def by (induction d) auto

lemma parse_body:
  assumes "list_all body_ok ls" and "name \<notin> fst ` set invt"
  shows "foldl parse_line (invt @ [(name, ls0)], Some name) ls = (invt @ [(name, ls0 @ ls)], Some name)"
  using assms(1)
proof (induction ls arbitrary: ls0)
  case (Cons l ls)
  have "map_of invt name = None" using assms(2) by (simp add: map_of_eq_None_iff)
  then have "parse_line (invt @ [(name, ls0)], Some name) l = (invt @ [(name, ls0 @ [l])], Some name)"
    using Cons.prems assms(2)
    by (simp add: parse_line_def body_ok_def inventory_lines_def map_add_def dset_last)
  then show ?case using Cons by simp
qed simp

lemma parse_sections:
  assumes "inventory_ok invt" and "fst ` set done_part \<inter> fst ` set invt = {}"
  shows "fst (foldl parse_line (done_part, cur) (concat (map (\<lambda>(name, ls). section_line name # ls) invt)))
      = done_part @ invt"
  using assms
proof (induction invt arbitrary: done_part cur)
  case (Cons p invt)
  obtain name ls where p: "p = (name, ls)" by (cases p)
  have new: "name \<notin> fst ` set done_part" using Cons.prems p by auto
  then have "map_of done_part name = None" by (simp add: map_of_eq_None_iff)
  then have "parse_line (done_part, cur) (section_line name) = (done_part @ [(name, [])], Some name)"
    using Cons.prems p new
    by (simp add: parse_line_def section_line_header section_line_name inventory_ok_def dset_new)
  then have "foldl parse_line (done_part, cur) (section_line name # ls)
      = (done_part @ [(name, ls)], Some name)"
    using parse_body [of ls name done_part "[]"] Cons.prems p new by (simp add: inventory_ok_def)
  then show ?case
    using Cons.IH [of "done_part @ [(name, ls)]" "Some name"] Cons.prems p
    by (auto simp: inventory_ok_def)
qed simp

lemma parse_write:
  assumes "inventory_ok invt"
  shows "parse_inventory (Some (write_inventory invt)) = Some invt"
proof -
  let ?ls = "concat (map (\<lambda>(name, ls). section_line name # ls) invt)"
  have "list_all whole_line ?ls"
    using assms by (auto simp: inventory_ok_def list_all_iff body_ok_def section_line_whole)
  moreover have "carriage_return \<notin> set (concat ?ls)"
    using assms
    by (auto simp: inventory_ok_def list_all_iff body_ok_def section_ok_def section_line_def
        carriage_return_def newline_def)
  ultimately have "file_lines (write_inventory invt) = ?ls"
    by (simp add: write_inventory_lines file_lines_concat)
  then show ?thesis
    using parse_sections [OF assms, of "[]" None] by (simp add: parse_inventory_def)
qed

lemma split_by_tail:
  assumes "split_by p s = x # y # rest"
  shows "\<exists>c t. p c \<and> s = x @ c # t \<and> split_by p t = y # rest"
  using assms
proof (induction s arbitrary: x)
  case (Cons a s)
  show ?case
  proof (cases "p a")
    case True
    then show ?thesis using Cons.prems by auto
  next
    case False
    then obtain x' where x': "split_by p s = x' # y # rest" "x = a # x'"
      using Cons.prems by (auto split: list.splits)
    from Cons.IH [OF x'(1)] x'(2) show ?thesis by auto
  qed
qed simp

lemma split_by_hd: "hd (split_by p s) = takeWhile (\<lambda>x. \<not> p x) s"
  by (induction s) (auto split: list.splits)

lemma list_all_dset: "list_all P d \<Longrightarrow> P (k, v) \<Longrightarrow> list_all P (dset k v d)"
  unfolding dset_def by (induction d) auto

lemma inventory_lines_ok:
  "inventory_ok invt \<Longrightarrow> list_all body_ok (inventory_lines invt name)"
  by (auto simp: inventory_ok_def inventory_lines_def list_all_iff dest: map_of_SomeD
      split: option.splits)

lemma section_name_ok:
  assumes "header_line line" and "whole_line line" and "carriage_return \<notin> set line"
  shows "section_ok (section_name line)"
proof -
  obtain t1 t2 where t1: "py_strip line = CHR ''['' # t1" and t2: "py_strip line = t2 @ '']''"
    using assms(1) by (auto simp: header_line_def starts_with_iff ends_with_iff)
  then obtain a where a: "t1 = a @ '']''" by (cases t2) auto
  obtain sp where sp: "line = sp @ lstrip_by py_space line" "\<forall>x \<in> set sp. py_space x"
    using lstrip_by_suffix [of line py_space] by auto
  obtain sp' where sp': "lstrip_by py_space line = py_strip line @ sp'"
    using rstrip_by_prefix [of "lstrip_by py_space line" py_space] by (auto simp: py_strip_def strip_by_def)
  have line: "line = sp @ CHR ''['' # a @ CHR '']'' # sp'"
    using sp(1) sp' t1 a by simp
  obtain w where w: "line = w @ [newline]" "newline \<notin> set w"
    using assms(2) by (auto simp: whole_line_def)
  have sp'_ne: "sp' \<noteq> []" using w line by (cases sp' rule: rev_cases) (auto simp: newline_def)
  then obtain v where "sp' = v @ [newline]" "w = sp @ CHR ''['' # a @ CHR '']'' # v"
    using w line by (cases sp' rule: rev_cases) auto
  with w have na: "newline \<notin> set a" by auto
  have "\<forall>x \<in> set sp. x \<noteq> CHR ''[''" using sp(2) bracket_not_space by auto
  then have "split_on CHR ''['' line = sp # split_on CHR ''['' (a @ CHR '']'' # sp')"
    unfolding line split_on_def by (intro split_by_append_sep) auto
  then have name: "section_name line
      = takeWhile (\<lambda>x. x \<noteq> CHR '']'') (takeWhile (\<lambda>x. x \<noteq> CHR ''['') (a @ CHR '']'' # sp'))"
    using split_by_hd [of "\<lambda>x. x = CHR ''[''" "a @ CHR '']'' # sp'"]
      split_by_not_Nil [of "\<lambda>x. x = CHR ''[''" "a @ CHR '']'' # sp'"]
    by (cases "split_by (\<lambda>x. x = CHR ''['') (a @ CHR '']'' # sp')")
      (simp_all add: section_name_def split_on_def split_by_hd)
  have "takeWhile (\<lambda>x. x \<noteq> CHR '']'') (takeWhile (\<lambda>x. x \<noteq> CHR ''['') (a @ CHR '']'' # sp'))
      = takeWhile (\<lambda>x. x \<noteq> CHR '']'' \<and> x \<noteq> CHR ''['') a"
    by (induction a) auto
  with name have name': "section_name line = takeWhile (\<lambda>x. x \<noteq> CHR '']'' \<and> x \<noteq> CHR ''['') a"
    by simp
  have "x \<in> set a \<and> x \<noteq> CHR '']'' \<and> x \<noteq> CHR ''[''" if "x \<in> set (section_name line)" for x
    using that unfolding name' by (auto dest: set_takeWhileD)
  then show ?thesis using na assms(3) line by (auto simp: section_ok_def)
qed

lemma parse_line_ok:
  assumes "inventory_ok invt" and "cur \<noteq> None \<longrightarrow> the cur \<in> fst ` set invt"
    and "whole_line line" "carriage_return \<notin> set line"
    and "parse_line (invt, cur) line = (invt', cur')"
  shows "inventory_ok invt' \<and> (cur' \<noteq> None \<longrightarrow> the cur' \<in> fst ` set invt')"
proof (cases "header_line line")
  case True
  have "section_ok (section_name line)"
    using section_name_ok True assms by blast
  then show ?thesis using assms True
    by (auto simp: parse_line_def Let_def inventory_ok_def dset_new map_of_eq_None_iff image_iff
        split: if_splits)
      (force simp: map_of_eq_None_iff)+
next
  case False
  show ?thesis
  proof (cases cur)
    case None
    then show ?thesis using assms False by (auto simp: parse_line_def)
  next
    case (Some name)
    then obtain ls where "(name, ls) \<in> set invt" using assms(2) by auto
    then have name: "section_ok name" using assms(1) by (auto simp: inventory_ok_def list_all_iff)
    have invt': "invt' = dset name (inventory_lines invt name @ [line]) invt" "cur' = Some name"
      using assms(5) False Some by (auto simp: parse_line_def)
    have "list_all body_ok (inventory_lines invt name @ [line])"
      using inventory_lines_ok [OF assms(1)] assms(3,4) False by (simp add: body_ok_def)
    then have "inventory_ok invt'"
      using assms(1) name unfolding invt' inventory_ok_def by (auto intro!: list_all_dset)
    then show ?thesis using invt' by (simp add: keys_dset)
  qed
qed

lemma parse_lines_ok:
  assumes "list_all (\<lambda>l. whole_line l \<and> carriage_return \<notin> set l) ls"
    and "inventory_ok invt" and "cur \<noteq> None \<longrightarrow> the cur \<in> fst ` set invt"
  shows "inventory_ok (fst (foldl parse_line (invt, cur) ls))"
  using assms
proof (induction ls arbitrary: invt cur)
  case (Cons l ls)
  obtain invt' cur' where step: "parse_line (invt, cur) l = (invt', cur')" by fastforce
  with parse_line_ok [OF Cons.prems(2,3) _ _ step] Cons.prems(1) Cons.IH [of invt' cur']
  show ?case by simp
qed simp

lemma parse_inventory_ok:
  assumes "parse_inventory (Some contents) = Some invt" and "contents = [] \<or> last contents = newline"
  shows "inventory_ok invt"
proof -
  have "universal_newlines contents = [] \<or> last (universal_newlines contents) = newline"
    using assms(2) universal_newlines_last [of contents] by (cases "contents = []") auto
  then have whole: "list_all whole_line (file_lines contents)"
    unfolding file_lines_def by (rule keep_lines_whole)
  moreover have "carriage_return \<notin> set l" if "l \<in> set (file_lines contents)" for l
    using that universal_newlines_no_cr [of contents] concat_keep_lines [of "universal_newlines contents"]
    by (metis UN_I file_lines_def set_concat)
  ultimately have "list_all (\<lambda>l. whole_line l \<and> carriage_return \<notin> set l) (file_lines contents)"
    by (simp add: list_all_iff)
  from parse_lines_ok [OF this, of "[]" None] assms(1) show ?thesis
    by (auto simp: parse_inventory_def inventory_ok_def)
qed

text \<open>
  C30: rewriting an inventory loses nothing. When the file that was parsed ends with a line end
  (or is empty), parsing what \<open>write_inventory\<close> makes of it gives the same sections in the same
  order with the same lines, whatever the lines contain: repeated section headers, comments,
  blank lines and Windows line ends included.
\<close>

theorem inventory_roundtrip:
  assumes "parse_inventory (Some contents) = Some invt" and "contents = [] \<or> last contents = newline"
  shows "parse_inventory (Some (write_inventory invt)) = Some invt"
  using parse_write parse_inventory_ok [OF assms] by blast

definition sample_text :: string where
  "sample_text = ''[compute_configured]'' @ [carriage_return, newline] @ ''a ansible_host=10.0.0.1''
     @ [newline] @ ''[nfs]'' @ [newline, newline] @ ''  [compute_configured] '' @ [newline]
     @ ''b ansible_host=10.0.0.2'' @ [newline]"

lemma inventory_roundtrip_witness:
  "parse_inventory (Some (write_inventory (the (parse_inventory (Some sample_text)))))
     = Some (the (parse_inventory (Some sample_text)))"
proof (rule inventory_roundtrip)
  show "parse_inventory (Some sample_text) = Some (the (parse_inventory (Some sample_text)))"
    by code_simp
  show "sample_text = [] \<or> last sample_text = newline" by code_simp
qed

text \<open>
  Without the line end the last line is glued to what is written after it. Here the header of
  the section \<open>nfs\<close> disappears, and with it the section.
\<close>

lemma unterminated_line_is_glued:
  "parse_inventory (Some (write_inventory (the (parse_inventory (Some
     (''[compute_configured]'' @ [newline] @ ''[nfs]'' @ [newline] @ ''a'' @ [newline]
      @ ''[compute_configured]'' @ [newline] @ ''b''))))))
   = Some [(''compute_configured'', [''b[nfs]'' @ [newline], ''a'' @ [newline]])]"
  by code_simp

section \<open>Rewriting host lines\<close>

text \<open>A word of a host line: not empty, no whitespace, and no start of a comment.\<close>

definition host_word :: "string \<Rightarrow> bool" where
  "host_word w \<longleftrightarrow> w \<noteq> [] \<and> list_all (\<lambda>c. \<not> py_space c) w \<and> hd w \<notin> set ''#;''"

lemma host_word_ends: "host_word w \<Longrightarrow> \<not> py_space (hd w) \<and> \<not> py_space (last w)"
  by (auto simp: host_word_def list_all_iff)

lemma first_word:
  assumes "s = [] \<or> hd s \<notin> set ''#;''" and "hd (split_by py_space s) \<noteq> []"
  shows "host_word (hd (split_by py_space s))"
proof -
  have "hd (split_by py_space s) = takeWhile (\<lambda>x. \<not> py_space x) s" by (rule split_by_hd)
  with assms show ?thesis
    by (cases s) (auto simp: host_word_def list_all_iff split: if_splits dest: set_takeWhileD)
qed

lemma comment_at_None_words:
  "comment_at s = None \<Longrightarrow> w \<in> set (tl (split_by py_space s)) \<Longrightarrow> w \<noteq> [] \<Longrightarrow> host_word w"
proof (induction s)
  case (Cons c s)
  have rest: "comment_at s = None" using Cons.prems(1) by (cases s) (auto split: if_splits)
  show ?case
  proof (cases "py_space c")
    case True
    then have "s = [] \<or> hd s \<notin> set ''#;''" using Cons.prems(1) by (cases s) (auto split: if_splits)
    from first_word [OF this] Cons.IH [OF rest] Cons.prems(2,3) True show ?thesis
      by (cases "split_by py_space s") auto
  next
    case False
    then show ?thesis using Cons.IH [OF rest] Cons.prems(2,3) by (auto split: list.splits)
  qed
qed simp

lemma plain_words:
  assumes "comment_at s = None" and "s = [] \<or> hd s \<notin> set ''#;''"
  shows "list_all host_word (words_by py_space s)"
  using first_word [OF assms(2)] comment_at_None_words [OF assms(1)]
  by (cases "split_by py_space s") (auto simp: words_by_def list_all_iff)

lemma comment_at_Some:
  "comment_at s = Some (contents, comment) \<Longrightarrow>
     comment_at contents = None \<and> (\<exists>c. py_space c \<and> s = contents @ c # comment)
     \<and> comment \<noteq> [] \<and> hd comment \<in> set ''#;''"
proof (induction s arbitrary: contents rule: comment_at.induct)
  case (1 c d s)
  show ?case
  proof (cases "py_space c \<and> d \<in> set ''#;''")
    case True
    then show ?thesis using 1(2) by auto
  next
    case False
    then obtain rest where rest: "comment_at (d # s) = Some (rest, comment)" "contents = c # rest"
      using 1(2) by auto
    from 1(1) [OF False rest(1)] obtain e where
      e: "comment_at rest = None" "py_space e" "d # s = rest @ e # comment"
        "comment \<noteq> []" "hd comment \<in> set ''#;''" by blast
    have "comment_at (c # rest) = None"
      using e(1,3) False by (cases rest) auto
    then show ?thesis using e rest(2) by auto
  qed
qed auto

lemma comment_at_prefix: "comment_at (s @ t) = None \<Longrightarrow> comment_at s = None"
proof (induction s rule: comment_at.induct)
  case (1 c d s)
  then show ?case by (auto split: if_splits)
qed auto

lemma comment_at_word:
  "list_all (\<lambda>c. \<not> py_space c) w \<Longrightarrow>
     comment_at (w @ t) = map_option (\<lambda>(a, b). (w @ a, b)) (comment_at t)"
proof (induction w)
  case Nil
  then show ?case by (cases "comment_at t") auto
next
  case (Cons c w)
  then have "comment_at (c # (w @ t)) = map_option (\<lambda>(a, b). (c # a, b)) (comment_at (w @ t))"
    by (cases "w @ t") auto
  also have "\<dots> = map_option (\<lambda>(a, b). (c # w @ a, b)) (comment_at t)"
    using Cons by (cases "comment_at t") auto
  finally show ?case by simp
qed

lemma host_join_hd:
  "list_all host_word ws \<Longrightarrow> ws \<noteq> [] \<Longrightarrow>
     join [c] ws \<noteq> [] \<and> hd (join [c] ws) = hd (hd ws)"
  by (induction "[c]" ws rule: join.induct) (auto simp: host_word_def)

lemma host_join_last:
  "list_all host_word ws \<Longrightarrow> ws \<noteq> [] \<Longrightarrow> last (join [c] ws) = last (last ws)"
proof (induction "[c]" ws rule: join.induct)
  case (3 w v vs)
  then have "join [c] (v # vs) \<noteq> []" using host_join_hd [of "v # vs" c] by simp
  then show ?case using 3 by simp
qed auto

lemma comment_at_join:
  assumes "list_all host_word ws"
  shows "comment_at (join [CHR '' ''] ws @ t)
      = map_option (\<lambda>(a, b). (join [CHR '' ''] ws @ a, b)) (comment_at t)"
  using assms
proof (induction "[CHR '' '']" ws rule: join.induct)
  case 1
  then show ?case by (cases "comment_at t") auto
next
  case (2 w)
  then show ?case by (simp add: comment_at_word host_word_def)
next
  case (3 w v vs)
  let ?rest = "join [CHR '' ''] (v # vs) @ t"
  have hd: "join [CHR '' ''] (v # vs) \<noteq> []" "hd (join [CHR '' ''] (v # vs)) \<notin> set ''#;''"
    using host_join_hd [of "v # vs" "CHR '' ''"] 3 by (auto simp: host_word_def)
  then obtain d r where "?rest = d # r" "d \<notin> set ''#;''"
    by (cases "join [CHR '' ''] (v # vs)") auto
  then have "comment_at (CHR '' '' # ?rest)
      = map_option (\<lambda>(a, b). (CHR '' '' # a, b)) (comment_at ?rest)"
    by simp
  also have "\<dots> = map_option (\<lambda>(a, b). (CHR '' '' # join [CHR '' ''] (v # vs) @ a, b)) (comment_at t)"
    using 3 by (cases "comment_at t") auto
  finally show ?case
    using comment_at_word [of w "CHR '' '' # ?rest"] 3(2)
    by (cases "comment_at t") (auto simp: host_word_def)
qed

lemma comment_at_comment:
  "comment \<noteq> [] \<Longrightarrow> hd comment \<in> set ''#;'' \<Longrightarrow>
     comment_at (CHR '' '' # comment) = Some ([], comment)"
  by (cases comment) (auto simp: py_space_def)

lemma line_end_space: "line_end c \<Longrightarrow> py_space c"
  by (auto simp: line_end_def)

text \<open>The parts of a host line, and that they are read back from a line made of them.\<close>

definition host_parts :: "string \<times> string list \<times> string \<Rightarrow> bool" where
  "host_parts parts \<longleftrightarrow> (case parts of (leading, toks, comment) \<Rightarrow>
     list_all py_space leading \<and> toks \<noteq> [] \<and> list_all host_word toks
     \<and> (comment = [] \<or> hd comment \<in> set ''#;'' \<and> \<not> py_space (last comment)))"

lemma split_host_parts:
  assumes "split_inventory_host_line line = Some parts"
  shows "host_parts parts"
proof -
  define bare where "bare = rstrip_by line_end line"
  define stripped where "stripped = py_strip bare"
  obtain sp where sp: "bare = sp @ lstrip_by py_space bare" "\<forall>x \<in> set sp. py_space x"
    using lstrip_by_suffix [of bare py_space] by auto
  have "take (length bare - length (lstrip_by py_space bare)) bare = sp"
    by (metis add_diff_cancel_right' append_eq_conv_conj length_append sp(1))
  then have lead: "list_all py_space (take (length bare - length (lstrip_by py_space bare)) bare)"
    using sp(2) by (simp add: list_all_iff)
  have plain: "stripped \<noteq> []" "hd stripped \<notin> set ''#;''"
    using assms by (cases stripped;
      auto simp: split_inventory_host_line_def Let_def bare_def [symmetric] stripped_def [symmetric]
        split: if_splits)+
  have ends: "\<not> py_space (hd stripped)" "\<not> py_space (last stripped)"
    using plain(1) strip_by_hd strip_by_last unfolding stripped_def py_strip_def by auto
  show ?thesis
  proof (cases "comment_at stripped")
    case None
    then have "parts = (take (length bare - length (lstrip_by py_space bare)) bare,
        words_by py_space stripped, [])"
      using assms plain
      by (auto simp: split_inventory_host_line_def Let_def bare_def [symmetric]
          stripped_def [symmetric] split: if_splits)
    moreover have "words_by py_space stripped \<noteq> []"
      using plain(1) ends(1) by (cases stripped) (auto simp: words_by_def split: list.splits)
    ultimately show ?thesis
      using lead plain_words [OF None] plain by (simp add: host_parts_def)
  next
    case (Some p)
    obtain contents comment where p: "p = (contents, comment)" by (cases p)
    from comment_at_Some [OF Some [unfolded p]] obtain c where
      c: "comment_at contents = None" "py_space c" "stripped = contents @ c # comment"
        "comment \<noteq> []" "hd comment \<in> set ''#;''" by blast
    have parts: "parts = (take (length bare - length (lstrip_by py_space bare)) bare,
        words_by py_space (rstrip_by py_space contents), comment)"
      using assms plain
      by (auto simp: split_inventory_host_line_def Let_def bare_def [symmetric] Some p
          stripped_def [symmetric] split: if_splits)
    let ?r = "rstrip_by py_space contents"
    obtain t where t: "contents = ?r @ t" "\<forall>x \<in> set t. py_space x"
      using rstrip_by_prefix [of contents py_space] by auto
    have hd: "?r \<noteq> [] \<and> hd ?r = hd stripped"
    proof (cases "?r = []")
      case True
      then have "py_space (hd stripped)" using c(2,3) t by (cases t) auto
      then show ?thesis using ends by simp
    next
      case False
      then show ?thesis by (subst c(3), subst t(1)) simp
    qed
    then have "list_all host_word (words_by py_space ?r)"
      using plain_words [of ?r] plain c(1) t(1) comment_at_prefix [of ?r t] by auto
    moreover have "words_by py_space ?r \<noteq> []"
      using hd ends(1) by (cases ?r) (auto simp: words_by_def split: list.splits)
    moreover have "\<not> py_space (last comment)" using ends(2) c(3,4) by simp
    ultimately show ?thesis using lead c(5) by (simp add: parts host_parts_def)
  qed
qed

definition host_line :: "string \<times> string list \<times> string \<Rightarrow> string" where
  "host_line parts = (case parts of (leading, toks, comment) \<Rightarrow>
     leading @ join '' '' toks @ (if comment = [] then [] else '' '' @ comment) @ [newline])"

lemma split_host_line:
  assumes "host_parts parts"
  shows "split_inventory_host_line (host_line parts) = Some parts"
proof -
  obtain leading toks comment where parts: "parts = (leading, toks, comment)" by (cases parts)
  let ?tail = "if comment = [] then [] else '' '' @ comment"
  define body where "body = join '' '' toks @ ?tail"
  have ok: "list_all py_space leading" "toks \<noteq> []" "list_all host_word toks"
    "comment = [] \<or> hd comment \<in> set ''#;'' \<and> \<not> py_space (last comment)"
    using assms by (auto simp: host_parts_def parts)
  have join: "join '' '' toks \<noteq> []" "hd (join '' '' toks) = hd (hd toks)"
      "last (join '' '' toks) = last (last toks)"
    using host_join_hd [OF ok(3,2)] host_join_last [OF ok(3,2)] by auto
  have word: "host_word (hd toks)" "host_word (last toks)"
    using ok(2,3) by (auto simp: list_all_iff)
  have body: "body \<noteq> []" "hd body = hd (hd toks)" "\<not> py_space (hd body)" "\<not> py_space (last body)"
    using join word ok(4) by (auto simp: body_def host_word_ends)
  have hash: "hd body \<notin> set ''#;''" using body(2) word(1) by (simp add: host_word_def)
  have bare: "rstrip_by line_end (host_line parts) = leading @ body"
  proof -
    have line: "host_line parts = (leading @ body) @ [newline]"
      by (simp add: host_line_def parts body_def)
    have "rstrip_by line_end ((leading @ body) @ [newline]) = rstrip_by line_end (leading @ body)"
      by (rule rstrip_by_append_space) (simp add: line_end_def)
    also have "\<dots> = leading @ body" using body line_end_space by (intro rstrip_by_id) auto
    finally show ?thesis unfolding line .
  qed
  have lstrip: "lstrip_by py_space (leading @ body) = body"
    using ok(1) body(1,3) by (cases body) (auto simp: lstrip_by_def list_all_iff dropWhile_append2)
  have strip: "py_strip (leading @ body) = body"
    using body by (simp add: py_strip_def strip_by_def lstrip rstrip_by_id)
  have words: "words_by py_space (join '' '' toks) = toks"
    by (rule words_by_join) (use ok(3) in \<open>auto simp: host_word_def list_all_iff py_space_def\<close>)
  have "comment_at body = (if comment = [] then None else Some (join '' '' toks, comment))"
    using comment_at_join [OF ok(3), of ?tail] comment_at_comment [of comment] ok(4)
    by (auto simp: body_def)
  moreover have "\<not> starts_with body ''#''" "\<not> starts_with body '';''"
    using body(1) hash by (cases body; auto)+
  moreover have "rstrip_by py_space (join '' '' toks) = join '' '' toks"
    using join word by (simp add: rstrip_by_id host_word_ends)
  moreover have "comment = [] \<Longrightarrow> body = join '' '' toks" by (simp add: body_def)
  ultimately show ?thesis
    unfolding parts split_inventory_host_line_def Let_def bare [unfolded parts] lstrip strip
    using body(1) words by (cases "comment = []") auto
qed

lemma rewritten_line:
  assumes "split_inventory_host_line line = Some (leading, toks, comment)"
  shows "rewrite_compute_inventory_line line settings
     = host_line (leading, filter (\<lambda>t. \<not> managed_token t) toks @ map setting_token settings, comment)"
  by (simp add: rewrite_compute_inventory_line_def assms host_line_def)

text \<open>Settings as the program writes them: managed keys, and values without whitespace.\<close>

definition clean_settings :: "(string \<times> string) list \<Rightarrow> bool" where
  "clean_settings settings \<longleftrightarrow> settings \<noteq> [] \<and>
     list_all (\<lambda>(k, v). (k = ''use_local_block_volume'' \<or> starts_with k ''local_block_volume_'')
       \<and> CHR ''='' \<notin> set k \<and> list_all (\<lambda>c. \<not> py_space c) (k @ v)) settings"

lemma setting_token_managed:
  "clean_settings settings \<Longrightarrow> (k, v) \<in> set settings \<Longrightarrow>
     managed_token (setting_token (k, v)) \<and> host_word (setting_token (k, v))"
proof -
  assume "clean_settings settings" "(k, v) \<in> set settings"
  then have k: "k = ''use_local_block_volume'' \<or> starts_with k ''local_block_volume_''"
      "CHR ''='' \<notin> set k" "list_all (\<lambda>c. \<not> py_space c) (k @ v)"
    by (auto simp: clean_settings_def list_all_iff)
  have "partition_at CHR ''='' (k @ CHR ''='' # v) = (k, True, v)"
    using k(2) by (rule partition_at_found)
  then have "managed_token (setting_token (k, v))"
    using k(1) by (simp add: managed_token_def setting_token_def)
  moreover have "host_word (setting_token (k, v))"
    using k(1,3) by (auto simp: host_word_def setting_token_def list_all_iff starts_with_iff py_space_def)
  ultimately show ?thesis ..
qed

lemma rewritten_parts:
  assumes "split_inventory_host_line line = Some (leading, toks, comment)" and "clean_settings settings"
  shows "split_inventory_host_line (rewrite_compute_inventory_line line settings)
     = Some (leading, filter (\<lambda>t. \<not> managed_token t) toks @ map setting_token settings, comment)"
proof -
  have "host_parts (leading, toks, comment)" using assms(1) by (rule split_host_parts)
  moreover have "list_all host_word (map setting_token settings)" "settings \<noteq> []"
    using setting_token_managed [OF assms(2)] assms(2)
    by (auto simp: list_all_iff clean_settings_def)
  ultimately show ?thesis
    unfolding rewritten_line [OF assms(1)]
    by (intro split_host_line) (auto simp: host_parts_def list_all_iff)
qed

text \<open>
  Rewriting a host line changes its local Block Volume settings and nothing else. Read
  back, the line has the same indentation and comment, the other words in their order, and
  after them exactly the given settings; a host name and its OCI instance stay what they were;
  and rewriting it again with the same settings gives the same line.
\<close>

lemma rewritten_line_reads_back:
  assumes "split_inventory_host_line line = Some (leading, name # toks, comment)"
    and "clean_settings settings" and "\<not> managed_token name"
  shows "split_inventory_host_line (rewrite_compute_inventory_line line settings)
      = Some (leading, name # filter (\<lambda>t. \<not> managed_token t) toks @ map setting_token settings, comment)
    \<and> get_inventory_instance_id (rewrite_compute_inventory_line line settings)
      = get_inventory_instance_id line
    \<and> rewrite_compute_inventory_line (rewrite_compute_inventory_line line settings) settings
      = rewrite_compute_inventory_line line settings"
proof -
  note parts = rewritten_parts [OF assms(1,2)]
  have other: "\<not> starts_with (setting_token kv) instance_id_key" if "kv \<in> set settings" for kv
    using that assms(2)
    by (cases kv) (auto simp: clean_settings_def list_all_iff setting_token_def instance_id_key_def
        starts_with_iff append_eq_Cons_conv)
  then have "filter (\<lambda>t. starts_with t instance_id_key) (map setting_token settings) = []"
    by (simp add: filter_empty_conv)
  moreover have "\<not> managed_token t" if "starts_with t instance_id_key" for t
    using that by (auto simp: starts_with_iff instance_id_key_def managed_token_def partition_at_def)
  then have "filter (\<lambda>t. starts_with t instance_id_key) (filter (\<lambda>t. \<not> managed_token t) ts)
      = filter (\<lambda>t. starts_with t instance_id_key) ts" for ts
    by (induction ts) auto
  moreover have "filter (\<lambda>t. \<not> managed_token t) (map setting_token settings) = []"
    using setting_token_managed [OF assms(2)] by (auto simp: filter_empty_conv)
  ultimately have ids: "filter (\<lambda>t. starts_with t instance_id_key)
        (name # filter (\<lambda>t. \<not> managed_token t) toks @ map setting_token settings)
      = filter (\<lambda>t. starts_with t instance_id_key) (name # toks)"
    and again: "filter (\<lambda>t. \<not> managed_token t)
        (name # filter (\<lambda>t. \<not> managed_token t) toks @ map setting_token settings)
      = name # filter (\<lambda>t. \<not> managed_token t) toks"
    using assms(3) by simp_all
  have parts': "split_inventory_host_line (rewrite_compute_inventory_line line settings)
      = Some (leading, name # filter (\<lambda>t. \<not> managed_token t) toks @ map setting_token settings, comment)"
    using parts assms(3) by simp
  moreover have "get_inventory_instance_id (rewrite_compute_inventory_line line settings)
      = get_inventory_instance_id line"
    unfolding get_inventory_instance_id_def parts' assms(1) option.case prod.case ids by (simp add: Let_def)
  moreover have "rewrite_compute_inventory_line (rewrite_compute_inventory_line line settings) settings
      = rewrite_compute_inventory_line line settings"
    unfolding rewritten_line [OF parts'] again
    using rewritten_line [OF assms(1), of settings] assms(3) by simp
  ultimately show ?thesis by blast
qed

definition sample_host_line :: string where
  "sample_host_line = ''hpc-node-4 ansible_host=10.0.0.4  local_block_volume_size=50 role=compute ''
     @ ''oci_instance_id=ocid1.instance.a # spare; see #12'' @ [newline]"

definition sample_settings :: "(string \<times> string) list" where
  "sample_settings = [(''use_local_block_volume'', ''true''), (''local_block_volume_size'', ''750'')]"

lemma rewritten_line_reads_back_witness:
  "split_inventory_host_line (rewrite_compute_inventory_line sample_host_line sample_settings)
     = Some ([], ''hpc-node-4'' # filter (\<lambda>t. \<not> managed_token t)
         [''ansible_host=10.0.0.4'', ''local_block_volume_size=50'', ''role=compute'',
          ''oci_instance_id=ocid1.instance.a''] @ map setting_token sample_settings,
         ''# spare; see #12'')"
proof -
  have "split_inventory_host_line sample_host_line
      = Some ([], ''hpc-node-4'' # [''ansible_host=10.0.0.4'', ''local_block_volume_size=50'',
          ''role=compute'', ''oci_instance_id=ocid1.instance.a''], ''# spare; see #12'')"
    by code_simp
  moreover have "clean_settings sample_settings" by code_simp
  moreover have "\<not> managed_token ''hpc-node-4''" by code_simp
  ultimately show ?thesis by (rule rewritten_line_reads_back [THEN conjunct1])
qed

section \<open>Preparing an inventory for the local Block Volumes\<close>

definition read_file :: "string \<Rightarrow> 'w run \<Rightarrow> string option" where
  "read_file path s = map_of (files s) path"

definition put_file :: "'w cloud \<Rightarrow> string \<Rightarrow> string \<Rightarrow> ('w, unit) resize" where
  "put_file c path contents =
     cbind (api (open_for_writing c path)) (\<lambda>_ s. (Inr (), s\<lparr>files := dset path contents (files s)\<rparr>))"

text \<open>The temporary file takes the mode and the owner of the old file, which must exist.\<close>

definition write_inventory_atomic :: "'w cloud \<Rightarrow> inventory \<Rightarrow> string \<Rightarrow> ('w, unit) resize" where
  "write_inventory_atomic c invt path = (\<lambda>s.
     if read_file path s = None then craise (OtherFailure ''FileNotFoundError'') s
     else put_file c path (write_inventory invt) s)"

text \<open>\<open>str(v)\<close> of an attribute that may be \<open>None\<close>.\<close>

definition str_opt :: "string option \<Rightarrow> string" where
  "str_opt v = (case v of None \<Rightarrow> ''None'' | Some t \<Rightarrow> t)"

definition no_volume_settings :: "(string \<times> string) list" where
  "no_volume_settings = [(''use_local_block_volume'', ''false'')]"

definition volume_settings :: "volume_config \<Rightarrow> attachment \<Rightarrow> (string \<times> string) list" where
  "volume_settings cfg a =
     [(''use_local_block_volume'', ''true''),
      (''local_block_volume_size'', show_int (cfg_size cfg)),
      (''local_block_volume_mount_point'', cfg_mount cfg),
      (''local_block_volume_iscsi_ip'', str_opt (at_ipv4 a)),
      (''local_block_volume_iscsi_port'', str_opt (map_option show_int (at_port a))),
      (''local_block_volume_iqn'', str_opt (at_iqn a))]"

definition host_settings ::
  "'w cloud \<Rightarrow> inventory \<Rightarrow> string \<Rightarrow> rat \<Rightarrow> string \<Rightarrow> string \<Rightarrow> ('w, (string \<times> string) list) resize" where
  "host_settings c invt cluster max_wait host iid =
     cbind (api (get_instance c iid)) (\<lambda>inst.
     cbind (clift (check (RuntimeError
         (''Inventory host '' @ host @ '' does not match OCI instance '' @ instance_name inst))
         (instance_name inst = host))) (\<lambda>_.
     cbind (clift (get_instance_config iid inst invt cluster)) (\<lambda>expected_config.
     case expected_config of
       None \<Rightarrow> creturn no_volume_settings
     | Some cfg \<Rightarrow>
         cbind (get_local_block_volume_attachment c (instance_compartment inst) iid max_wait
           expected_config cluster inst) (\<lambda>a.
         creturn (volume_settings cfg a)))))"

definition prepare_line ::
  "'w cloud \<Rightarrow> string \<Rightarrow> rat \<Rightarrow> string \<Rightarrow> inventory \<times> (string \<times> (string \<times> string) list) list
     \<Rightarrow> nat \<times> string \<Rightarrow> ('w, inventory \<times> (string \<times> (string \<times> string) list) list) resize" where
  "prepare_line c cluster max_wait sect acc indexed =
     (case acc of (invt, hosts) \<Rightarrow> case indexed of (index, line) \<Rightarrow>
        cbind (clift (get_inventory_instance_id line)) (\<lambda>found.
        case found of
          None \<Rightarrow> creturn (invt, hosts)
        | Some (host, iid) \<Rightarrow>
            cbind (host_settings c invt cluster max_wait host iid) (\<lambda>settings.
            creturn (dset sect
                ((inventory_lines invt sect)[index := rewrite_compute_inventory_line line settings]) invt,
              dset host settings hosts))))"

definition prepare_section ::
  "'w cloud \<Rightarrow> string \<Rightarrow> rat \<Rightarrow> inventory \<times> (string \<times> (string \<times> string) list) list
     \<Rightarrow> string \<Rightarrow> ('w, inventory \<times> (string \<times> (string \<times> string) list) list) resize" where
  "prepare_section c cluster max_wait acc sect =
     (case map_of (fst acc) sect of
        None \<Rightarrow> craise (RuntimeError (''Inventory does not contain ['' @ sect @ '']''))
      | Some ls \<Rightarrow> cfold (prepare_line c cluster max_wait sect) acc (enumerate 0 ls))"

definition prepare_nfs_line ::
  "(string \<times> (string \<times> string) list) list \<Rightarrow> inventory \<Rightarrow> nat \<times> string \<Rightarrow> inventory" where
  "prepare_nfs_line hosts invt indexed =
     (case indexed of (index, line) \<Rightarrow>
        case split_inventory_host_line line of
          None \<Rightarrow> invt
        | Some (_, toks, _) \<Rightarrow>
            if toks = [] then invt
            else case map_of hosts (hd toks) of
                None \<Rightarrow> invt
              | Some settings \<Rightarrow> dset ''nfs''
                  ((inventory_lines invt ''nfs'')[index := rewrite_compute_inventory_line line settings]) invt)"

definition prepare_nfs ::
  "(string \<times> (string \<times> string) list) list \<Rightarrow> inventory \<Rightarrow> inventory" where
  "prepare_nfs hosts invt =
     foldl (prepare_nfs_line hosts) invt (enumerate 0 (inventory_lines invt ''nfs''))"

definition prepared_sections :: "string list" where
  "prepared_sections = [''compute_configured'', ''compute_to_add'']"

definition prepare_local_block_volume_inventory ::
  "'w cloud \<Rightarrow> string \<Rightarrow> rat \<Rightarrow> ('w, unit) resize" where
  "prepare_local_block_volume_inventory c path max_wait = (\<lambda>s.
     cbind (clift (need (RuntimeError (''Inventory file '' @ path @ '' was not found''))
       (parse_inventory (read_file path s)))) (\<lambda>invt.
     cbind (clift (need (RuntimeError ''Inventory does not define cluster_name'')
       (case get_inventory_variable invt ''cluster_name'' of
          None \<Rightarrow> None | Some n \<Rightarrow> if n = [] then None else Some n))) (\<lambda>cluster.
     cbind (cfold (prepare_section c cluster max_wait) (invt, []) prepared_sections) (\<lambda>(invt', hosts).
     write_inventory_atomic c (prepare_nfs hosts invt') path))) s)"

lemmas prepare_equations [code] =
  put_file_def [THEN fun_cong] write_inventory_atomic_def [THEN fun_cong]
  host_settings_def [THEN fun_cong] prepare_line_def [THEN fun_cong]
  prepare_section_def [THEN fun_cong] prepare_local_block_volume_inventory_def [THEN fun_cong]

text \<open>
  Settings are justified by a run when they are what the instance asks for: its tags (or, without
  them, the inventory) say no volume, and the settings switch it off; or they give a
  configuration, and the settings carry it with the coordinates of an attachment that the run
  saw as the instance's own, together with its volume.
\<close>

definition coordinates_seen ::
  "(event \<times> char doc) list \<Rightarrow> string \<Rightarrow> string \<Rightarrow> string \<Rightarrow> volume_config
     \<Rightarrow> (string \<times> string) list \<Rightarrow> bool" where
  "coordinates_seen seen cluster host iid cfg settings \<longleftrightarrow>
     (\<exists>a attachments v. settings = volume_settings cfg a
        \<and> Saw_attachments iid attachments \<in> fst ` set seen \<and> Saw_volume (at_volume a) v \<in> fst ` set seen
        \<and> usable_attachment iid attachments a \<and> own_volume cluster host cfg a v)"

definition justified ::
  "'w cloud \<Rightarrow> inventory \<Rightarrow> (event \<times> char doc) list \<Rightarrow> string \<Rightarrow> string \<Rightarrow> string
     \<Rightarrow> (string \<times> string) list \<Rightarrow> bool" where
  "justified c invt seen cluster host iid settings \<longleftrightarrow>
     (\<exists>inst w w'. get_instance c iid w = (Inr inst, w') \<and> instance_name inst = host
       \<and> (case get_instance_config iid inst invt cluster of
            Inl _ \<Rightarrow> False
          | Inr None \<Rightarrow> settings = no_volume_settings
          | Inr (Some cfg) \<Rightarrow> coordinates_seen seen cluster host iid cfg settings))"

definition prepared_line ::
  "'w cloud \<Rightarrow> inventory \<Rightarrow> (event \<times> char doc) list \<Rightarrow> string \<Rightarrow> string \<Rightarrow> string \<Rightarrow> bool" where
  "prepared_line c invt seen cluster line line' \<longleftrightarrow>
     (case get_inventory_instance_id line of
        Inl _ \<Rightarrow> False
      | Inr None \<Rightarrow> line' = line
      | Inr (Some (host, iid)) \<Rightarrow>
          (\<exists>settings. line' = rewrite_compute_inventory_line line settings
             \<and> justified c invt seen cluster host iid settings))"

text \<open>The hosts and OCIDs that the lines of the compute sections name.\<close>

definition line_ids :: "string \<Rightarrow> (string \<times> string) list" where
  "line_ids line = (case get_inventory_instance_id line of Inr (Some p) \<Rightarrow> [p] | _ \<Rightarrow> [])"

definition section_ids :: "inventory \<Rightarrow> string \<Rightarrow> (string \<times> string) list" where
  "section_ids invt sect = concat (map line_ids (inventory_lines invt sect))"

definition prepared_nfs_line ::
  "'w cloud \<Rightarrow> inventory \<Rightarrow> (event \<times> char doc) list \<Rightarrow> string \<Rightarrow> string \<Rightarrow> string \<Rightarrow> bool" where
  "prepared_nfs_line c invt seen cluster line line' \<longleftrightarrow>
     (let ids = concat (map (section_ids invt) prepared_sections)
      in case split_inventory_host_line line of
           None \<Rightarrow> line' = line
         | Some (leading, toks, comment) \<Rightarrow>
             if toks = [] \<or> hd toks \<notin> fst ` set ids then line' = line
             else \<exists>iid settings. (hd toks, iid) \<in> set ids
                \<and> line' = rewrite_compute_inventory_line line settings
                \<and> justified c invt seen cluster (hd toks) iid settings)"

definition prepared_inventory ::
  "'w cloud \<Rightarrow> (event \<times> char doc) list \<Rightarrow> string \<Rightarrow> inventory \<Rightarrow> inventory \<Rightarrow> bool" where
  "prepared_inventory c seen cluster invt invt' \<longleftrightarrow>
     map fst invt' = map fst invt
     \<and> (\<forall>sect. if sect \<in> set prepared_sections
          then list_all2 (prepared_line c invt seen cluster)
                 (inventory_lines invt sect) (inventory_lines invt' sect)
          else if sect = ''nfs''
          then list_all2 (prepared_nfs_line c invt seen cluster)
                 (inventory_lines invt sect) (inventory_lines invt' sect)
          else inventory_lines invt' sect = inventory_lines invt sect)"

lemma coordinates_seen_mono: "coordinates_seen seen cluster host iid cfg settings \<Longrightarrow> set seen \<subseteq> set seen' \<Longrightarrow>
    coordinates_seen seen' cluster host iid cfg settings"
  unfolding coordinates_seen_def by (blast dest: image_mono [where f = fst])

lemma justified_mono: "justified c invt seen cluster host iid settings \<Longrightarrow> set seen \<subseteq> set seen' \<Longrightarrow>
    justified c invt seen' cluster host iid settings"
  unfolding justified_def by (fastforce split: sum.splits option.splits intro: coordinates_seen_mono)

lemma prepared_line_mono: "prepared_line c invt seen cluster l l' \<Longrightarrow> set seen \<subseteq> set seen' \<Longrightarrow>
    prepared_line c invt seen' cluster l l'"
  unfolding prepared_line_def by (auto split: sum.splits option.splits intro: justified_mono)

text \<open>
  While the sections are gone through: the hosts so far are those that \<open>ids\<close> names, with justified
  settings.
\<close>

definition justified_hosts ::
  "'w cloud \<Rightarrow> inventory \<Rightarrow> (event \<times> char doc) list \<Rightarrow> string \<Rightarrow> (string \<times> string) list
     \<Rightarrow> (string \<times> (string \<times> string) list) list \<Rightarrow> bool" where
  "justified_hosts c invt seen cluster ids hosts \<longleftrightarrow>
     (\<forall>(host, _) \<in> set ids. map_of hosts host \<noteq> None)
     \<and> (\<forall>host settings. map_of hosts host = Some settings \<longrightarrow>
        (\<exists>iid. (host, iid) \<in> set ids \<and> justified c invt seen cluster host iid settings))"

text \<open>Of the inventory, only the variables decide what an instance asks for.\<close>

lemma get_instance_config_vars:
  assumes "inventory_lines invt' ''all:vars'' = inventory_lines invt ''all:vars''"
  shows "get_instance_config iid inst invt' cluster = get_instance_config iid inst invt cluster"
proof -
  have "get_inventory_variable invt' = get_inventory_variable invt"
    using assms by (simp add: get_inventory_variable_def fun_eq_iff)
  then have "validate_mount_point m invt' = validate_mount_point m invt" for m
    by (simp add: validate_mount_point_def reserved_mount_points_def variable_or_def)
  then show ?thesis by (simp only: get_instance_config_def)
qed

lemma same_vars:
  assumes "inventory_lines invt' ''all:vars'' = inventory_lines invt ''all:vars''"
  shows "justified c invt' = justified c invt" and "prepared_line c invt' = prepared_line c invt"
    and "justified_hosts c invt' = justified_hosts c invt"
proof -
  show same: "justified c invt' = justified c invt"
    by (intro ext) (simp only: justified_def get_instance_config_vars [OF assms])
  show "prepared_line c invt' = prepared_line c invt" "justified_hosts c invt' = justified_hosts c invt"
    by (intro ext, simp only: prepared_line_def justified_hosts_def same)+
qed

lemma host_settings_Inr:
  assumes "host_settings c invt cluster max_wait host iid s = (Inr settings, s')"
  shows "\<exists>new. trace s' = trace s @ new \<and> justified c invt new cluster host iid settings"
proof -
  from assms obtain inst s1 cfg where
    inst: "api (get_instance c iid) s = (Inr inst, s1)" "instance_name inst = host"
      "get_instance_config iid inst invt cluster = Inr cfg"
    and rest: "(case cfg of None \<Rightarrow> creturn no_volume_settings
       | Some k \<Rightarrow> cbind (get_local_block_volume_attachment c (instance_compartment inst) iid max_wait
           cfg cluster inst) (\<lambda>a. creturn (volume_settings k a))) s1 = (Inr settings, s')"
    by (auto simp: host_settings_def cbind_Inr_iff)
  obtain w where got: "get_instance c iid (world_of s) = (Inr inst, w)" and tr: "trace s1 = trace s"
    using inst(1) by (auto simp: api_Inr)
  show ?thesis
  proof (cases cfg)
    case None
    then have "justified c invt [] cluster host iid settings"
      unfolding justified_def using rest got inst(2,3)
      by (intro exI [of _ inst] exI [of _ "world_of s"] exI [of _ w]) simp
    then show ?thesis using rest None tr by auto
  next
    case (Some k)
    with rest obtain a where
      a: "get_local_block_volume_attachment c (instance_compartment inst) iid max_wait (Some k)
          cluster inst s1 = (Inr a, s')" "settings = volume_settings k a"
      by (auto simp: cbind_Inr_iff)
    from attachment_accepted [OF a(1)] obtain earlier attachments v where
      v: "trace s' = trace s1 @ earlier @ [(Saw_attachments iid attachments, journal s1),
            (Saw_volume (at_volume a) v, journal s1)]"
        "usable_attachment iid attachments a" "own_volume cluster (instance_name inst) k a v"
      by blast
    let ?new = "earlier @ [(Saw_attachments iid attachments, journal s1),
            (Saw_volume (at_volume a) v, journal s1)]"
    have "coordinates_seen ?new cluster host iid k settings"
      unfolding coordinates_seen_def using a(2) inst(2) v(2,3)
      by (intro exI [of _ a] exI [of _ attachments] exI [of _ v]) simp
    then have "justified c invt ?new cluster host iid settings"
      unfolding justified_def using inst(2,3) got Some
      by (intro exI [of _ inst] exI [of _ "world_of s"] exI [of _ w]) simp
    then show ?thesis using v(1) tr by auto
  qed
qed

lemma inventory_lines_dset [simp]:
  "inventory_lines (dset k v invt) k' = (if k' = k then v else inventory_lines invt k')"
  by (simp add: inventory_lines_def)

lemma dset_keys: "k \<in> fst ` set d \<Longrightarrow> map fst (dset k v d) = map fst d"
  unfolding dset_def by (induction d) auto

lemma justified_hosts_mono:
  "justified_hosts c invt seen cluster ids hosts \<Longrightarrow> set seen \<subseteq> set seen' \<Longrightarrow>
     justified_hosts c invt seen' cluster ids hosts"
  unfolding justified_hosts_def by (meson justified_mono)

lemma justified_hosts_dset:
  "justified_hosts c invt seen cluster ids hosts \<Longrightarrow> justified c invt seen cluster host iid settings \<Longrightarrow>
     justified_hosts c invt seen cluster (ids @ [(host, iid)]) (dset host settings hosts)"
  unfolding justified_hosts_def map_of_dset by auto

lemma prepare_line_Inr:
  assumes "prepare_line c cluster w sect (invt, hosts) (length pre, line) s = (Inr (invt', hosts'), s')"
    and "inventory_lines invt sect = pre @ line # rest" and "sect \<in> fst ` set invt"
  shows "\<exists>new line'. trace s' = trace s @ new \<and> prepared_line c invt new cluster line line'
     \<and> inventory_lines invt' sect = pre @ line' # rest
     \<and> (\<forall>other. other \<noteq> sect \<longrightarrow> inventory_lines invt' other = inventory_lines invt other)
     \<and> map fst invt' = map fst invt
     \<and> (\<forall>seen ids. justified_hosts c invt seen cluster ids hosts
         \<longrightarrow> justified_hosts c invt (seen @ new) cluster (ids @ line_ids line) hosts')"
proof -
  from assms(1) obtain found where
    found: "get_inventory_instance_id line = Inr found"
    by (auto simp: prepare_line_def cbind_Inr_iff)
  show ?thesis
  proof (cases found)
    case None
    then show ?thesis
      using assms found
      by (intro exI [of _ "[] :: (event \<times> char doc) list"] exI [of _ line])
        (simp add: prepare_line_def prepared_line_def line_ids_def cbind_apply)
  next
    case (Some p)
    obtain host iid where p: "p = (host, iid)" by (cases p)
    with Some found assms(1) obtain settings where
      settings: "host_settings c invt cluster w host iid s = (Inr settings, s')"
      and res: "invt' = dset sect ((inventory_lines invt sect)
            [length pre := rewrite_compute_inventory_line line settings]) invt"
        "hosts' = dset host settings hosts"
      by (auto simp: prepare_line_def cbind_Inr_iff)
    from host_settings_Inr [OF settings] obtain new where
      new: "trace s' = trace s @ new" "justified c invt new cluster host iid settings" by blast
    have "line_ids line = [(host, iid)]" using found Some p by (simp add: line_ids_def)
    have "justified_hosts c invt (seen @ new) cluster (ids @ line_ids line) hosts'"
      if "justified_hosts c invt seen cluster ids hosts" for seen ids
      unfolding res(2) \<open>line_ids line = [(host, iid)]\<close>
      by (rule justified_hosts_dset [OF justified_hosts_mono [OF that] justified_mono [OF new(2)]]) auto
    then show ?thesis
      using new res(1) assms(2,3) found Some p
      by (intro exI [of _ new] exI [of _ "rewrite_compute_inventory_line line settings"])
        (auto simp: prepared_line_def dset_keys)
  qed
qed

lemma prepare_lines_Inr:
  assumes "cfold (prepare_line c cluster w sect) (invt, hosts) (enumerate (length pre) ls) s
      = (Inr (invt', hosts'), s')"
    and "inventory_lines invt sect = pre @ ls" and "sect \<in> fst ` set invt" and "sect \<noteq> ''all:vars''"
  shows "\<exists>new ls'. trace s' = trace s @ new \<and> list_all2 (prepared_line c invt new cluster) ls ls'
     \<and> inventory_lines invt' sect = pre @ ls'
     \<and> (\<forall>other. other \<noteq> sect \<longrightarrow> inventory_lines invt' other = inventory_lines invt other)
     \<and> map fst invt' = map fst invt
     \<and> (\<forall>seen ids. justified_hosts c invt seen cluster ids hosts
         \<longrightarrow> justified_hosts c invt (seen @ new) cluster (ids @ concat (map line_ids ls)) hosts')"
  using assms
proof (induction ls arbitrary: pre invt hosts s)
  case Nil
  then show ?case by (intro exI [of _ "[]"]) simp
next
  case (Cons l ls)
  from Cons.prems(1) obtain invt1 hosts1 s1 where
    one: "prepare_line c cluster w sect (invt, hosts) (length pre, l) s = (Inr (invt1, hosts1), s1)"
    and two: "cfold (prepare_line c cluster w sect) (invt1, hosts1) (enumerate (Suc (length pre)) ls) s1
      = (Inr (invt', hosts'), s')"
    by (auto simp: cbind_Inr_iff)
  from prepare_line_Inr [OF one Cons.prems(2,3)] obtain new1 l' where
    a: "trace s1 = trace s @ new1" "prepared_line c invt new1 cluster l l'"
      "inventory_lines invt1 sect = pre @ l' # ls"
      "\<forall>other. other \<noteq> sect \<longrightarrow> inventory_lines invt1 other = inventory_lines invt other"
      "map fst invt1 = map fst invt"
    and hosts1: "\<And>seen ids. justified_hosts c invt seen cluster ids hosts
         \<Longrightarrow> justified_hosts c invt (seen @ new1) cluster (ids @ line_ids l) hosts1"
    by blast
  have vars: "inventory_lines invt1 ''all:vars'' = inventory_lines invt ''all:vars''"
    using a(4) Cons.prems(4) by simp
  have key: "sect \<in> fst ` set invt1" using Cons.prems(3) a(5) by (metis list.set_map)
  have lines1: "inventory_lines invt1 sect = (pre @ [l']) @ ls" using a(3) by simp
  have two': "cfold (prepare_line c cluster w sect) (invt1, hosts1) (enumerate (length (pre @ [l'])) ls) s1
      = (Inr (invt', hosts'), s')" using two by simp
  from Cons.IH [OF two' lines1 key Cons.prems(4)] obtain new2 ls' where
    b: "trace s' = trace s1 @ new2" "list_all2 (prepared_line c invt new2 cluster) ls ls'"
      "inventory_lines invt' sect = (pre @ [l']) @ ls'"
      "\<forall>other. other \<noteq> sect \<longrightarrow> inventory_lines invt' other = inventory_lines invt1 other"
      "map fst invt' = map fst invt1"
    and hosts2: "\<And>seen ids. justified_hosts c invt seen cluster ids hosts1
         \<Longrightarrow> justified_hosts c invt (seen @ new2) cluster (ids @ concat (map line_ids ls)) hosts'"
    unfolding same_vars [OF vars] by blast
  have "list_all2 (prepared_line c invt (new1 @ new2) cluster) (l # ls) (l' # ls')"
    using a(2) b(2) by (auto elim!: list_all2_mono intro: prepared_line_mono)
  moreover have "justified_hosts c invt (seen @ new1 @ new2) cluster (ids @ concat (map line_ids (l # ls))) hosts'"
    if "justified_hosts c invt seen cluster ids hosts" for seen ids
    using hosts2 [OF hosts1 [OF that]] by simp
  ultimately show ?case
    using a b by (intro exI [of _ "new1 @ new2"] exI [of _ "l' # ls'"]) auto
qed

lemma prepare_section_Inr:
  assumes "prepare_section c cluster w (invt, hosts) sect s = (Inr (invt', hosts'), s')"
    and "sect \<noteq> ''all:vars''"
  shows "\<exists>new. trace s' = trace s @ new
     \<and> list_all2 (prepared_line c invt new cluster) (inventory_lines invt sect) (inventory_lines invt' sect)
     \<and> (\<forall>other. other \<noteq> sect \<longrightarrow> inventory_lines invt' other = inventory_lines invt other)
     \<and> map fst invt' = map fst invt
     \<and> (\<forall>seen ids. justified_hosts c invt seen cluster ids hosts
         \<longrightarrow> justified_hosts c invt (seen @ new) cluster (ids @ section_ids invt sect) hosts')"
proof -
  from assms obtain ls where ls: "map_of invt sect = Some ls"
    by (cases "map_of invt sect") (simp_all add: prepare_section_def)
  then have key: "sect \<in> fst ` set invt" and eq: "inventory_lines invt sect = [] @ ls"
    by (force dest: map_of_SomeD, simp add: inventory_lines_def)
  have "cfold (prepare_line c cluster w sect) (invt, hosts) (enumerate (length ([] :: string list)) ls) s
      = (Inr (invt', hosts'), s')"
    using assms(1) ls by (simp add: prepare_section_def)
  from prepare_lines_Inr [OF this eq key assms(2)] show ?thesis
    using eq by (simp add: section_ids_def)
qed

lemma prepare_nfs_line_step:
  assumes "inventory_lines invt ''nfs'' = pre @ l # ls" and "''nfs'' \<in> fst ` set invt"
    and "justified_hosts c invt0 seen cluster (concat (map (section_ids invt0) prepared_sections)) hosts"
  shows "\<exists>l'. prepared_nfs_line c invt0 seen cluster l l'
     \<and> inventory_lines (prepare_nfs_line hosts invt (length pre, l)) ''nfs'' = pre @ l' # ls
     \<and> (\<forall>other. other \<noteq> ''nfs'' \<longrightarrow>
          inventory_lines (prepare_nfs_line hosts invt (length pre, l)) other = inventory_lines invt other)
     \<and> map fst (prepare_nfs_line hosts invt (length pre, l)) = map fst invt"
proof (cases "split_inventory_host_line l")
  case None
  then show ?thesis using assms(1) by (simp add: prepared_nfs_line_def prepare_nfs_line_def)
next
  case (Some p)
  obtain leading toks comment where p: "p = (leading, toks, comment)" by (cases p) auto
  show ?thesis
  proof (cases "toks = [] \<or> map_of hosts (hd toks) = None")
    case True
    then have "toks = [] \<or> hd toks \<notin> fst ` set (concat (map (section_ids invt0) prepared_sections))"
      using assms(3) unfolding justified_hosts_def by force
    then have "prepared_nfs_line c invt0 seen cluster l l"
      unfolding prepared_nfs_line_def Let_def Some p by simp
    moreover have "prepare_nfs_line hosts invt (length pre, l) = invt"
      using Some p True by (auto simp: prepare_nfs_line_def)
    ultimately show ?thesis using assms(1) by auto
  next
    case False
    then obtain settings where settings: "map_of hosts (hd toks) = Some settings" by auto
    then obtain iid where iid: "(hd toks, iid) \<in> set (concat (map (section_ids invt0) prepared_sections))"
      "justified c invt0 seen cluster (hd toks) iid settings"
      using assms(3) unfolding justified_hosts_def by blast
    let ?l' = "rewrite_compute_inventory_line l settings"
    have "prepared_nfs_line c invt0 seen cluster l ?l'"
      using iid False image_eqI [of "hd toks" fst, OF _ iid(1)]
      unfolding prepared_nfs_line_def Let_def Some p option.case prod.case
      by (simp only: fst_conv if_False de_Morgan_disj not_not simp_thms) blast
    moreover have "prepare_nfs_line hosts invt (length pre, l) = dset ''nfs'' (pre @ ?l' # ls) invt"
      using Some p False settings assms(1) by (simp add: prepare_nfs_line_def)
    ultimately show ?thesis using assms(2) by (intro exI [of _ ?l']) (simp add: dset_keys)
  qed
qed

lemma prepare_nfs_lines:
  assumes "inventory_lines invt ''nfs'' = pre @ ls" and "ls \<noteq> [] \<longrightarrow> ''nfs'' \<in> fst ` set invt"
    and "justified_hosts c invt0 seen cluster (concat (map (section_ids invt0) prepared_sections)) hosts"
    and "foldl (prepare_nfs_line hosts) invt (enumerate (length pre) ls) = invt'"
  shows "\<exists>ls'. list_all2 (prepared_nfs_line c invt0 seen cluster) ls ls'
     \<and> inventory_lines invt' ''nfs'' = pre @ ls'
     \<and> (\<forall>other. other \<noteq> ''nfs'' \<longrightarrow> inventory_lines invt' other = inventory_lines invt other)
     \<and> map fst invt' = map fst invt"
  using assms
proof (induction ls arbitrary: pre invt)
  case Nil
  then show ?case by auto
next
  case (Cons l ls)
  define invt1 where "invt1 = prepare_nfs_line hosts invt (length pre, l)"
  have key: "''nfs'' \<in> fst ` set invt" using Cons.prems(2) by simp
  from prepare_nfs_line_step [OF Cons.prems(1) key Cons.prems(3)] obtain l' where
    l': "prepared_nfs_line c invt0 seen cluster l l'" "inventory_lines invt1 ''nfs'' = (pre @ [l']) @ ls"
      "\<forall>other. other \<noteq> ''nfs'' \<longrightarrow> inventory_lines invt1 other = inventory_lines invt other"
      "map fst invt1 = map fst invt"
    by (auto simp: invt1_def)
  have key1: "ls \<noteq> [] \<longrightarrow> ''nfs'' \<in> fst ` set invt1"
    using key l'(4) by (metis list.set_map)
  have fold: "foldl (prepare_nfs_line hosts) invt1 (enumerate (length (pre @ [l'])) ls) = invt'"
    using Cons.prems(4) by (simp add: invt1_def)
  from Cons.IH [OF l'(2) key1 Cons.prems(3) fold] obtain ls' where
    "list_all2 (prepared_nfs_line c invt0 seen cluster) ls ls'"
    "inventory_lines invt' ''nfs'' = (pre @ [l']) @ ls'"
    "\<forall>other. other \<noteq> ''nfs'' \<longrightarrow> inventory_lines invt' other = inventory_lines invt1 other"
    "map fst invt' = map fst invt1"
    by blast
  then show ?case using l' by (intro exI [of _ "l' # ls'"]) simp
qed

lemma prepare_nfs_lines_all:
  assumes "justified_hosts c invt0 seen cluster (concat (map (section_ids invt0) prepared_sections)) hosts"
  shows "list_all2 (prepared_nfs_line c invt0 seen cluster) (inventory_lines invt ''nfs'')
      (inventory_lines (prepare_nfs hosts invt) ''nfs'')
    \<and> (\<forall>other. other \<noteq> ''nfs'' \<longrightarrow>
        inventory_lines (prepare_nfs hosts invt) other = inventory_lines invt other)
    \<and> map fst (prepare_nfs hosts invt) = map fst invt"
proof -
  have key: "inventory_lines invt ''nfs'' \<noteq> [] \<longrightarrow> ''nfs'' \<in> fst ` set invt"
    by (force simp: inventory_lines_def split: option.splits dest: map_of_SomeD)
  have "foldl (prepare_nfs_line hosts) invt
      (enumerate (length ([] :: string list)) (inventory_lines invt ''nfs'')) = prepare_nfs hosts invt"
    by (simp add: prepare_nfs_def)
  from prepare_nfs_lines [OF _ key assms this] show ?thesis by auto
qed

text \<open>Both compute sections, one after the other.\<close>

lemma prepare_sections_Inr:
  assumes "cfold (prepare_section c cluster w) (invt, []) prepared_sections s = (Inr (invt', hosts), s')"
  shows "\<exists>new. trace s' = trace s @ new
     \<and> (\<forall>sect \<in> set prepared_sections. list_all2 (prepared_line c invt new cluster)
          (inventory_lines invt sect) (inventory_lines invt' sect))
     \<and> (\<forall>other. other \<notin> set prepared_sections \<longrightarrow> inventory_lines invt' other = inventory_lines invt other)
     \<and> map fst invt' = map fst invt
     \<and> justified_hosts c invt new cluster (concat (map (section_ids invt) prepared_sections)) hosts"
proof -
  obtain invt1 hosts1 s0 where
    one: "prepare_section c cluster w (invt, []) ''compute_configured'' s = (Inr (invt1, hosts1), s0)"
    and two: "prepare_section c cluster w (invt1, hosts1) ''compute_to_add'' s0 = (Inr (invt', hosts), s')"
    using assms by (auto simp: prepared_sections_def cbind_Inr_iff)
  from prepare_section_Inr [OF one] obtain new1 where
    a: "trace s0 = trace s @ new1"
      "list_all2 (prepared_line c invt new1 cluster) (inventory_lines invt ''compute_configured'')
         (inventory_lines invt1 ''compute_configured'')"
      "\<forall>other. other \<noteq> ''compute_configured'' \<longrightarrow>
         inventory_lines invt1 other = inventory_lines invt other"
      "map fst invt1 = map fst invt"
    and hosts1: "\<And>seen ids. justified_hosts c invt seen cluster ids []
      \<Longrightarrow> justified_hosts c invt (seen @ new1) cluster (ids @ section_ids invt ''compute_configured'') hosts1"
    by auto
  have vars: "inventory_lines invt1 ''all:vars'' = inventory_lines invt ''all:vars''" using a(3) by simp
  have ids: "section_ids invt1 ''compute_to_add'' = section_ids invt ''compute_to_add''"
    using a(3) by (simp add: section_ids_def)
  from prepare_section_Inr [OF two] obtain new2 where
    b: "trace s' = trace s0 @ new2"
      "list_all2 (prepared_line c invt new2 cluster) (inventory_lines invt1 ''compute_to_add'')
         (inventory_lines invt' ''compute_to_add'')"
      "\<forall>other. other \<noteq> ''compute_to_add'' \<longrightarrow>
         inventory_lines invt' other = inventory_lines invt1 other"
      "map fst invt' = map fst invt1"
    and hosts2: "\<And>seen ids. justified_hosts c invt seen cluster ids hosts1
      \<Longrightarrow> justified_hosts c invt (seen @ new2) cluster (ids @ section_ids invt ''compute_to_add'') hosts"
    unfolding same_vars [OF vars] ids by auto
  have "justified_hosts c invt [] cluster [] []" by (simp add: justified_hosts_def)
  from hosts2 [OF hosts1 [OF this]]
  have "justified_hosts c invt (new1 @ new2) cluster (concat (map (section_ids invt) prepared_sections)) hosts"
    by (simp add: prepared_sections_def)
  moreover have "list_all2 (prepared_line c invt (new1 @ new2) cluster)
      (inventory_lines invt ''compute_configured'') (inventory_lines invt' ''compute_configured'')"
    "list_all2 (prepared_line c invt (new1 @ new2) cluster)
      (inventory_lines invt ''compute_to_add'') (inventory_lines invt' ''compute_to_add'')"
    using a(2,3) b(2,3) by (auto elim!: list_all2_mono intro: prepared_line_mono)
  ultimately show ?thesis
    using a(1,3,4) b(1,3,4)
    by (intro exI [of _ "new1 @ new2"]) (auto simp: prepared_sections_def)
qed

lemma host_settings_quiet [quiet_intros]:
  "keeps (quiet is_reading) (host_settings c invt cluster w host iid)"
  unfolding host_settings_def by (intro quiet_intros)

lemma prepare_line_quiet [quiet_intros]:
  "keeps (quiet is_reading) (prepare_line c cluster w sect acc indexed)"
  by (cases acc; cases indexed) (simp add: prepare_line_def, intro quiet_intros, auto intro!: quiet_intros)

lemma prepare_section_quiet:
  "keeps (quiet is_reading) (prepare_section c cluster w acc sect)"
  unfolding prepare_section_def by (intro quiet_intros keeps_cfold) auto

lemma write_inventory_atomic_cases:
  assumes "write_inventory_atomic c invt path s = (r, s')"
  shows "trace s' = trace s \<and> journal s' = journal s
    \<and> (case r of Inl _ \<Rightarrow> files s' = files s
       | Inr _ \<Rightarrow> files s' = dset path (write_inventory invt) (files s))"
  using assms
  by (auto simp: write_inventory_atomic_def put_file_def cbind_apply api_def
      split: if_splits prod.splits sum.splits)

text \<open>What preparing an inventory file does, when it returns.\<close>

definition prepared_file :: "'w cloud \<Rightarrow> string \<Rightarrow> inventory \<Rightarrow> 'w run \<Rightarrow> 'w run \<Rightarrow> bool" where
  "prepared_file c path invt s s' \<longleftrightarrow>
     (\<exists>cluster new invt'. get_inventory_variable invt ''cluster_name'' = Some cluster \<and> cluster \<noteq> []
        \<and> trace s' = trace s @ new \<and> prepared_inventory c new cluster invt invt'
        \<and> files s' = dset path (write_inventory invt') (files s))"

lemma prepare_outcome:
  assumes "prepare_local_block_volume_inventory c path w s = (r, s')"
    and "parse_inventory (read_file path s) = Some invt"
  shows "journal s' = journal s \<and>
    (case r of Inl _ \<Rightarrow> files s' = files s | Inr _ \<Rightarrow> prepared_file c path invt s s')"
proof -
  define cl where "cl = (case get_inventory_variable invt ''cluster_name'' of
      None \<Rightarrow> None | Some n \<Rightarrow> if n = [] then None else Some n)"
  show ?thesis
  proof (cases cl)
    case None
    then show ?thesis using assms
      by (auto simp: prepare_local_block_volume_inventory_def cl_def [symmetric] need_def cbind_apply)
  next
    case (Some cluster)
    then have cluster: "get_inventory_variable invt ''cluster_name'' = Some cluster" "cluster \<noteq> []"
      by (auto simp: cl_def split: option.splits if_splits)
    obtain q s1 where loop: "cfold (prepare_section c cluster w) (invt, []) prepared_sections s = (q, s1)"
      by fastforce
    have "keeps (quiet is_reading) (cfold (prepare_section c cluster w) (invt, []) prepared_sections)"
      by (rule keeps_cfold) (auto intro: prepare_section_quiet)
    from keepsD [OF this loop] have q: "quiet is_reading s s1" .
    have run: "prepare_local_block_volume_inventory c path w s =
        (case q of Inl e \<Rightarrow> (Inl e, s1)
         | Inr (invt', hosts) \<Rightarrow> write_inventory_atomic c (prepare_nfs hosts invt') path s1)"
      using assms(2) Some loop
      by (simp add: prepare_local_block_volume_inventory_def cl_def [symmetric] cbind_apply
          split: sum.split prod.split)
    show ?thesis
    proof (cases q)
      case (Inl e)
      then show ?thesis using run assms(1) q by (auto simp: quiet_def)
    next
      case (Inr p)
      obtain invt2 hosts2 where p: "p = (invt2, hosts2)" by (cases p)
      from prepare_sections_Inr [OF loop [unfolded Inr p]] obtain new where
        a: "trace s1 = trace s @ new"
          "\<forall>sect \<in> set prepared_sections. list_all2 (prepared_line c invt new cluster)
             (inventory_lines invt sect) (inventory_lines invt2 sect)"
          "\<forall>other. other \<notin> set prepared_sections \<longrightarrow>
             inventory_lines invt2 other = inventory_lines invt other"
          "map fst invt2 = map fst invt"
          "justified_hosts c invt new cluster (concat (map (section_ids invt) prepared_sections)) hosts2"
        by auto
      have "''nfs'' \<notin> set prepared_sections" by (simp add: prepared_sections_def)
      then have "prepared_inventory c new cluster invt (prepare_nfs hosts2 invt2)"
        unfolding prepared_inventory_def
        using a(2-4) prepare_nfs_lines_all [OF a(5), of invt2] by (metis (full_types))
      moreover have "write_inventory_atomic c (prepare_nfs hosts2 invt2) path s1 = (r, s')"
        using run assms(1) Inr p by simp
      note write_inventory_atomic_cases [OF this]
      moreover have "journal s1 = journal s" "files s1 = files s" using q by (auto simp: quiet_def)
      ultimately show ?thesis
        using cluster a(1) unfolding prepared_file_def by (cases r) auto
    qed
  qed
qed

text \<open>
  C26: preparing an inventory is all or nothing, and right. When it raises, the file is what it
  was. When it returns, the file has been replaced by an inventory with the same sections; every
  line of the compute sections is either no line of an instance, unchanged, or the old line with
  settings that are justified for its host and OCI instance: the volume is off exactly if the
  instance, which bears the host's name, is configured to have none; otherwise the settings
  carry its configuration and the iSCSI coordinates of the attachment that this run saw as the
  instance's own, with its volume (\<open>usable_attachment\<close>, \<open>own_volume\<close>). A line of \<open>nfs\<close> is rewritten
  in the same way if its host is one of the compute sections', and is unchanged otherwise; no
  other section changes. The journal is never touched.
\<close>

theorem preparation_is_justified:
  assumes "prepare_local_block_volume_inventory c path w s = (r, s')"
    and "parse_inventory (read_file path s) = Some invt"
  shows "journal s' = journal s \<and>
    (case r of Inl _ \<Rightarrow> files s' = files s | Inr _ \<Rightarrow> prepared_file c path invt s s')"
  using assms by (rule prepare_outcome)

definition prepare_text :: string where
  "prepare_text = concat (map (\<lambda>l. l @ [newline])
     [''[all:vars]'', ''cluster_name=hpc'', ''[compute_configured]'',
      ''hpc-node-4 ansible_host=10.0.0.4 oci_instance_id=ocid1.instance.a # first'',
      ''[compute_to_add]'', ''[nfs]'', ''hpc-node-4 ansible_host=10.0.0.4''])"

definition prepare_start :: "nat run" where
  "prepare_start = sample_run_start\<lparr>files := [(''/etc/ansible/hosts'', prepare_text)]\<rparr>"

definition prepare_cloud :: "nat cloud" where
  "prepare_cloud = sample_cloud\<lparr>open_for_writing := \<lambda>_. creturn ()\<rparr>"

definition sample_preparation :: "(resize_error + unit) \<times> nat run" where
  "sample_preparation =
     prepare_local_block_volume_inventory prepare_cloud ''/etc/ansible/hosts'' 300 prepare_start"

lemma sample_preparation_returns: "fst sample_preparation = Inr ()"
  by code_simp

lemma preparation_is_justified_witness:
  "prepared_file prepare_cloud ''/etc/ansible/hosts'' (the (parse_inventory (Some prepare_text)))
     prepare_start (snd sample_preparation)"
proof -
  have "prepare_local_block_volume_inventory prepare_cloud ''/etc/ansible/hosts'' 300 prepare_start
      = (Inr (), snd sample_preparation)"
    using sample_preparation_returns unfolding sample_preparation_def by (metis prod.collapse)
  moreover have "parse_inventory (read_file ''/etc/ansible/hosts'' prepare_start)
      = Some (the (parse_inventory (Some prepare_text)))"
    by code_simp
  ultimately show ?thesis using preparation_is_justified by fastforce
qed

section \<open>The line of a node\<close>

definition host_value :: "string \<Rightarrow> bool" where
  "host_value v \<longleftrightarrow> list_all (\<lambda>c. \<not> py_space c) v"

text \<open>
  The line written for a node names that node. Whatever the (blank-free) name, address,
  user and OCID are, splitting the line gives its five words without a comment, and its
  identity reads back as the node's name and OCID.
\<close>

lemma node_line_names_node:
  assumes "host_word (node_name n)" and "\<not> starts_with (node_name n) instance_id_key"
    and "host_value (node_ip n)" "host_value username" "host_value (node_ocid n)"
    and "node_ocid n \<noteq> []"
  shows "split_inventory_host_line (compute_inventory_line n username)
      = Some ([], [node_name n, ''ansible_host='' @ node_ip n, ''ansible_user='' @ username,
                   ''role=compute'', instance_id_key @ node_ocid n], [])
    \<and> get_inventory_instance_id (compute_inventory_line n username)
      = Inr (Some (node_name n, node_ocid n))"
proof -
  let ?parts = "([] :: string, [node_name n, ''ansible_host='' @ node_ip n,
      ''ansible_user='' @ username, ''role=compute'', instance_id_key @ node_ocid n], [] :: string)"
  have line: "compute_inventory_line n username = host_line ?parts"
    by (simp add: compute_inventory_line_def host_line_def instance_id_key_def)
  have "host_parts ?parts"
    using assms
    by (simp add: host_parts_def host_word_def host_value_def instance_id_key_def py_space_def)
  then have split: "split_inventory_host_line (compute_inventory_line n username) = Some ?parts"
    unfolding line by (rule split_host_line)
  have "\<not> starts_with (''ansible_host='' @ w) instance_id_key"
    "\<not> starts_with (''ansible_user='' @ w) instance_id_key" for w
    by (simp_all add: instance_id_key_def)
  moreover have "\<not> starts_with ''role=compute'' instance_id_key"
    by (simp add: instance_id_key_def)
  ultimately have "get_inventory_instance_id (compute_inventory_line n username)
      = Inr (Some (node_name n, node_ocid n))"
    using assms(2,6) by (simp add: get_inventory_instance_id_def split)
  with split show ?thesis ..
qed

definition sample_node :: node where
  "sample_node = \<lparr>node_name = ''hpc-node-4'', node_ip = ''10.0.0.4'', node_ocid = ''ocid1.instance.a''\<rparr>"

lemma node_line_names_node_witness:
  "get_inventory_instance_id (compute_inventory_line sample_node ''opc'')
     = Inr (Some (node_name sample_node, node_ocid sample_node))"
  by (rule node_line_names_node [THEN conjunct2]) (code_simp+)

text \<open>\<open>getNFSnode\<close>: \<open>None\<close> is the \<open>KeyError\<close> or \<open>IndexError\<close> it raises on a bad inventory.\<close>

definition getNFSnode :: "string option \<Rightarrow> string option" where
  "getNFSnode contents =
     (case parse_inventory contents of
        None \<Rightarrow> Some []
      | Some invt \<Rightarrow>
          (case map_of invt ''nfs'' of
             None \<Rightarrow> None
           | Some [] \<Rightarrow> Some []
           | Some (l # _) \<Rightarrow>
               if l = [newline] then Some []
               else (case words_by py_space l of [] \<Rightarrow> None | w # _ \<Rightarrow> Some w)))"

text \<open>The lines \<open>remove_ip\<close> and \<open>add_ip\<close> leave; \<open>None\<close> is the \<open>ValueError\<close> of \<open>list.remove\<close>.\<close>

definition remove_ip :: "string \<Rightarrow> string list \<Rightarrow> string" where
  "remove_ip contents iplist =
     concat (filter (\<lambda>l. py_strip l \<notin> set iplist) (file_lines contents))"

fun add_ip_loop :: "string list \<Rightarrow> string list \<Rightarrow> string list \<Rightarrow> string list option" where
  "add_ip_loop iplist ip_to_add [] = Some ip_to_add"
| "add_ip_loop iplist ip_to_add (l # ls) =
     (if py_strip l \<in> set iplist
      then if py_strip l \<in> set ip_to_add then add_ip_loop iplist (remove1 (py_strip l) ip_to_add) ls
           else None
      else add_ip_loop iplist ip_to_add ls)"

definition add_ip :: "string \<Rightarrow> string list \<Rightarrow> string option" where
  "add_ip contents iplist =
     map_option (\<lambda>new. concat (file_lines contents) @ concat (map (\<lambda>ip. ip @ [newline]) new))
       (add_ip_loop iplist iplist (file_lines contents))"

end
