(* ===== verification/Cluster_View.thy ===== *)
theory Cluster_View
  imports Resume Inventory
begin

text \<open>
  What \<open>bin/resize.py\<close> sees of a cluster: which cluster has the name, its nodes and their
  addresses, which of them answer, waiting for it to run; and taking back what a failed resize
  has added. The hosts' SSH ports, the services and the clock are the \<open>'w cloud\<close>.
\<close>

text \<open>The three kinds of cluster: cluster network, compute cluster, instance pool.\<close>

datatype cluster_kind = CN | CC | IP

text \<open>\<open>try: m; except: ...\<close> where the handler goes on; \<open>exit\<close> and running out of rounds pass through.\<close>

definition attempt :: "('w, 'a) resize \<Rightarrow> ('w, resize_error + 'a) resize" where
  "attempt m = ctry (cbind m (\<lambda>x. creturn (Inr x)))
     (\<lambda>e. case e of Exited _ \<Rightarrow> craise e | Diverged \<Rightarrow> craise e | _ \<Rightarrow> creturn (Inl e))"

section \<open>Finding the cluster\<close>

text \<open>
  The running cluster of the name: the last cluster network in state RUNNING; else the last
  active compute cluster of exactly that name; else the last running instance pool. An error of
  the compute cluster listing counts as no compute clusters. The second component is the
  instance pool, with its size.
\<close>

definition last_in :: "(cluster_summary \<Rightarrow> bool) \<Rightarrow> cluster_summary list \<Rightarrow> cluster_summary option" where
  "last_in ok summaries = foldl (\<lambda>found cs. if ok cs then Some cs else found) None summaries"

definition first_pool :: "cluster_summary \<Rightarrow> resize_error + string \<times> int" where
  "first_pool cs = need (OtherFailure ''IndexError'') (case cs_pools cs of [] \<Rightarrow> None | p # _ \<Rightarrow> Some p)"

definition get_summary ::
  "'w cloud \<Rightarrow> string \<Rightarrow> string
     \<Rightarrow> ('w, (cluster_summary \<times> (string \<times> int) option \<times> cluster_kind) option) resize" where
  "get_summary c compartment cluster =
     cbind (api (list_cluster_networks c compartment cluster)) (\<lambda>networks.
     case last_in (\<lambda>cs. cs_state cs = ''RUNNING'') networks of
       Some cs \<Rightarrow> cbind (clift (first_pool cs)) (\<lambda>p. creturn (Some (cs, Some p, CN)))
     | None \<Rightarrow>
         cbind (attempt (api (list_compute_clusters c compartment cluster))) (\<lambda>r.
         let clusters = (case r of Inl _ \<Rightarrow> [] | Inr cs \<Rightarrow> cs)
         in case last_in (\<lambda>cs. cs_state cs = ''ACTIVE'' \<and> cs_name cs = Some cluster) clusters of
           Some cs \<Rightarrow> creturn (Some (cs, None, CC))
         | None \<Rightarrow>
             cbind (api (list_instance_pools c compartment cluster)) (\<lambda>pools.
             case last_in (\<lambda>cs. cs_state cs = ''RUNNING'') pools of
               Some cs \<Rightarrow> creturn (Some (cs, Some (cs_id cs, cs_size cs), IP))
             | None \<Rightarrow> creturn None)))"

section \<open>The nodes\<close>

text \<open>The last attachment without a name becomes \<open>vnic_attachment\<close>; none leaves the variable alone.\<close>

definition primary_vnic :: "string option \<Rightarrow> vnic_attachment list \<Rightarrow> string option" where
  "primary_vnic variable attachments =
     foldl (\<lambda>v a. if vnic_name a = None then Some (vnic_id a) else v) variable attachments"

text \<open>
  The body of the \<open>try\<close>: the variable \<open>vnic_attachment\<close> afterwards, and the address; \<open>None\<close>
  when something raised, a variable that was never set included.
\<close>

definition read_address ::
  "'w cloud \<Rightarrow> string \<Rightarrow> bool \<Rightarrow> string \<Rightarrow> string option
     \<Rightarrow> ('w, string option \<times> string option) resize" where
  "read_address c compartment look_up iid variable =
     cbind (if look_up then attempt (cbind (api (get_instance c iid)) (\<lambda>_. creturn ()))
            else creturn (Inr ())) (\<lambda>known.
     case known of
       Inl _ \<Rightarrow> creturn (variable, None)
     | Inr _ \<Rightarrow>
         cbind (attempt (api (list_vnic_attachments c compartment iid))) (\<lambda>listed.
         case listed of
           Inl _ \<Rightarrow> creturn (variable, None)
         | Inr attachments \<Rightarrow>
             (case primary_vnic variable attachments of
                None \<Rightarrow> creturn (None, None)
              | Some vnic \<Rightarrow>
                  cbind (attempt (api (get_vnic_ip c vnic))) (\<lambda>r.
                  creturn (Some vnic, case r of Inl _ \<Rightarrow> None | Inr ip \<Rightarrow> Some ip)))))"

definition add_node ::
  "'w cloud \<Rightarrow> string \<Rightarrow> bool \<Rightarrow> string option \<times> node list \<Rightarrow> string \<times> string
     \<Rightarrow> ('w, string option \<times> node list) resize" where
  "add_node c compartment look_up acc found =
     (case (acc, found) of ((variable, nodes), (iid, name)) \<Rightarrow>
        cbind (read_address c compartment look_up iid variable) (\<lambda>(variable', ip).
        creturn (variable', case ip of None \<Rightarrow> nodes
          | Some a \<Rightarrow> nodes @ [\<lparr>node_name = name, node_ip = a, node_ocid = iid\<rparr>])))"

definition list_members ::
  "'w cloud \<Rightarrow> string \<Rightarrow> string \<Rightarrow> cluster_kind \<Rightarrow> ('w, (string \<times> string) list) resize" where
  "list_members c compartment cid kind =
     (case kind of
        CC \<Rightarrow> cbind (api (list_compute_cluster_instances c compartment cid)) (\<lambda>found.
          creturn (map (\<lambda>(iid, i). (iid, instance_name i))
            (filter (\<lambda>(_, i). instance_state i \<noteq> ''TERMINATED'') found)))
      | CN \<Rightarrow> api (list_network_instances c compartment cid)
      | IP \<Rightarrow> api (list_pool_instances c compartment cid))"

definition get_instances :: "'w cloud \<Rightarrow> string \<Rightarrow> string \<Rightarrow> cluster_kind \<Rightarrow> ('w, node list) resize" where
  "get_instances c compartment cid kind =
     cbind (list_members c compartment cid kind) (\<lambda>found.
     cbind (cfold (add_node c compartment (kind \<noteq> CC)) (None, []) found) (\<lambda>(_, nodes).
     creturn nodes))"

text \<open>The names and addresses of the active instances; sets in the code, distinct lists here.\<close>

definition get_active_instance_identities ::
  "'w cloud \<Rightarrow> string \<Rightarrow> string \<Rightarrow> cluster_kind \<Rightarrow> int \<Rightarrow> ('w, string list \<times> string list) resize" where
  "get_active_instance_identities c compartment cid kind expected_size =
     cbind (get_instances c compartment cid kind) (\<lambda>nodes.
     cbind (clift (check (RuntimeError
         ''The active instance list does not match the current instance pool size'')
       (int (length nodes) = expected_size))) (\<lambda>_.
     cbind (clift (check (ValueFailure ''not an IP address'')
       (list_all (\<lambda>n. parse_ip (node_ip n) \<noteq> None) nodes))) (\<lambda>_.
     cbind (clift (check (RuntimeError
         ''The active instance list contains duplicate hostnames or private IPs'')
       (distinct (map node_name nodes) \<and> distinct (map node_ip nodes)))) (\<lambda>_.
     creturn (map node_name nodes, map node_ip nodes)))))"

section \<open>Waiting for the cluster to run\<close>

text \<open>One iteration; \<open>True\<close> is the \<open>break\<close>.\<close>

definition running_round ::
  "'w cloud \<Rightarrow> string \<Rightarrow> string \<Rightarrow> cluster_kind \<Rightarrow> int option \<Rightarrow> ('w, bool) resize" where
  "running_round c compartment cid kind expected_size =
     (if kind = CC then creturn True
      else cbind (if kind = CN then api (cluster_network_state c cid)
                  else api (instance_pool_state c cid)) (\<lambda>state.
           cbind (list_members c compartment cid kind) (\<lambda>found.
           if state \<noteq> ''RUNNING'' then cbind (sleep c 30) (\<lambda>_. creturn False)
           else case expected_size of
               None \<Rightarrow> creturn True
             | Some n \<Rightarrow>
                 if n = int (length found) then creturn True
                 else cbind (sleep c 30) (\<lambda>_. creturn False))))"

fun running_loop ::
  "'w cloud \<Rightarrow> nat \<Rightarrow> rat \<Rightarrow> resize_error \<Rightarrow> ('w, bool) resize \<Rightarrow> ('w, bool) resize" where
  "running_loop c 0 deadline timeout body = craise Diverged"
| "running_loop c (Suc rounds) deadline timeout body =
     cbind body (\<lambda>stop.
     if stop then creturn True
     else cbind (clock c) (\<lambda>t.
          if deadline \<le> t then craise timeout
          else running_loop c rounds deadline timeout body))"

definition wait_for_running_status ::
  "'w cloud \<Rightarrow> string \<Rightarrow> string \<Rightarrow> string \<Rightarrow> cluster_kind \<Rightarrow> int option \<Rightarrow> rat \<Rightarrow> ('w, bool) resize" where
  "wait_for_running_status c cluster compartment cid kind expected_size max_wait =
     cbind (clock c) (\<lambda>start.
     running_loop c (rounds_for max_wait 30) (start + max_wait)
       (RuntimeError (''Timed out waiting for cluster '' @ cluster
         @ '' to reach the expected running state''))
       (running_round c compartment cid kind expected_size))"

section \<open>Hosts that answer\<close>

text \<open>
  The delays \<open>[0]\<close> and \<open>range(0, delay, delay)\<close> both give one round. The script's output
  file lists the addresses that answered.
\<close>

definition getreachable ::
  "'w cloud \<Rightarrow> node list \<Rightarrow> string \<Rightarrow> ('w, node list \<times> node list) resize" where
  "getreachable c nodes username =
     cbind (api (find_reachable_hosts c (map node_ip nodes) username)) (\<lambda>output.
     let reachable_ips = map py_strip output;
         reachable = concat (map (\<lambda>ip. filter (\<lambda>n. node_ip n = ip) nodes) reachable_ips)
     in creturn (reachable, filter (\<lambda>n. n \<notin> set reachable) nodes))"

section \<open>Taking back what a failed resize added\<close>

definition rollback_compute_cluster_instances ::
  "'w cloud \<Rightarrow> session \<Rightarrow> string list \<Rightarrow> ('w, string list) resize" where
  "rollback_compute_cluster_instances c ses names =
     cfold (\<lambda>failed name.
       cbind (attempt (cbind (find_cluster_instance_by_name c (s_compartment ses) name (s_cluster ses)) (\<lambda>found.
                case found of None \<Rightarrow> creturn ()
                | Some (iid, _) \<Rightarrow> terminate_and_delete c ses iid 1800 None))) (\<lambda>r.
       creturn (case r of Inl _ \<Rightarrow> failed @ [name] | Inr _ \<Rightarrow> failed))) [] names"

definition rollback_instance_pool_size :: "'w cloud \<Rightarrow> string \<Rightarrow> int \<Rightarrow> ('w, unit) resize" where
  "rollback_instance_pool_size c pool size_before =
     cbind (attempt (request (Asked_resize pool size_before) (update_pool_size c pool size_before)))
       (\<lambda>_. creturn ())"

section \<open>Cleaning up before a destroy\<close>

text \<open>
  The compute cluster and its instances that Terraform tracks, from the parsed state file
  (\<open>Absent\<close>: no such file). Members that are no objects raise.
\<close>

definition member_list :: "char jdict \<Rightarrow> string \<Rightarrow> resize_error + char json list" where
  "member_list d k =
     (case jget_or d k (JArr []) of JArr xs \<Rightarrow> Inr xs | _ \<Rightarrow> Inl (OtherFailure ''TypeError''))"

definition object_of :: "char json \<Rightarrow> resize_error + char jdict" where
  "object_of v = need (OtherFailure ''AttributeError'') (as_obj v)"

definition hashable :: "char json \<Rightarrow> resize_error + unit" where
  "hashable v = check (OtherFailure ''TypeError'') (as_arr v = None \<and> as_obj v = None)"

definition track_instance ::
  "char jdict \<Rightarrow> char json list \<times> char json list \<Rightarrow> char json
     \<Rightarrow> resize_error + char json list \<times> char json list" where
  "track_instance resource acc instance_value =
     rbind (object_of instance_value) (\<lambda>i.
     rbind (object_of (jget_or i ''attributes'' (JObj []))) (\<lambda>attributes.
     let rid = jget attributes ''id'';
         is_type = (\<lambda>t n. jget resource ''type'' = JStr t \<and> jget resource ''name'' = JStr n)
     in if \<not> truthy rid then Inr acc
        else if is_type ''oci_core_compute_cluster'' ''compute_cluster''
        then rbind (hashable rid) (\<lambda>_. Inr (List.insert rid (fst acc), snd acc))
        else if is_type ''oci_core_instance'' ''compute_cluster_instances''
        then rbind (hashable rid) (\<lambda>_. Inr (fst acc, List.insert rid (snd acc)))
        else Inr acc))"

definition track_resource ::
  "char json list \<times> char json list \<Rightarrow> char json \<Rightarrow> resize_error + char json list \<times> char json list" where
  "track_resource acc resource_value =
     rbind (object_of resource_value) (\<lambda>resource.
     if jget resource ''mode'' \<noteq> JStr ''managed'' then Inr acc
     else rbind (member_list resource ''instances'') (\<lambda>instances.
          fold_err (track_instance resource) acc instances))"

definition get_tracked_compute_cluster_resources ::
  "char doc \<Rightarrow> resize_error + (char json option \<times> char json list) option" where
  "get_tracked_compute_cluster_resources state_file =
     (case state_file of
        Absent \<Rightarrow> Inr None
      | Unreadable \<Rightarrow> Inl (OtherFailure ''the Terraform state cannot be read'')
      | Doc v \<Rightarrow>
          rbind (object_of v) (\<lambda>state.
          rbind (member_list state ''resources'') (\<lambda>resources.
          rbind (fold_err track_resource ([], []) resources) (\<lambda>(clusters, instances).
          rbind (check (RuntimeError ''Terraform state contains multiple managed Compute Clusters'')
            (length clusters \<le> 1)) (\<lambda>_.
          Inr (Some (case clusters of [] \<Rightarrow> None | cid # _ \<Rightarrow> Some cid, instances)))))))"

definition candidates ::
  "char json list \<Rightarrow> (string \<times> cloud_instance) list \<Rightarrow> (string \<times> cloud_instance) list" where
  "candidates excluded found =
     filter (\<lambda>(iid, i). JStr iid \<notin> set excluded \<and> instance_state i \<noteq> ''TERMINATED'') found"

definition terminate_each :: "'w cloud \<Rightarrow> session \<Rightarrow> (string \<times> cloud_instance) list \<Rightarrow> ('w, unit) resize" where
  "terminate_each c ses found =
     cfold (\<lambda>_ (iid, _).
       cbind (attempt (terminate_and_delete c ses iid 1800 None)) (\<lambda>_. creturn ())) () found"

text \<open>The message of the exception also lists the errors, or the instances, which is left out.\<close>

definition terminate_compute_cluster_instances ::
  "'w cloud \<Rightarrow> session \<Rightarrow> string \<Rightarrow> char json list \<Rightarrow> ('w, unit) resize" where
  "terminate_compute_cluster_instances c ses cid excluded =
     cbind (api (list_compute_cluster_instances c (s_compartment ses) cid)) (\<lambda>found.
     cbind (terminate_each c ses (candidates excluded found)) (\<lambda>_.
     cbind (api (list_compute_cluster_instances c (s_compartment ses) cid)) (\<lambda>remaining.
     clift (check (RuntimeError ''Failed to terminate all state-external Compute Cluster instances'')
       (candidates excluded remaining = [])))))"

lemmas view_equations [code] =
  attempt_def [THEN fun_cong] get_summary_def [THEN fun_cong] read_address_def [THEN fun_cong]
  add_node_def [THEN fun_cong] list_members_def [THEN fun_cong] get_instances_def [THEN fun_cong]
  get_active_instance_identities_def [THEN fun_cong] running_round_def [THEN fun_cong]
  running_loop.simps [THEN fun_cong] wait_for_running_status_def [THEN fun_cong]
  getreachable_def [THEN fun_cong] rollback_compute_cluster_instances_def [THEN fun_cong]
  rollback_instance_pool_size_def [THEN fun_cong]
  terminate_each_def [THEN fun_cong] terminate_compute_cluster_instances_def [THEN fun_cong]

section \<open>Commands that only look\<close>

lemma attempt_quiet [quiet_intros]: "keeps (quiet P) m \<Longrightarrow> keeps (quiet P) (attempt m)"
  unfolding attempt_def
proof (rule keeps_quiet_ctry)
  assume m: "keeps (quiet P) m"
  show "keeps (quiet P) (cbind m (\<lambda>x. creturn (Inr x)))" by (intro quiet_intros m)
  show "keeps (quiet P) (case e of Exited _ \<Rightarrow> craise e | Diverged \<Rightarrow> craise e | _ \<Rightarrow> creturn (Inl e))" for e
    by (cases e) auto
qed

lemma keeps_quiet_cfold [quiet_intros]:
  "(\<And>acc x. x \<in> set xs \<Longrightarrow> keeps (quiet P) (f acc x)) \<Longrightarrow> keeps (quiet P) (cfold f acc xs)"
  by (rule keeps_cfold) auto

lemma keeps_split [quiet_intros]: "(\<And>a b. p = (a, b) \<Longrightarrow> keeps R (f a b)) \<Longrightarrow> keeps R (case p of (a, b) \<Rightarrow> f a b)"
  by (cases p) auto

lemma list_members_quiet [quiet_intros]: "keeps (quiet P) (list_members c compartment cid kind)"
  unfolding list_members_def by (cases kind) (auto intro!: quiet_intros)

lemma read_address_quiet [quiet_intros]: "keeps (quiet P) (read_address c compartment b iid v)"
  unfolding read_address_def by (intro quiet_intros)

lemma get_instances_quiet [quiet_intros]: "keeps (quiet P) (get_instances c compartment cid kind)"
  unfolding get_instances_def add_node_def by (intro quiet_intros)

lemma get_identities_quiet [quiet_intros]:
  "keeps (quiet P) (get_active_instance_identities c compartment cid kind n)"
  unfolding get_active_instance_identities_def by (intro quiet_intros)

lemma get_summary_quiet [quiet_intros]: "keeps (quiet P) (get_summary c compartment cluster)"
  unfolding get_summary_def Let_def by (intro quiet_intros)

lemma running_round_quiet [quiet_intros]: "keeps (quiet P) (running_round c compartment cid kind n)"
  unfolding running_round_def by (intro quiet_intros)

lemma running_loop_quiet [quiet_intros]:
  "keeps (quiet P) body \<Longrightarrow> keeps (quiet P) (running_loop c n d e body)"
proof (induction n)
  case 0
  show ?case by (simp only: running_loop.simps) (intro quiet_intros)
next
  case (Suc n)
  show ?case by (simp only: running_loop.simps) (intro quiet_intros Suc)
qed

lemma wait_for_running_quiet [quiet_intros]:
  "keeps (quiet P) (wait_for_running_status c cluster compartment cid kind n w)"
  unfolding wait_for_running_status_def by (intro quiet_intros)

lemma getreachable_quiet [quiet_intros]: "keeps (quiet P) (getreachable c nodes username)"
  unfolding getreachable_def Let_def by (intro quiet_intros)

section \<open>Waiting ends\<close>

text \<open>A call after which the clock shows no earlier time.\<close>

definition timely :: "'w cloud \<Rightarrow> ('w, api_error, 'a) cmd \<Rightarrow> bool" where
  "timely c call \<longleftrightarrow> (\<forall>w. now c w \<le> now c (snd (call w)))"

lemma on_time_rel [intro]: "reflp (on_time c)" "transp (on_time c)"
  by (auto simp: on_time_def intro!: reflpI transpI)

lemma api_on_time: "timely c call \<Longrightarrow> keeps (on_time c) (api call)"
  by (rule keepsI) (auto simp: timely_def on_time_def dest: api_world)

text \<open>Commands that never run out of rounds.\<close>

definition ends :: "('w, 'a) resize \<Rightarrow> bool" where
  "ends m \<longleftrightarrow> (\<forall>s. fst (m s) \<noteq> Inl Diverged)"

lemma ends_at: "ends m \<Longrightarrow> m s = (Inl e, s') \<Longrightarrow> e \<noteq> Diverged"
  unfolding ends_def by (metis fst_conv)

named_theorems ends_intros \<open>commands that never run out of rounds\<close>

lemma ends_pure [ends_intros]: "ends (creturn x)" "ends (api call)" "ends (sleep c t)"
  by (auto simp: ends_def sleep_def)

lemma ends_cbind [ends_intros]:
  assumes "ends m" and "\<And>x. ends (f x)"
  shows "ends (cbind m f)"
  unfolding ends_def cbind_apply
  using ends_at [OF assms(1)] assms(2) by (auto simp: ends_def split: prod.split sum.split)

lemma ends_branch [ends_intros]:
  "ends m \<Longrightarrow> ends n \<Longrightarrow> ends (if b then m else n)"
  "ends m1 \<Longrightarrow> (\<And>x. ends (m2 x)) \<Longrightarrow> ends (case opt of None \<Rightarrow> m1 | Some x \<Rightarrow> m2 x)"
  by (auto split: option.splits)

text \<open>Every round that does not end the loop sleeps 30 seconds.\<close>

lemma running_loop_ends:
  assumes "\<And>s s'. body s = (Inr False, s') \<Longrightarrow> now c (world_of s) + 30 \<le> now c (world_of s')"
    and "ends body" and "timeout \<noteq> Diverged"
    and "deadline \<le> now c (world_of s) + of_nat rounds * 30" and "0 < rounds"
  shows "fst (running_loop c rounds deadline timeout body s) \<noteq> Inl Diverged"
  using assms(4,5)
proof (induction rounds arbitrary: s)
  case 0
  then show ?case by simp
next
  case (Suc rounds)
  obtain r s1 where body: "body s = (r, s1)" by fastforce
  show ?case
  proof (cases r)
    case (Inl e)
    then show ?thesis using body ends_at [OF assms(2)] by (auto simp: cbind_run)
  next
    case (Inr stop)
    have ran: "cbind body f s = f stop s1" for f :: "bool \<Rightarrow> ('a, bool) resize"
      using body Inr by (simp add: cbind_run)
    show ?thesis
    proof (cases stop)
      case False
      have slept: "now c (world_of s) + 30 \<le> now c (world_of s1)"
        using assms(1) body Inr False by simp
      show ?thesis
      proof (cases "deadline \<le> now c (world_of s1)")
        case True
        then show ?thesis using False assms(3) by (simp add: ran)
      next
        case early: False
        have "deadline \<le> now c (world_of s1) + of_nat rounds * 30"
          using Suc.prems(1) slept by (simp add: algebra_simps)
        moreover have "0 < rounds" using Suc.prems(1) slept early by (cases rounds) auto
        ultimately have "fst (running_loop c rounds deadline timeout body s1) \<noteq> Inl Diverged"
          by (rule Suc.IH)
        then show ?thesis using False early by (simp add: ran)
      qed
    qed (simp add: ran)
  qed
qed

text \<open>What the program waits on: the calls of one round.\<close>

definition timely_cluster :: "'w cloud \<Rightarrow> string \<Rightarrow> string \<Rightarrow> bool" where
  "timely_cluster c compartment cid \<longleftrightarrow> sleeps c
     \<and> timely c (cluster_network_state c cid) \<and> timely c (instance_pool_state c cid)
     \<and> timely c (list_network_instances c compartment cid) \<and> timely c (list_pool_instances c compartment cid)"

lemma list_members_on_time:
  "timely_cluster c compartment cid \<Longrightarrow> kind \<noteq> CC \<Longrightarrow> keeps (on_time c) (list_members c compartment cid kind)"
  by (cases kind) (auto simp: list_members_def timely_cluster_def intro: api_on_time)

lemma list_members_ends [ends_intros]: "ends (list_members c compartment cid kind)"
  unfolding list_members_def by (cases kind) (simp, intro ends_intros)+

lemma running_round_ends: "ends (running_round c compartment cid kind n)"
  unfolding running_round_def by (intro ends_intros)

lemma running_round_sleeps:
  assumes "timely_cluster c compartment cid"
    and "running_round c compartment cid kind n s = (Inr False, s')"
  shows "now c (world_of s) + 30 \<le> now c (world_of s')"
proof -
  have kind: "kind \<noteq> CC" using assms(2) by (auto simp: running_round_def)
  let ?state = "if kind = CN then api (cluster_network_state c cid) else api (instance_pool_state c cid)"
  from assms(2) kind obtain state s1 found s2 where
    s1: "?state s = (Inr state, s1)" and s2: "list_members c compartment cid kind s1 = (Inr found, s2)"
    and s': "s' = s2\<lparr>world_of := wait_for c 30 (world_of s2)\<rparr>"
    by (auto simp: running_round_def cbind_Inr_iff sleep_def split: if_splits option.splits)
  have "keeps (on_time c) ?state"
    using assms(1) by (auto simp: timely_cluster_def intro: api_on_time)
  from keepsD [OF this s1] keepsD [OF list_members_on_time [OF assms(1) kind] s2]
  have "now c (world_of s) \<le> now c (world_of s2)" by (simp add: on_time_def)
  moreover have "now c (world_of s2) + 30 \<le> now c (world_of s')"
    using assms(1) by (simp add: s' timely_cluster_def sleeps_def)
  ultimately show ?thesis by simp
qed

text \<open>
  C15: waiting for a cluster ends, whatever the services answer: with a clock that does not go
  back and advances by the time slept, the loop returns or raises before its rounds are used up.
\<close>

theorem waiting_ends:
  assumes "timely_cluster c compartment cid" and "0 \<le> max_wait"
  shows "fst (wait_for_running_status c cluster compartment cid kind expected_size max_wait s) \<noteq> Inl Diverged"
proof -
  have "max_wait \<le> of_nat (rounds_for max_wait 30) * 30" and pos: "0 < rounds_for max_wait 30"
    using rounds_for_enough [of 30 max_wait] assms(2) by (simp_all add: algebra_simps)
  then have "now c (world_of s) + max_wait \<le> now c (world_of s) + of_nat (rounds_for max_wait 30) * 30"
    by simp
  from running_loop_ends [where body = "running_round c compartment cid kind expected_size",
      OF running_round_sleeps [OF assms(1)] running_round_ends _ this pos]
  show ?thesis by (simp add: wait_for_running_status_def)
qed

definition scaling_cloud :: "nat cloud" where
  "scaling_cloud = refusing_cloud\<lparr>cluster_network_state := (\<lambda>_ w. (Inr ''SCALING'', w)),
     list_network_instances := (\<lambda>_ _ w. (Inr [], w))\<rparr>"

definition idle_run :: "nat run" where
  "idle_run = \<lparr>world_of = 0, journal = Absent, tf_state = None, tf_variables = None, files = [], trace = []\<rparr>"

lemma scaling_cloud_timely: "timely_cluster scaling_cloud compartment cid"
  by (auto simp: timely_cluster_def timely_def sleeps_def scaling_cloud_def refusing_cloud_def
      craise_def intro: order_trans [OF le_of_int_ceiling])

lemma waiting_ends_witness:
  "fst (wait_for_running_status scaling_cloud ''hpc'' ''c'' ''n'' CN (Some 3) 3600 idle_run) \<noteq> Inl Diverged"
  by (rule waiting_ends [OF scaling_cloud_timely]) simp

section \<open>Addresses\<close>

text \<open>
  Services that answer each question the same way every time: the VNIC attachments of an
  instance, the address of a VNIC, and which instances can be read.
\<close>

definition snapshot ::
  "'w cloud \<Rightarrow> string \<Rightarrow> (string \<Rightarrow> api_error + vnic_attachment list) \<Rightarrow> (string \<Rightarrow> api_error + string)
     \<Rightarrow> (string \<Rightarrow> api_error + cloud_instance) \<Rightarrow> bool" where
  "snapshot c compartment attached address known \<longleftrightarrow>
     (\<forall>iid w. list_vnic_attachments c compartment iid w = (attached iid, w))
     \<and> (\<forall>v w. get_vnic_ip c v w = (address v, w)) \<and> (\<forall>iid w. get_instance c iid w = (known iid, w))"

text \<open>The address of the instance's own primary VNIC, if it can be read.\<close>

definition own_address ::
  "(string \<Rightarrow> api_error + vnic_attachment list) \<Rightarrow> (string \<Rightarrow> api_error + string) \<Rightarrow> string \<Rightarrow> string option" where
  "own_address attached address iid =
     (case attached iid of
        Inl _ \<Rightarrow> None
      | Inr as \<Rightarrow> (case primary_vnic None as of
          None \<Rightarrow> None
        | Some v \<Rightarrow> (case address v of Inl _ \<Rightarrow> None | Inr a \<Rightarrow> Some a)))"

definition has_primary :: "(string \<Rightarrow> api_error + vnic_attachment list) \<Rightarrow> string \<Rightarrow> bool" where
  "has_primary attached iid \<longleftrightarrow>
     (case attached iid of Inl _ \<Rightarrow> True | Inr as \<Rightarrow> list_ex (\<lambda>a. vnic_name a = None) as)"

definition node_of ::
  "(string \<Rightarrow> api_error + vnic_attachment list) \<Rightarrow> (string \<Rightarrow> api_error + string)
     \<Rightarrow> (string \<Rightarrow> api_error + cloud_instance) \<Rightarrow> bool \<Rightarrow> string \<times> string \<Rightarrow> node list" where
  "node_of attached address known look_up found =
     (case (look_up, known (fst found), own_address attached address (fst found)) of
        (True, Inl _, _) \<Rightarrow> []
      | (_, _, None) \<Rightarrow> []
      | (_, _, Some a) \<Rightarrow> [\<lparr>node_name = snd found, node_ip = a, node_ocid = fst found\<rparr>])"

lemma primary_vnic_own:
  "list_ex (\<lambda>a. vnic_name a = None) as \<Longrightarrow> primary_vnic v as = primary_vnic None as \<and> primary_vnic None as \<noteq> None"
proof (induction as rule: rev_induct)
  case (snoc a as)
  then show ?case by (cases "vnic_name a = None") (auto simp: primary_vnic_def)
qed simp

lemma primary_vnic_none: "\<not> list_ex (\<lambda>a. vnic_name a = None) as \<Longrightarrow> primary_vnic v as = v"
  by (induction as rule: rev_induct) (auto simp: primary_vnic_def)

lemma attempt_api:
  "call (world_of s) = (r, world_of s) \<Longrightarrow> attempt (api call) s =
     (Inr (case r of Inl e \<Rightarrow> Inl (Api e) | Inr x \<Rightarrow> Inr x), s)"
  by (cases r) (auto simp: attempt_def api_def ctry_apply cbind_apply)

lemma read_address_snapshot:
  assumes "snapshot c compartment attached address known"
  shows "read_address c compartment look_up iid v s =
    (Inr (case (look_up, known iid, attached iid) of
        (True, Inl _, _) \<Rightarrow> (v, None)
      | (_, _, Inl _) \<Rightarrow> (v, None)
      | (_, _, Inr as) \<Rightarrow> (primary_vnic v as,
          case primary_vnic v as of None \<Rightarrow> None
          | Some vnic \<Rightarrow> (case address vnic of Inl _ \<Rightarrow> None | Inr a \<Rightarrow> Some a))), s)"
proof -
  have looked: "attempt (cbind (api (get_instance c iid)) (\<lambda>_. creturn ())) s =
      (Inr (case known iid of Inl e \<Rightarrow> Inl (Api e) | Inr _ \<Rightarrow> Inr ()), s)"
    using assms by (cases "known iid") (auto simp: snapshot_def attempt_def api_def ctry_apply cbind_apply)
  have listed: "attempt (api (list_vnic_attachments c compartment iid)) s =
      (Inr (case attached iid of Inl e \<Rightarrow> Inl (Api e) | Inr x \<Rightarrow> Inr x), s)"
    using assms by (intro attempt_api) (simp add: snapshot_def)
  have ip: "attempt (api (get_vnic_ip c vnic)) s =
      (Inr (case address vnic of Inl e \<Rightarrow> Inl (Api e) | Inr x \<Rightarrow> Inr x), s)" for vnic
    using assms by (intro attempt_api) (simp add: snapshot_def)
  show ?thesis
    by (auto simp: read_address_def cbind_apply looked listed ip split: sum.split option.split)
qed

lemma add_node_snapshot:
  assumes "snapshot c compartment attached address known" and "has_primary attached (fst found)"
  shows "\<exists>v'. add_node c compartment look_up (v, nodes) found s =
    (Inr (v', nodes @ node_of attached address known look_up found), s)"
proof -
  obtain iid name where found: "found = (iid, name)" by (cases found)
  show ?thesis
  proof (cases "attached iid")
    case (Inl e)
    then show ?thesis
      by (auto simp: found add_node_def cbind_apply read_address_snapshot [OF assms(1)] node_of_def own_address_def
          split: sum.split bool.split)
  next
    case (Inr as)
    then have "list_ex (\<lambda>a. vnic_name a = None) as" using assms(2) by (simp add: found has_primary_def)
    then have "primary_vnic v as = primary_vnic None as" using primary_vnic_own by blast
    then show ?thesis using Inr
      by (auto simp: found add_node_def cbind_apply read_address_snapshot [OF assms(1)] node_of_def own_address_def
          split: sum.split bool.split option.split)
  qed
qed

lemma add_nodes_snapshot:
  assumes "snapshot c compartment attached address known" and "list_all (has_primary attached \<circ> fst) found"
  shows "\<exists>v'. cfold (add_node c compartment look_up) (v, nodes) found s =
    (Inr (v', nodes @ concat (map (node_of attached address known look_up) found)), s)"
  using assms(2)
proof (induction found arbitrary: v nodes)
  case (Cons x found)
  obtain v' where "add_node c compartment look_up (v, nodes) x s =
      (Inr (v', nodes @ node_of attached address known look_up x), s)"
    using add_node_snapshot [OF assms(1), of x look_up v nodes s] Cons.prems by auto
  then show ?case
    using Cons.IH [of v' "nodes @ node_of attached address known look_up x"] Cons.prems
    by (simp add: cbind_apply)
qed simp

text \<open>
  C16: the node list of a cluster. When the services do not change during the reading and every
  instance whose attachments can be read has a primary VNIC, the nodes are, in the order of the
  listing, the instances whose primary VNIC can be read, each with the address of its own VNIC;
  instances for which a call fails are left out, and nothing fails.
\<close>

theorem nodes_have_own_address:
  assumes "snapshot c compartment attached address known"
    and "list_members c compartment cid kind s = (Inr found, s')"
    and "list_all (has_primary attached \<circ> fst) found"
  shows "get_instances c compartment cid kind s
    = (Inr (concat (map (node_of attached address known (kind \<noteq> CC)) found)), s')"
  using assms(2) add_nodes_snapshot [OF assms(1,3), of "kind \<noteq> CC" None "[]" s']
  by (auto simp: get_instances_def cbind_apply)

text \<open>
  An instance without a primary VNIC is not left out: it is listed with the address of the
  instance before it, because the loop variable still holds that one's attachment.
\<close>

lemma missing_vnic_inherits_address:
  assumes "snapshot c compartment attached address known"
    and "list_members c compartment cid CC s = (Inr [(iid, name), (iid', name')], s')"
    and "own_address attached address iid = Some a"
    and "attached iid' = Inr as" and "\<not> list_ex (\<lambda>v. vnic_name v = None) as"
  shows "get_instances c compartment cid CC s
    = (Inr [\<lparr>node_name = name, node_ip = a, node_ocid = iid\<rparr>,
            \<lparr>node_name = name', node_ip = a, node_ocid = iid'\<rparr>], s')"
proof -
  obtain as' vnic where own: "attached iid = Inr as'" "primary_vnic None as' = Some vnic" "address vnic = Inr a"
    using assms(3) by (auto simp: own_address_def split: sum.splits option.splits)
  show ?thesis
    using assms(2,4) own primary_vnic_none [OF assms(5)]
    by (simp add: get_instances_def cbind_apply add_node_def read_address_snapshot [OF assms(1)])
qed

definition vnic_of :: "string \<Rightarrow> api_error + vnic_attachment list" where
  "vnic_of iid = Inr (if iid = ''i2'' then []
     else [\<lparr>vnic_name = Some ''rdma'', vnic_id = iid @ ''-v1'', vnic_subnet = ''s''\<rparr>,
           \<lparr>vnic_name = None, vnic_id = iid @ ''-v0'', vnic_subnet = ''s''\<rparr>])"

definition ip_of_vnic :: "string \<Rightarrow> api_error + string" where
  "ip_of_vnic v = Inr (if v = ''i1-v0'' then ''10.0.0.5'' else ''10.0.0.9'')"

definition some_instance :: "string \<Rightarrow> api_error + cloud_instance" where
  "some_instance iid = Inr \<lparr>instance_name = ''n-'' @ iid, instance_compartment = ''c'',
     instance_state = ''RUNNING'', instance_tags = None\<rparr>"

definition view_cloud :: "string list \<Rightarrow> nat cloud" where
  "view_cloud members = refusing_cloud\<lparr>
     list_compute_cluster_instances := (\<lambda>_ _ w. (Inr (map (\<lambda>iid. (iid, projr (some_instance iid))) members), w)),
     list_vnic_attachments := (\<lambda>_ iid w. (vnic_of iid, w)), get_vnic_ip := (\<lambda>v w. (ip_of_vnic v, w)),
     get_instance := (\<lambda>iid w. (some_instance iid, w))\<rparr>"

lemma view_cloud_snapshot: "snapshot (view_cloud members) compartment vnic_of ip_of_vnic some_instance"
  by (simp add: snapshot_def view_cloud_def)

lemma view_cloud_members:
  "list_members (view_cloud members) compartment cid CC s = (Inr (map (\<lambda>iid. (iid, ''n-'' @ iid)) members), s)"
  by (simp add: list_members_def cbind_apply api_def view_cloud_def some_instance_def filter_map comp_def)

lemma nodes_have_own_address_witness:
  "fst (get_instances (view_cloud [''i1'', ''i3'']) ''c'' ''cc'' CC idle_run) =
     Inr [\<lparr>node_name = ''n-i1'', node_ip = ''10.0.0.5'', node_ocid = ''i1''\<rparr>,
          \<lparr>node_name = ''n-i3'', node_ip = ''10.0.0.9'', node_ocid = ''i3''\<rparr>]"
  by (subst nodes_have_own_address [OF view_cloud_snapshot view_cloud_members])
    (simp_all add: has_primary_def vnic_of_def node_of_def own_address_def primary_vnic_def ip_of_vnic_def)

lemma missing_vnic_inherits_address_witness:
  "fst (get_instances (view_cloud [''i1'', ''i2'']) ''c'' ''cc'' CC idle_run) =
     Inr [\<lparr>node_name = ''n-i1'', node_ip = ''10.0.0.5'', node_ocid = ''i1''\<rparr>,
          \<lparr>node_name = ''n-i2'', node_ip = ''10.0.0.5'', node_ocid = ''i2''\<rparr>]"
proof -
  have members: "list_members (view_cloud [''i1'', ''i2'']) ''c'' ''cc'' CC idle_run
      = (Inr [(''i1'', ''n-i1''), (''i2'', ''n-i2'')], idle_run)"
    by (simp add: view_cloud_members)
  have "own_address vnic_of ip_of_vnic ''i1'' = Some ''10.0.0.5''"
    by (simp add: vnic_of_def own_address_def primary_vnic_def ip_of_vnic_def)
  moreover have "vnic_of ''i2'' = Inr []" by (simp add: vnic_of_def)
  ultimately show ?thesis
    by (subst missing_vnic_inherits_address [OF view_cloud_snapshot members]) auto
qed

section \<open>Hosts that answer and hosts that do not\<close>

lemma getreachable_partition:
  assumes "getreachable c nodes username s = (Inr (reachable, unreachable), s')"
  shows "\<exists>answered. set reachable = {n \<in> set nodes. node_ip n \<in> set answered}
    \<and> unreachable = filter (\<lambda>n. node_ip n \<notin> set answered) nodes"
proof -
  obtain out where "cbind (creturn out) (\<lambda>out.
      let reachable_ips = map py_strip out;
         reachable = concat (map (\<lambda>ip. filter (\<lambda>n. node_ip n = ip) nodes) reachable_ips)
     in creturn (reachable, filter (\<lambda>n. n \<notin> set reachable) nodes)) s' = (Inr (reachable, unreachable), s')"
    using assms unfolding getreachable_def by (auto simp: cbind_Inr_iff Let_def)
  then have r: "reachable = concat (map (\<lambda>ip. filter (\<lambda>n. node_ip n = ip) nodes) (map py_strip out))"
    and un: "unreachable = filter (\<lambda>n. n \<notin> set reachable) nodes"
    unfolding cbind_creturn Let_def cmd_simps prod.inject sum.inject by blast+
  have set: "set reachable = {n \<in> set nodes. node_ip n \<in> set (map py_strip out)}"
    unfolding r by auto
  then have "unreachable = filter (\<lambda>n. node_ip n \<notin> set (map py_strip out)) nodes"
    unfolding un by (intro filter_cong) auto
  with set show ?thesis by blast
qed

section \<open>The clean-up spares what Terraform tracks\<close>

text \<open>What terminating an instance by itself may ask for.\<close>

definition termination_event :: "string set \<Rightarrow> event \<Rightarrow> char doc \<Rightarrow> bool" where
  "termination_event ids ev j \<longleftrightarrow>
     (case ev of Saw_volume _ _ \<Rightarrow> True | Saw_attachments _ _ \<Rightarrow> True
      | Asked_terminate i _ \<Rightarrow> i \<in> ids | _ \<Rightarrow> False)"

lemma reading_is_termination: "is_reading ev j \<Longrightarrow> termination_event ids ev j"
  by (cases ev) (auto simp: is_reading_def termination_event_def)

lemma quiet_reading_termination: "keeps (quiet is_reading) m \<Longrightarrow> keeps (quiet (termination_event ids)) m"
  by (auto intro!: keepsI dest!: keepsD elim!: quiet_mono intro: reading_is_termination)

lemma terminate_quiet:
  "iid \<in> ids \<Longrightarrow> keeps (quiet (termination_event ids)) (terminate_and_delete c ses iid w b)"
  unfolding terminate_and_delete_def ask_terminate_def
  by (intro quiet_intros quiet_reading_termination) (simp add: termination_event_def)

lemma terminate_each_quiet:
  "keeps (quiet (termination_event (fst ` set found))) (terminate_each c ses found)"
  unfolding terminate_each_def by (intro quiet_intros terminate_quiet) (auto intro: rev_image_eqI)

lemma terminate_cluster_quiet:
  assumes "list_compute_cluster_instances c (s_compartment ses) cid (world_of s) = (Inr found, w)"
    and "terminate_compute_cluster_instances c ses cid excluded s = (r, s')"
  shows "quiet (termination_event (fst ` set (candidates excluded found))) s s'"
proof -
  let ?P = "termination_event (fst ` set (candidates excluded found))"
  have listed: "api (list_compute_cluster_instances c (s_compartment ses) cid) s = (Inr found, s\<lparr>world_of := w\<rparr>)"
    using assms(1) by (simp add: api_Inr)
  have rest: "keeps (quiet ?P) (cbind (terminate_each c ses (candidates excluded found)) (\<lambda>_.
     cbind (api (list_compute_cluster_instances c (s_compartment ses) cid)) (\<lambda>remaining.
     clift (check (RuntimeError ''Failed to terminate all state-external Compute Cluster instances'')
       (candidates excluded remaining = [])))))" (is "keeps _ ?rest")
    by (intro quiet_intros terminate_each_quiet)
  have "?rest (s\<lparr>world_of := w\<rparr>) = (r, s')"
    using assms(2) unfolding terminate_compute_cluster_instances_def by (simp only: cbind_run(1) [where m = "api (list_compute_cluster_instances c (s_compartment ses) cid)"
          and s = s, OF listed])
  from keepsD [OF rest this] show ?thesis by (simp add: quiet_def)
qed

text \<open>
  C14: before a destroy, only nodes outside the Terraform state are terminated. Every instance
  the clean-up asks to terminate was listed in the tracked compute cluster, was not terminated,
  and is not among the tracked ones; nothing else is asked for, also when single terminations
  fail. When it returns, the last listing of the cluster shows no other instance left alive.
\<close>

theorem cleanup_spares_tracked:
  assumes "list_compute_cluster_instances c (s_compartment ses) cid (world_of s) = (Inr found, w)"
    and "terminate_compute_cluster_instances c ses cid excluded s = (r, s')"
  shows "(\<exists>new. trace s' = trace s @ new \<and> list_all (\<lambda>(ev, _). case ev of
        Asked_terminate i _ \<Rightarrow> JStr i \<notin> set excluded
          \<and> (\<exists>inst. (i, inst) \<in> set found \<and> instance_state inst \<noteq> ''TERMINATED'')
      | Saw_volume _ _ \<Rightarrow> True | Saw_attachments _ _ \<Rightarrow> True | _ \<Rightarrow> False) new)
    \<and> (r = Inr () \<longrightarrow> (\<exists>w1 left. list_compute_cluster_instances c (s_compartment ses) cid w1 = (Inr left, world_of s')
        \<and> list_all (\<lambda>(i, inst). JStr i \<in> set excluded \<or> instance_state inst = ''TERMINATED'') left))"
proof -
  from terminate_cluster_quiet [OF assms] obtain new where
    new: "trace s' = trace s @ new"
      "list_all (\<lambda>(ev, j). j = journal s \<and> termination_event (fst ` set (candidates excluded found)) ev j) new"
    by (auto simp: quiet_def)
  have "list_all (\<lambda>(ev, _). case ev of
        Asked_terminate i _ \<Rightarrow> JStr i \<notin> set excluded
          \<and> (\<exists>inst. (i, inst) \<in> set found \<and> instance_state inst \<noteq> ''TERMINATED'')
      | Saw_volume _ _ \<Rightarrow> True | Saw_attachments _ _ \<Rightarrow> True | _ \<Rightarrow> False) new"
    using new(2)
    by (rule list.pred_mono_strong) (force simp: termination_event_def candidates_def split: event.splits)
  moreover have "\<exists>w1 left. list_compute_cluster_instances c (s_compartment ses) cid w1 = (Inr left, world_of s')
      \<and> candidates excluded left = []" if ok: "r = Inr ()"
  proof -
    obtain left s1 where "api (list_compute_cluster_instances c (s_compartment ses) cid) s1 = (Inr left, s')"
        "candidates excluded left = []"
      using assms(2) unfolding terminate_compute_cluster_instances_def ok by (clarsimp simp: cbind_Inr_iff)
    then show ?thesis by (auto simp: api_Inr intro!: exI [of _ "world_of s1"] exI [of _ left])
  qed
  then have "r = Inr () \<longrightarrow> (\<exists>w1 left. list_compute_cluster_instances c (s_compartment ses) cid w1
        = (Inr left, world_of s')
        \<and> list_all (\<lambda>(i, inst). JStr i \<in> set excluded \<or> instance_state inst = ''TERMINATED'') left)"
    by (fastforce simp: candidates_def filter_empty_conv list_all_iff)
  ultimately show ?thesis using new(1) by blast
qed

definition cleanup_cloud :: "nat cloud" where
  "cleanup_cloud = (view_cloud [])\<lparr>
     list_compute_cluster_instances := (\<lambda>_ _ w. (Inr (if w = 0
       then [(''i1'', projr (some_instance ''i1'')), (''i2'', projr (some_instance ''i2''))]
       else [(''i1'', projr (some_instance ''i1''))]), w)),
     get_instance := (\<lambda>iid w. if w = 0 then (some_instance iid, w) else (Inl (ServiceError 404), w)),
     terminate_instance := (\<lambda>_ _ w. (Inr (), w + 1))\<rparr>"

definition sample_cleanup :: "(resize_error + unit) \<times> nat run" where
  "sample_cleanup = terminate_compute_cluster_instances cleanup_cloud sample_session ''cc'' [JStr ''i1''] idle_run"

lemma sample_cleanup_runs: "fst sample_cleanup = Inr () \<and> map fst (trace (snd sample_cleanup)) = [Asked_terminate ''i2'' False]"
  by code_simp

lemma cleanup_spares_tracked_witness:
  "\<exists>w1 left. list_compute_cluster_instances cleanup_cloud ''c'' ''cc'' w1
      = (Inr left, world_of (snd sample_cleanup))
     \<and> list_all (\<lambda>(i, inst). JStr i \<in> set [JStr ''i1''] \<or> instance_state inst = ''TERMINATED'') left"
proof -
  have found: "list_compute_cluster_instances cleanup_cloud (s_compartment sample_session) ''cc'' (world_of idle_run)
      = (Inr [(''i1'', projr (some_instance ''i1'')), (''i2'', projr (some_instance ''i2''))], 0)"
    by (simp add: cleanup_cloud_def idle_run_def)
  have ran: "terminate_compute_cluster_instances cleanup_cloud sample_session ''cc'' [JStr ''i1''] idle_run
      = (Inr (), snd sample_cleanup)"
    using sample_cleanup_runs by (simp add: sample_cleanup_def prod_eq_iff)
  have "s_compartment sample_session = ''c''" by (simp add: sample_session_def)
  with cleanup_spares_tracked [OF found ran, THEN conjunct2, THEN mp, OF refl] show ?thesis by simp
qed

end
