(* ===== verification/Reconfigure.thy ===== *)
theory Reconfigure
  imports Cluster_View
begin

text \<open>
  How \<open>bin/resize.py\<close> edits the inventory around its playbook runs: a new inventory is written
  under \<open>/tmp\<close>, the playbook runs on it, and it replaces the inventory only when the playbook
  succeeded. Files are texts by path; a playbook does not change the files named here.
\<close>

text \<open>
  The variables of the main program these functions read, beside the session: the cluster, the
  option \<open>--remove_unreachable\<close>, whether the inventory is one of an autoscaling cluster, and how
  the clock prints in the name of a backup.
\<close>

record resize_env =
  re_cid :: string
  re_kind :: cluster_kind
  re_remove_unreachable :: bool
  re_autoscaling :: bool
  re_stamp :: "rat \<Rightarrow> string"

section \<open>Searching lines\<close>

fun find_sub :: "string \<Rightarrow> string \<Rightarrow> (string \<times> string) option" where
  "find_sub key [] = (if key = [] then Some ([], []) else None)"
| "find_sub key (ch # s) =
     (if starts_with (ch # s) key then Some ([], drop (length key) (ch # s))
      else map_option (\<lambda>(p, r). (ch # p, r)) (find_sub key s))"

text \<open>\<open>s.split(key)[0]\<close>, and \<open>s.split(key)[1]\<close>, which raises \<open>IndexError\<close> when the key is not there.\<close>

definition split_head :: "string \<Rightarrow> string \<Rightarrow> string" where
  "split_head key s = (case find_sub key s of None \<Rightarrow> s | Some (p, _) \<Rightarrow> p)"

definition split_second :: "string \<Rightarrow> string \<Rightarrow> resize_error + string" where
  "split_second key s =
     (case find_sub key s of
        None \<Rightarrow> Inl (OtherFailure ''IndexError'')
      | Some (_, rest) \<Rightarrow> Inr (split_head key rest))"

definition host_address :: "string \<Rightarrow> resize_error + string" where
  "host_address line =
     rbind (split_second ''ansible_host='' line) (\<lambda>rest. Inr (py_strip (split_head ''ansible_user='' rest)))"

text \<open>\<open>for inv_vars in inventory_dict["all:vars"]: if inv_vars.startswith(name): ...; break\<close>.\<close>

definition inventory_section :: "inventory \<Rightarrow> string \<Rightarrow> resize_error + string list" where
  "inventory_section invt name = need (OtherFailure ''KeyError'') (map_of invt name)"

definition variable_line :: "inventory \<Rightarrow> string \<Rightarrow> resize_error + string option" where
  "variable_line invt name =
     rbind (inventory_section invt ''all:vars'') (\<lambda>ls.
     case filter (\<lambda>l. starts_with l name) ls of
       [] \<Rightarrow> Inr None
     | l # _ \<Rightarrow> rbind (split_second (name @ ''='') l) (\<lambda>v. Inr (Some (py_strip v))))"

definition compute_username :: "inventory \<Rightarrow> resize_error + string" where
  "compute_username invt =
     rbind (variable_line invt ''compute_username'') (\<lambda>v.
     Inr (case v of None \<Rightarrow> ''opc'' | Some name \<Rightarrow> name))"

section \<open>Files\<close>

definition file_text :: "string \<Rightarrow> ('w, string option) resize" where
  "file_text path = (\<lambda>s. (Inr (read_file path s), s))"

definition remove_file :: "string \<Rightarrow> ('w, unit) resize" where
  "remove_file path = (\<lambda>s.
     case read_file path s of
       None \<Rightarrow> (Inl (OtherFailure ''FileNotFoundError''), s)
     | Some _ \<Rightarrow> (Inr (), s\<lparr>files := dpop path (files s)\<rparr>))"

text \<open>What a move within the controller's file systems leaves.\<close>

definition move_file :: "string \<Rightarrow> string \<Rightarrow> ('w, unit) resize" where
  "move_file src dst = (\<lambda>s.
     case read_file src s of
       None \<Rightarrow> (Inl (OtherFailure ''FileNotFoundError''), s)
     | Some t \<Rightarrow> (Inr (), s\<lparr>files := dset dst t (dpop src (files s))\<rparr>))"

text \<open>\<open>os.system('sudo mv ...')\<close>, whose exit status is ignored.\<close>

definition sudo_move :: "'w cloud \<Rightarrow> string \<Rightarrow> string \<Rightarrow> ('w, unit) resize" where
  "sudo_move c src dst = (\<lambda>s.
     case sudo_mv c src dst (world_of s) of
       (moved, w) \<Rightarrow>
         (case (moved, read_file src s) of
            (True, Some t) \<Rightarrow> (Inr (), s\<lparr>world_of := w, files := dset dst t (dpop src (files s))\<rparr>)
          | _ \<Rightarrow> (Inr (), s\<lparr>world_of := w\<rparr>)))"

definition mangled :: "string \<Rightarrow> string" where
  "mangled path = ''/tmp/'' @ map (\<lambda>ch. if ch = CHR ''/'' then CHR ''_'' else ch) path"

definition do_not_edit :: "string \<Rightarrow> string" where
  "do_not_edit path = mangled path @ ''.do_not_edit''"

text \<open>A file \<open>.do_not_edit\<close> left by a failed reconfigure replaces the inventory.\<close>

definition backup_inventory :: "'w cloud \<Rightarrow> resize_env \<Rightarrow> string \<Rightarrow> ('w, unit) resize" where
  "backup_inventory c env path =
     cbind (clock c) (\<lambda>t.
     cbind (file_text path) (\<lambda>found.
     cbind (clift (need (OtherFailure ''FileNotFoundError'') found)) (\<lambda>contents.
     cbind (put_file c (mangled path @ ''.'' @ re_stamp env t) contents) (\<lambda>_.
     cbind (file_text (do_not_edit path)) (\<lambda>left.
     if left = None then creturn () else move_file (do_not_edit path) path)))))"

definition load_inventory :: "string \<Rightarrow> ('w, inventory) resize" where
  "load_inventory path =
     cbind (file_text path) (\<lambda>contents.
     clift (need (OtherFailure ''TypeError'') (parse_inventory contents)))"

section \<open>Running a playbook\<close>

definition playbooks_dir :: string where
  "playbooks_dir = ''/opt/oci-hpc/playbooks/''"

definition run_playbook ::
  "'w cloud \<Rightarrow> string \<Rightarrow> string \<Rightarrow> (string \<times> string) list \<Rightarrow> ('w, int) resize" where
  "run_playbook c path playbook add_vars =
     cbind (file_text path) (\<lambda>contents.
     reading (Ran_playbook contents playbook add_vars) (ansible_playbook c contents playbook add_vars))"

definition settle_do_not_edit :: "string \<Rightarrow> int \<Rightarrow> ('w, int) resize" where
  "settle_do_not_edit path rc =
     cbind (file_text (do_not_edit path)) (\<lambda>left.
     cbind (if left = None then creturn ()
            else if rc = 0 then remove_file (do_not_edit path)
            else move_file (do_not_edit path) ''/tmp/etc_ansible_hosts.do_not_edit.old'') (\<lambda>_.
     creturn (if rc = 0 then 0 else 1)))"

definition hosts_text :: "string option \<Rightarrow> string" where
  "hosts_text t = (case t of None \<Rightarrow> [] | Some x \<Rightarrow> x)"

definition update_cluster ::
  "'w cloud \<Rightarrow> string \<Rightarrow> string \<Rightarrow> string option \<Rightarrow> (string \<times> string) list \<Rightarrow> ('w, int) resize" where
  "update_cluster c path playbook hostfile add_vars =
     cbind (load_inventory path) (\<lambda>invt.
     cbind (clift (compute_username invt)) (\<lambda>username.
     cbind (case hostfile of
         None \<Rightarrow> creturn 0
       | Some hf \<Rightarrow> cbind (file_text hf) (\<lambda>t. api (wait_for_hosts c (hosts_text t) username))) (\<lambda>rc.
     if rc \<noteq> 0 then creturn 2
     else cbind (run_playbook c path playbook add_vars) (\<lambda>rc. settle_do_not_edit path rc))))"

section \<open>Dropping hosts that do not answer\<close>

text \<open>
  \<open>for line in lines: if host in line: lines.remove(line); ips.append(...)\<close>: the loop's index
  advances although the list got shorter. \<open>collect\<close>: whether the address is noted.
\<close>

function drop_hosts ::
  "string \<Rightarrow> bool \<Rightarrow> nat \<Rightarrow> string list \<Rightarrow> string list \<Rightarrow> resize_error + string list \<times> string list" where
  "drop_hosts host collect i lines ips =
     (if i < length lines
      then let line = lines ! i
           in if contains line host
              then if collect
                   then (case host_address line of
                           Inl e \<Rightarrow> Inl e
                         | Inr ip \<Rightarrow> drop_hosts host collect (Suc i) (remove1 line lines) (ips @ [ip]))
                   else drop_hosts host collect (Suc i) (remove1 line lines) ips
              else drop_hosts host collect (Suc i) lines ips
      else Inr (lines, ips))"
  by pat_completeness auto
termination
  by (relation "measure (\<lambda>(host, collect, i, lines, ips). length lines - i)")
    (auto simp: length_remove1 intro: diff_less_mono2 diff_le_mono)

declare drop_hosts.simps [simp del]

definition drop_section ::
  "string \<Rightarrow> bool \<Rightarrow> string \<Rightarrow> inventory \<times> string list \<Rightarrow> resize_error + inventory \<times> string list" where
  "drop_section host collect name acc =
     rbind (inventory_section (fst acc) name) (\<lambda>ls.
     rbind (drop_hosts host collect 0 ls (snd acc)) (\<lambda>(ls', ips).
     Inr (dset name ls' (fst acc), ips)))"

definition drop_host :: "inventory \<times> string list \<Rightarrow> string \<Rightarrow> resize_error + inventory \<times> string list" where
  "drop_host acc host =
     rbind (drop_section host True ''compute_configured'' acc) (\<lambda>acc.
     rbind (drop_section host True ''compute_to_add'' acc) (\<lambda>acc.
     drop_section host False ''nfs'' acc))"

definition add_missing_ips :: "string list \<Rightarrow> string list \<Rightarrow> node list \<Rightarrow> string list" where
  "add_missing_ips nodes_to_remove ips nodes =
     foldl (\<lambda>ips n. if node_name n \<in> set nodes_to_remove \<and> node_ip n \<notin> set ips
                    then ips @ [node_ip n] else ips) ips nodes"

definition permanent_hosts_exist :: "('w, unit) resize" where
  "permanent_hosts_exist =
     cbind (file_text permanent_inventory) (\<lambda>found.
     clift (check (Exited 0) (found \<noteq> None)))"

text \<open>The last lines of both destroy functions: install the inventory once the playbook succeeded.\<close>

definition install_without ::
  "'w cloud \<Rightarrow> string \<Rightarrow> string \<Rightarrow> inventory \<Rightarrow> int \<Rightarrow> ('w, int) resize" where
  "install_without c path tmp_destroy invt update_flag =
     (if update_flag = 0
      then cbind (remove_file tmp_destroy) (\<lambda>_.
           cbind (put_file c (mangled path) (write_inventory (dset ''compute_to_destroy'' [] invt))) (\<lambda>_.
           cbind (sudo_move c (mangled path) path) (\<lambda>_.
           creturn update_flag)))
      else creturn update_flag)"

definition run_for_each ::
  "'w cloud \<Rightarrow> string \<Rightarrow> string \<Rightarrow> string list \<Rightarrow> ('w, int option) resize" where
  "run_for_each c tmp_destroy playbook targets =
     cfold (\<lambda>_ node.
       cbind (update_cluster c tmp_destroy playbook None [(''unreachable_node_list'', node)]) (\<lambda>flag.
       cbind (sleep c 10) (\<lambda>_. creturn (Some flag)))) None targets"

definition destroy_unreachable_reconfigure ::
  "'w cloud \<Rightarrow> session \<Rightarrow> resize_env \<Rightarrow> string \<Rightarrow> string list \<Rightarrow> string \<Rightarrow> ('w, int) resize" where
  "destroy_unreachable_reconfigure c ses env path nodes_to_remove playbook =
     cbind permanent_hosts_exist (\<lambda>_.
     cbind (backup_inventory c env path) (\<lambda>_.
     cbind (load_inventory path) (\<lambda>invt.
     cbind (clift (fold_err drop_host (invt, []) nodes_to_remove)) (\<lambda>(invt', ips).
     cbind (if length ips \<noteq> length nodes_to_remove
            then cbind (get_instances c (s_compartment ses) (re_cid env) (re_kind env)) (\<lambda>nodes.
                 creturn (add_missing_ips nodes_to_remove ips nodes))
            else creturn ips) (\<lambda>ips_to_remove.
     cbind (put_file c (mangled path @ ''_destroy'') (write_inventory invt')) (\<lambda>_.
     cbind (run_for_each c (mangled path @ ''_destroy'') playbook
              (if ips_to_remove = [] then nodes_to_remove else ips_to_remove)) (\<lambda>flag.
     cbind (clift (need (OtherFailure ''UnboundLocalError'') flag)) (\<lambda>update_flag.
     install_without c path (mangled path @ ''_destroy'') invt' update_flag))))))))"

section \<open>Dropping hosts that answer\<close>

definition py_remove :: "string \<Rightarrow> string list \<Rightarrow> resize_error + string list" where
  "py_remove x xs = (if x \<in> set xs then Inr (remove1 x xs) else Inl (ValueFailure ''x not in list''))"

text \<open>
  One host of \<open>nodes_to_remove\<close>. The lines of both sections are taken out of
  \<open>compute_configured\<close>.
\<close>

definition destroy_host :: "string list \<Rightarrow> inventory \<Rightarrow> string \<Rightarrow> resize_error + inventory" where
  "destroy_host reachable invt host =
     rbind (inventory_section invt ''compute_configured'') (\<lambda>configured.
     rbind (inventory_section invt ''compute_to_add'') (\<lambda>to_add.
     rbind (inventory_section invt ''nfs'') (\<lambda>nfs.
     let hit = filter (\<lambda>l. contains l host); live = (host \<in> set reachable);
         gone = hit configured @ hit to_add;
         invt = (if live then dset ''compute_to_destroy''
                   (inventory_lines invt ''compute_to_destroy'' @ gone) invt else invt)
     in rbind (fold_err (\<lambda>ls l. py_remove l ls) configured gone) (\<lambda>configured'.
        rbind (fold_err (\<lambda>ls l. py_remove l ls) nfs (if live then hit nfs else [])) (\<lambda>nfs'.
        Inr (dset ''nfs'' nfs' (dset ''compute_configured'' configured' invt)))))))"

definition drop_unreachable :: "inventory \<Rightarrow> node \<Rightarrow> resize_error + inventory" where
  "drop_unreachable invt n =
     rbind (drop_section (node_name n) False ''compute_configured'' (invt, [])) (\<lambda>acc.
     rbind (drop_section (node_name n) False ''compute_to_add'' acc) (\<lambda>acc.
     Inr (fst acc)))"

definition destroy_reconfigure ::
  "'w cloud \<Rightarrow> session \<Rightarrow> resize_env \<Rightarrow> string \<Rightarrow> string list \<Rightarrow> string \<Rightarrow> ('w, int) resize" where
  "destroy_reconfigure c ses env path nodes_to_remove playbook =
     cbind permanent_hosts_exist (\<lambda>_.
     cbind (backup_inventory c env path) (\<lambda>_.
     cbind (load_inventory path) (\<lambda>invt0.
     let invt = dset ''compute_to_destroy'' [] invt0;
         to_remove = map (\<lambda>h. \<lparr>node_name = h, node_ip = h, node_ocid = []\<rparr>) nodes_to_remove
     in cbind (get_instances c (s_compartment ses) (re_cid env) (re_kind env)) (\<lambda>nodes.
        cbind (clift (compute_username invt)) (\<lambda>username.
        cbind (if re_remove_unreachable env
               then cbind (getreachable c nodes username) (\<lambda>(_, unreachable).
                    cbind (getreachable c to_remove username) (\<lambda>(reachable, _).
                    creturn (unreachable, map node_name reachable)))
               else creturn ([], nodes_to_remove)) (\<lambda>(unreachable, live).
        cbind (clift (fold_err (destroy_host live) invt nodes_to_remove)) (\<lambda>invt.
        cbind (clift (fold_err drop_unreachable invt unreachable)) (\<lambda>invt.
        cbind (put_file c (mangled path @ ''_destroy'') (write_inventory invt)) (\<lambda>_.
        cbind (update_cluster c (mangled path @ ''_destroy'') playbook None []) (\<lambda>update_flag.
        install_without c path (mangled path @ ''_destroy'') invt update_flag))))))))))"

section \<open>Adding and reconfiguring hosts\<close>

definition append_line :: "string \<Rightarrow> string \<Rightarrow> inventory \<Rightarrow> resize_error + inventory" where
  "append_line name line invt =
     rbind (inventory_section invt name) (\<lambda>ls. Inr (dset name (ls @ [line]) invt))"

definition add_host ::
  "string \<Rightarrow> string list option \<Rightarrow> inventory \<times> string list \<Rightarrow> node \<Rightarrow> resize_error + inventory \<times> string list" where
  "add_host username specific_hosts acc n =
     (case acc of (invt, host_to_wait_for) \<Rightarrow>
        rbind (inventory_section invt ''compute_configured'') (\<lambda>configured.
        if list_ex (\<lambda>l. contains l (node_name n) \<and> contains l (node_ip n)) configured
        then Inr (invt, host_to_wait_for)
        else let to_add = (case specific_hosts of None \<Rightarrow> True | Some hs \<Rightarrow> node_name n \<in> set hs)
             in rbind (append_line (if to_add then ''compute_to_add'' else ''compute_configured'')
                        (compute_inventory_line n username) invt) (\<lambda>invt.
                Inr (invt, host_to_wait_for @ [node_ip n]))))"

text \<open>An inventory without an NFS server gets the first new, or else the first configured, node.\<close>

definition choose_nfs :: "inventory \<Rightarrow> resize_error + inventory" where
  "choose_nfs invt =
     rbind (inventory_section invt ''nfs'') (\<lambda>nfs.
     if nfs \<noteq> [] then Inr invt
     else rbind (inventory_section invt ''compute_to_add'') (\<lambda>to_add.
          case to_add of
            l # _ \<Rightarrow> append_line ''nfs'' l invt
          | [] \<Rightarrow> rbind (inventory_section invt ''compute_configured'') (\<lambda>configured.
              case configured of l # _ \<Rightarrow> append_line ''nfs'' l invt | [] \<Rightarrow> Inr invt)))"

definition extended_inventory ::
  "string \<Rightarrow> string list option \<Rightarrow> node list \<Rightarrow> inventory \<Rightarrow> resize_error + inventory \<times> string list" where
  "extended_inventory username specific_hosts nodes invt =
     rbind (fold_err (add_host username specific_hosts) (invt, []) nodes) (\<lambda>(invt, host_to_wait_for).
     rbind (choose_nfs invt) (\<lambda>invt. Inr (invt, host_to_wait_for)))"

definition hostfile_path :: "session \<Rightarrow> string" where
  "hostfile_path ses = ''/tmp/hosts_'' @ s_cluster ses"

definition install_added :: "'w cloud \<Rightarrow> string \<Rightarrow> inventory \<Rightarrow> int \<Rightarrow> ('w, int) resize" where
  "install_added c path invt update_flag =
     (if update_flag = 0
      then cbind (remove_file (mangled path @ ''_add'')) (\<lambda>_.
           cbind (put_file c (mangled path) (write_inventory (dset ''compute_to_add'' []
             (dset ''compute_configured''
               (inventory_lines invt ''compute_configured'' @ inventory_lines invt ''compute_to_add'')
               invt)))) (\<lambda>_.
           cbind (sudo_move c (mangled path) path) (\<lambda>_.
           creturn update_flag)))
      else creturn update_flag)"

text \<open>
  Copying a missing inventory for the backup raises, so the test for the file that follows it in
  the code never fails.
\<close>

definition add_reconfigure ::
  "'w cloud \<Rightarrow> session \<Rightarrow> resize_env \<Rightarrow> string \<Rightarrow> string list option \<Rightarrow> ('w, int) resize" where
  "add_reconfigure c ses env path specific_hosts =
     cbind (get_instances c (s_compartment ses) (re_cid env) (re_kind env)) (\<lambda>nodes.
     cbind (backup_inventory c env path) (\<lambda>_.
     cbind (load_inventory path) (\<lambda>invt.
     cbind (clift (compute_username invt)) (\<lambda>username.
     cbind (clift (extended_inventory username specific_hosts nodes invt)) (\<lambda>(invt1, host_to_wait_for).
     cbind (put_file c (hostfile_path ses) (join [newline] host_to_wait_for)) (\<lambda>_.
     cbind (put_file c (mangled path @ ''_add'') (write_inventory invt1)) (\<lambda>_.
     cbind (prepare_local_block_volume_inventory c (mangled path @ ''_add'') 300) (\<lambda>_.
     cbind (load_inventory (mangled path @ ''_add'')) (\<lambda>invt2.
     cbind (update_cluster c (mangled path @ ''_add'') (playbooks_dir @ ''resize_add.yml'')
              (Some (hostfile_path ses)) []) (\<lambda>update_flag.
     install_added c path invt2 update_flag))))))))))"

definition configured_inventory :: "string \<Rightarrow> node list \<Rightarrow> inventory \<Rightarrow> resize_error + inventory" where
  "configured_inventory username nodes invt =
     choose_nfs (dset ''compute_configured'' (map (\<lambda>n. compute_inventory_line n username) nodes)
       (dset ''compute_to_add'' [] (dset ''compute_configured'' [] invt)))"

definition reconfigure_playbook :: "resize_env \<Rightarrow> bool \<Rightarrow> string" where
  "reconfigure_playbook env crucial =
     playbooks_dir @ (if crucial then ''resize_remove.yml''
       else if re_autoscaling env then ''nodes_added.yml'' else ''site.yml'')"

definition reconfigure ::
  "'w cloud \<Rightarrow> session \<Rightarrow> resize_env \<Rightarrow> string \<Rightarrow> bool \<Rightarrow> ('w, int) resize" where
  "reconfigure c ses env path crucial =
     cbind (get_instances c (s_compartment ses) (re_cid env) (re_kind env)) (\<lambda>nodes.
     cbind (file_text path) (\<lambda>found.
     cbind (clift (check (Exited 0) (found \<noteq> None))) (\<lambda>_.
     cbind (backup_inventory c env path) (\<lambda>_.
     cbind (load_inventory path) (\<lambda>invt.
     cbind (clift (compute_username invt)) (\<lambda>username.
     cbind (clift (configured_inventory username nodes invt)) (\<lambda>invt1.
     cbind (put_file c (hostfile_path ses) (join [newline] (map node_ip nodes))) (\<lambda>_.
     cbind (put_file c (mangled path @ ''_reconfig'') (write_inventory invt1)) (\<lambda>_.
     cbind (prepare_local_block_volume_inventory c (mangled path @ ''_reconfig'') 300) (\<lambda>_.
     cbind (update_cluster c (mangled path @ ''_reconfig'') (reconfigure_playbook env crucial)
              (Some (hostfile_path ses)) []) (\<lambda>update_flag.
     if update_flag = 0
     then cbind (sudo_move c (mangled path @ ''_reconfig'') path) (\<lambda>_. creturn update_flag)
     else creturn update_flag)))))))))))"

lemmas reconfigure_equations [code] =
  file_text_def [THEN fun_cong] remove_file_def [THEN fun_cong] install_added_def [THEN fun_cong] move_file_def [THEN fun_cong] sudo_move_def [THEN fun_cong]
  backup_inventory_def [THEN fun_cong] load_inventory_def [THEN fun_cong] run_playbook_def [THEN fun_cong]
  settle_do_not_edit_def [THEN fun_cong] update_cluster_def [THEN fun_cong]
  permanent_hosts_exist_def [THEN fun_cong] install_without_def [THEN fun_cong]
  run_for_each_def [THEN fun_cong] destroy_unreachable_reconfigure_def [THEN fun_cong]
  destroy_reconfigure_def [THEN fun_cong] add_reconfigure_def [THEN fun_cong] reconfigure_def [THEN fun_cong]

lemma cbind_file_text [simp]: "cbind (file_text p) f s = f (read_file p s) s"
  by (simp add: cbind_def file_text_def)

lemma cbind_clift [simp]: "cbind (clift (Inr x)) f = f x" "cbind (clift (Inl e)) f = craise e"
  by (simp_all add: cbind_def clift_def craise_def)

section \<open>A failed playbook leaves the inventory alone\<close>

definition same_file :: "string \<Rightarrow> 'w run \<Rightarrow> 'w run \<Rightarrow> bool" where
  "same_file path s s' \<longleftrightarrow> read_file path s' = read_file path s"

named_theorems file_intros \<open>commands that leave a file alone\<close>

lemma same_file_rel [intro]: "reflp (same_file path)" "transp (same_file path)"
  by (auto simp: same_file_def intro: reflpI transpI)

lemma same_file_pure [file_intros]:
  "keeps (same_file path) (creturn x)" "keeps (same_file path) (craise e)" "keeps (same_file path) (clift r)"
  by auto

lemma same_file_cbind [file_intros]:
  "keeps (same_file path) m \<Longrightarrow> (\<And>x. keeps (same_file path) (f x)) \<Longrightarrow> keeps (same_file path) (cbind m f)"
  by auto

lemmas same_file_branch [file_intros] = keeps_branch [where R = "same_file path" for path] keeps_split [where R = "same_file path" for path]

lemma quiet_same_file: "keeps (quiet (\<lambda>_ _. True)) m \<Longrightarrow> keeps (same_file path) m"
  by (auto intro!: keepsI simp: same_file_def read_file_def dest!: keepsD quiet_files)

lemma same_file_looking [file_intros]:
  "keeps (same_file path) (clock c)" "keeps (same_file path) (sleep c t)" "keeps (same_file path) (api call)"
  "keeps (same_file path) (get_instances c compartment cid kind)"
  by (intro quiet_same_file quiet_intros)+

lemma put_file_other [file_intros]: "p \<noteq> path \<Longrightarrow> keeps (same_file path) (put_file c p t)"
  by (auto intro!: keepsI simp: put_file_def same_file_def read_file_def cbind_apply api_def split: prod.splits sum.splits)

lemma remove_file_other [file_intros]: "p \<noteq> path \<Longrightarrow> keeps (same_file path) (remove_file p)"
  by (auto intro!: keepsI simp: remove_file_def same_file_def read_file_def split: option.splits)

lemma move_file_other [file_intros]: "p \<noteq> path \<Longrightarrow> q \<noteq> path \<Longrightarrow> keeps (same_file path) (move_file p q)"
  by (auto intro!: keepsI simp: move_file_def same_file_def read_file_def split: option.splits)

lemma file_text_quiet [quiet_intros]: "keeps (quiet P) (file_text p)"
  by (auto intro!: keepsI simp: file_text_def)

lemma file_text_same [file_intros]: "keeps (same_file path) (file_text p)"
  by (intro quiet_same_file quiet_intros)

lemma load_inventory_quiet [quiet_intros]: "keeps (quiet P) (load_inventory p)"
  unfolding load_inventory_def by (intro quiet_intros)

lemma load_inventory_same [file_intros]: "keeps (same_file path) (load_inventory p)"
  by (intro quiet_same_file quiet_intros)

lemma permanent_hosts_same [file_intros]: "keeps (same_file path) permanent_hosts_exist"
  unfolding permanent_hosts_exist_def by (intro file_intros)

lemma run_playbook_same [file_intros]: "keeps (same_file path) (run_playbook c p playbook vars)"
  unfolding run_playbook_def by (intro quiet_same_file quiet_intros) simp

text \<open>The files the program writes on the way are all below \<open>/tmp/\<close>.\<close>

definition outside_tmp :: "string \<Rightarrow> bool" where
  "outside_tmp path \<longleftrightarrow> \<not> starts_with path ''/tmp/''"

lemma mangled_other: "outside_tmp path \<Longrightarrow> mangled p @ suffix \<noteq> path"
  by (auto simp: outside_tmp_def mangled_def)

lemma mangled_other_0: "outside_tmp path \<Longrightarrow> mangled p \<noteq> path"
  using mangled_other [of path p "[]"] by simp

lemma hostfile_other: "outside_tmp path \<Longrightarrow> hostfile_path ses \<noteq> path"
  by (auto simp: outside_tmp_def hostfile_path_def)

lemma settle_same [file_intros]:
  assumes "outside_tmp path"
  shows "keeps (same_file path) (settle_do_not_edit p rc)"
proof -
  have "do_not_edit p \<noteq> path" "''/tmp/etc_ansible_hosts.do_not_edit.old'' \<noteq> path"
    using assms by (auto simp: outside_tmp_def do_not_edit_def mangled_def)
  then show ?thesis unfolding settle_do_not_edit_def by (intro file_intros)
qed

lemma update_cluster_same [file_intros]:
  "outside_tmp path \<Longrightarrow> keeps (same_file path) (update_cluster c p playbook hostfile vars)"
  unfolding update_cluster_def by (intro file_intros)

lemma write_inventory_atomic_other [file_intros]:
  "p \<noteq> path \<Longrightarrow> keeps (same_file path) (write_inventory_atomic c invt p)"
  by (rule keepsI) (auto dest!: write_inventory_atomic_cases simp: same_file_def read_file_def split: sum.splits)

lemma prepare_section_same [file_intros]: "keeps (same_file path) (prepare_section c cluster w acc sect)"
proof (rule keepsI)
  fix s r s'
  assume "prepare_section c cluster w acc sect s = (r, s')"
  from quiet_files [OF keepsD [OF prepare_section_quiet this]] show "same_file path s s'"
    by (simp add: same_file_def read_file_def)
qed

lemma same_file_cfold [file_intros]:
  "(\<And>acc x. keeps (same_file path) (f acc x)) \<Longrightarrow> keeps (same_file path) (cfold f acc xs)"
  by (rule keeps_cfold) auto

lemma prepare_same [file_intros]:
  assumes "p \<noteq> path"
  shows "keeps (same_file path) (prepare_local_block_volume_inventory c p w)"
proof (rule keepsI)
  fix s r s'
  assume "prepare_local_block_volume_inventory c p w s = (r, s')"
  then show "same_file path s s'"
    unfolding prepare_local_block_volume_inventory_def
    by (rule keepsD [rotated]) (intro file_intros assms)
qed

text \<open>A result other than success leaves the file alone.\<close>

definition spares :: "string \<Rightarrow> ('w, int) resize \<Rightarrow> bool" where
  "spares path m \<longleftrightarrow> (\<forall>s r s'. m s = (r, s') \<longrightarrow> r = Inr 0 \<or> read_file path s' = read_file path s)"

lemma spares_cbind:
  assumes "keeps (same_file path) m" and "\<And>x. spares path (f x)"
  shows "spares path (cbind m f)"
  unfolding spares_def
proof (intro allI impI)
  fix s r s''
  assume "cbind m f s = (r, s'')"
  then show "r = Inr 0 \<or> read_file path s'' = read_file path s"
  proof (cases rule: cbind_cases)
    case (raised e)
    then show ?thesis using keepsD [OF assms(1)] by (auto simp: same_file_def)
  next
    case (went_on x s')
    then show ?thesis
      using keepsD [OF assms(1) went_on(1)] assms(2) [of x] unfolding spares_def same_file_def by metis
  qed
qed

lemma spares_branch:
  "(b \<Longrightarrow> spares path m) \<Longrightarrow> (\<not> b \<Longrightarrow> spares path n) \<Longrightarrow> spares path (if b then m else n)"
  "(\<And>a b. spares path (g a b)) \<Longrightarrow> spares path (case pair of (a, b) \<Rightarrow> g a b)"
  by (auto split: prod.splits)

lemma spares_return: "spares path (creturn n)"
  by (simp add: spares_def)

lemma spares_move: "spares path (cbind (sudo_move c p q) (\<lambda>_. creturn 0))"
  by (auto simp: spares_def sudo_move_def cbind_apply split: prod.splits bool.splits option.splits)

lemmas spares_intros = spares_cbind spares_branch spares_return

lemma install_without_spares:
  "outside_tmp path \<Longrightarrow> spares path (install_without c path (mangled path @ ''_destroy'') invt flag)"
  unfolding install_without_def
  by (cases "flag = 0") (auto intro!: spares_intros spares_move file_intros simp: mangled_other mangled_other_0)

lemma install_added_spares: "outside_tmp path \<Longrightarrow> spares path (install_added c path invt flag)"
  unfolding install_added_def
  by (cases "flag = 0") (auto intro!: spares_intros spares_move file_intros simp: mangled_other mangled_other_0)

text \<open>
  What the file may hold after a run that did not succeed: its own text, or that of a
  \<open>.do_not_edit\<close> copy of an earlier failed run, which the backup moves over it.
\<close>

definition kept_or_restored :: "string \<Rightarrow> 'w run \<Rightarrow> 'w run \<Rightarrow> bool" where
  "kept_or_restored path s s' \<longleftrightarrow>
     read_file path s' = read_file path s
     \<or> read_file (do_not_edit path) s \<noteq> None \<and> read_file path s' = read_file (do_not_edit path) s"

lemma backup_keeps:
  assumes "outside_tmp path" and "backup_inventory c env path s = (r, s')"
  shows "kept_or_restored path s s'"
proof -
  let ?backup = "mangled path @ ''.'' @ re_stamp env (now c (world_of s))"
  have other: "?backup \<noteq> path" using mangled_other [OF assms(1)] .
  show ?thesis
  proof (cases "read_file path s")
    case None
    then show ?thesis using assms(2) by (simp add: backup_inventory_def kept_or_restored_def)
  next
    case (Some contents)
    obtain q w where opened: "open_for_writing c ?backup (world_of s) = (q, w)" by fastforce
    have run: "cbind (put_file c ?backup contents) (\<lambda>_. cbind (file_text (do_not_edit path)) (\<lambda>left.
        if left = None then creturn () else move_file (do_not_edit path) path)) s = (r, s')"
      using assms(2) Some by (simp add: backup_inventory_def)
    show ?thesis
    proof (cases q)
      case (Inl e)
      then have "put_file c ?backup contents s = (Inl (Api e), s\<lparr>world_of := w\<rparr>)"
        using opened by (simp add: put_file_def cbind_apply api_def)
      then show ?thesis using run by (auto simp: cbind_run read_file_def kept_or_restored_def)
    next
      case (Inr x)
      let ?s1 = "s\<lparr>world_of := w, files := dset ?backup contents (files s)\<rparr>"
      have "put_file c ?backup contents s = (Inr (), ?s1)"
        using opened Inr by (simp add: put_file_def cbind_apply api_def)
      then have "(if read_file (do_not_edit path) ?s1 = None then creturn ()
          else move_file (do_not_edit path) path) ?s1 = (r, s')"
        using run by (simp only: cbind_run cbind_file_text)
      then show ?thesis using other Some
        by (auto simp: move_file_def read_file_def kept_or_restored_def split: if_splits option.splits)
    qed
  qed
qed

definition spares_at :: "string \<Rightarrow> ('w, int) resize \<Rightarrow> 'w run \<Rightarrow> bool" where
  "spares_at path m s \<longleftrightarrow> (\<forall>r s'. m s = (r, s') \<longrightarrow> r = Inr 0 \<or> kept_or_restored path s s')"

lemma spares_at_quiet:
  assumes "keeps (quiet (\<lambda>_ _. True)) m" and "\<And>x s1. spares_at path (f x) s1"
  shows "spares_at path (cbind m f) s"
  unfolding spares_at_def
proof (intro allI impI)
  fix r s''
  assume "cbind m f s = (r, s'')"
  then show "r = Inr 0 \<or> kept_or_restored path s s''"
  proof (cases rule: cbind_cases)
    case (raised e)
    then show ?thesis
      using quiet_files [OF keepsD [OF assms(1)]] by (simp add: read_file_def kept_or_restored_def)
  next
    case (went_on x s')
    have "files s' = files s" using quiet_files [OF keepsD [OF assms(1) went_on(1)]] .
    then show ?thesis
      using assms(2) went_on(2) unfolding spares_at_def kept_or_restored_def read_file_def by metis
  qed
qed

lemma spares_at_backup:
  assumes "outside_tmp path" and "\<And>x. spares path (f x)"
  shows "spares_at path (cbind (backup_inventory c env path) f) s"
  unfolding spares_at_def
proof (intro allI impI)
  fix r s''
  assume "cbind (backup_inventory c env path) f s = (r, s'')"
  then show "r = Inr 0 \<or> kept_or_restored path s s''"
  proof (cases rule: cbind_cases)
    case (raised e)
    then show ?thesis using backup_keeps [OF assms(1)] by blast
  next
    case (went_on x s')
    have "r = Inr 0 \<or> read_file path s'' = read_file path s'"
      using assms(2) [of x] went_on(2) by (simp add: spares_def)
    then show ?thesis
      using backup_keeps [OF assms(1) went_on(1)] by (auto simp: kept_or_restored_def)
  qed
qed

lemma permanent_hosts_quiet [quiet_intros]: "keeps (quiet P) permanent_hosts_exist"
  unfolding permanent_hosts_exist_def by (intro quiet_intros)

lemma run_for_each_same [file_intros]:
  "outside_tmp path \<Longrightarrow> keeps (same_file path) (run_for_each c p playbook targets)"
  unfolding run_for_each_def by (intro file_intros)

lemma getreachable_same [file_intros]: "keeps (same_file path) (getreachable c nodes username)"
  by (intro quiet_same_file quiet_intros)

lemma spares_clift: "(\<And>x. spares path (f x)) \<Longrightarrow> spares path (cbind (clift r) f)"
  by (intro spares_cbind file_intros)

lemma destroy_unreachable_spares:
  assumes "outside_tmp path"
  shows "spares_at path (destroy_unreachable_reconfigure c ses env path nodes playbook) s"
  unfolding destroy_unreachable_reconfigure_def
  using assms
  by (intro spares_at_quiet spares_at_backup quiet_intros spares_intros spares_clift file_intros
      install_without_spares) (auto simp: read_file_def mangled_other)

lemma destroy_spares:
  assumes "outside_tmp path"
  shows "spares_at path (destroy_reconfigure c ses env path nodes playbook) s"
  unfolding destroy_reconfigure_def Let_def
  using assms
  by (intro spares_at_quiet spares_at_backup quiet_intros spares_intros spares_clift file_intros
      install_without_spares) (auto simp: read_file_def mangled_other)

lemma add_spares:
  assumes "outside_tmp path"
  shows "spares_at path (add_reconfigure c ses env path new_hosts) s"
  unfolding add_reconfigure_def
  using assms
  by (intro spares_at_quiet spares_at_backup quiet_intros spares_intros spares_clift file_intros
      install_added_spares) (auto simp: read_file_def mangled_other hostfile_other)

lemma reconfigure_spares:
  assumes "outside_tmp path"
  shows "spares_at path (reconfigure c ses env path crucial) s"
proof -
  have final: "spares path (if flag = 0 then cbind (sudo_move c p path) (\<lambda>_. creturn flag) else creturn flag)"
    for flag p by (cases "flag = 0") (simp_all add: spares_move spares_return)
  show ?thesis
    unfolding reconfigure_def
    using assms
    by (intro spares_at_quiet spares_at_backup quiet_intros final spares_cbind spares_clift file_intros)
      (auto simp: read_file_def mangled_other hostfile_other)
qed


definition small_inventory :: string where
  "small_inventory = concat (map (\<lambda>l. l @ [newline])
     [''[compute_configured]'', ''n-i1 ansible_host=10.0.0.5 ansible_user=opc role=compute oci_instance_id=i1'',
      ''[compute_to_add]'', ''[compute_to_destroy]'', ''[nfs]'', ''[all:vars]'', ''cluster_name=hpc''])"

definition small_start :: "nat run" where
  "small_start = idle_run\<lparr>files := [(permanent_inventory, small_inventory)]\<rparr>"

definition small_env :: resize_env where
  "small_env = \<lparr>re_cid = ''cc'', re_kind = CC, re_remove_unreachable = False, re_autoscaling = False,
     re_stamp = (\<lambda>_. ''stamp'')\<rparr>"

text \<open>A controller on which everything works but the playbook, whose statuses are given in turn.\<close>

definition playbook_cloud :: "string list \<Rightarrow> int list \<Rightarrow> nat cloud" where
  "playbook_cloud members statuses = (view_cloud members)\<lparr>
     open_for_writing := (\<lambda>_ w. (Inr (), w)), sudo_mv := (\<lambda>_ _ w. (True, w)),
     wait_for_hosts := (\<lambda>_ _ w. (Inr 0, w)), wait_for := (\<lambda>_ w. w),
     ansible_playbook := (\<lambda>_ _ _ w. (Inr (statuses ! w), w + 1))\<rparr>"

definition failed_reconfigure :: "(resize_error + int) \<times> nat run" where
  "failed_reconfigure = reconfigure (playbook_cloud [''i1''] [2]) sample_session small_env
     permanent_inventory False small_start"

lemma failed_reconfigure_status: "fst failed_reconfigure = Inr 1"
  by code_simp


section \<open>Every node gets a line\<close>

lemma compute_line_contains:
  "contains (compute_inventory_line n username) (node_name n) \<and> contains (compute_inventory_line n username) (node_ip n)"
proof -
  have sub: "contains (p @ s @ t) s" for p s t :: string
  proof (induction p)
    case Nil
    have "starts_with (s @ t) s" by simp
    then show ?case by (cases "s @ t") auto
  next
    case (Cons a p)
    then show ?case by simp
  qed
  have "contains (compute_inventory_line n username) (node_name n)"
    using sub [of "[]" "node_name n"] by (simp add: compute_inventory_line_def)
  moreover have "contains (compute_inventory_line n username) (node_ip n)"
    using sub [of "node_name n @ '' ansible_host=''" "node_ip n"] by (simp add: compute_inventory_line_def)
  ultimately show ?thesis by blast
qed

text \<open>
  The code's test whether a line is that of a node: it contains the name and the address
  anywhere. A node is in an inventory when a line of a compute section passes the test.
\<close>

definition listed :: "node \<Rightarrow> string \<Rightarrow> bool" where
  "listed n l \<longleftrightarrow> contains l (node_name n) \<and> contains l (node_ip n)"

definition in_inventory :: "inventory \<Rightarrow> node \<Rightarrow> bool" where
  "in_inventory invt n \<longleftrightarrow>
     list_ex (listed n)
       (inventory_lines invt ''compute_configured'' @ inventory_lines invt ''compute_to_add'')"

lemma append_line_Inr:
  "append_line name line invt = Inr invt' \<Longrightarrow>
     invt' = dset name (inventory_lines invt name @ [line]) invt"
  by (auto simp: append_line_def inventory_section_def inventory_lines_def)

lemma section_lines: "inventory_section invt name = Inr ls \<Longrightarrow> inventory_lines invt name = ls"
  by (simp add: inventory_section_def inventory_lines_def)

text \<open>
  What adding nodes leaves: \<open>new\<close> are the nodes that got a line, in order. \<open>chosen\<close> tells which of
  them go to \<open>compute_to_add\<close>.
\<close>

definition chosen :: "string list option \<Rightarrow> node \<Rightarrow> bool" where
  "chosen specific_hosts n \<longleftrightarrow>
     (case specific_hosts of None \<Rightarrow> True | Some hs \<Rightarrow> node_name n \<in> set hs)"

definition lines_added ::
  "string \<Rightarrow> string list option \<Rightarrow> node list \<Rightarrow> inventory \<Rightarrow> inventory \<Rightarrow> bool" where
  "lines_added username hs new invt invt' \<longleftrightarrow>
     inventory_lines invt' ''compute_to_add'' = inventory_lines invt ''compute_to_add''
       @ map (\<lambda>n. compute_inventory_line n username) (filter (chosen hs) new)
     \<and> inventory_lines invt' ''compute_configured'' = inventory_lines invt ''compute_configured''
       @ map (\<lambda>n. compute_inventory_line n username) (filter (\<lambda>n. \<not> chosen hs n) new)"

definition nodes_added :: "node list \<Rightarrow> node list \<Rightarrow> inventory \<Rightarrow> inventory \<Rightarrow> bool" where
  "nodes_added new nodes invt invt' \<longleftrightarrow>
     new \<in> set (subseqs nodes)
     \<and> (\<forall>n \<in> set new. \<not> list_ex (listed n) (inventory_lines invt ''compute_configured''))
     \<and> (\<forall>n \<in> set nodes - set new. list_ex (listed n) (inventory_lines invt' ''compute_configured''))"

definition other_sections :: "inventory \<Rightarrow> inventory \<Rightarrow> bool" where
  "other_sections invt invt' \<longleftrightarrow>
     (\<forall>name. name \<notin> {''compute_configured'', ''compute_to_add'', ''nfs''}
        \<longrightarrow> inventory_lines invt' name = inventory_lines invt name)"

lemma add_host_cases:
  assumes "add_host username hs (invt, waits) n = Inr (invt', waits')"
  obtains (known) "list_ex (listed n) (inventory_lines invt ''compute_configured'')"
      "invt' = invt" "waits' = waits"
  | (new) "\<not> list_ex (listed n) (inventory_lines invt ''compute_configured'')"
      "lines_added username hs [n] invt invt'" "waits' = waits @ [node_ip n]"
      "inventory_lines invt' ''nfs'' = inventory_lines invt ''nfs''" "other_sections invt invt'"
proof -
  obtain configured where c: "inventory_lines invt ''compute_configured'' = configured"
      "inventory_section invt ''compute_configured'' = Inr configured"
    using assms section_lines by (auto simp: add_host_def)
  have test: "list_ex (\<lambda>l. contains l (node_name n) \<and> contains l (node_ip n)) configured
      = list_ex (listed n) configured"
    by (simp add: listed_def [abs_def])
  show thesis
  proof (cases "list_ex (listed n) configured")
    case True
    then show thesis using known assms c test by (auto simp: add_host_def)
  next
    case False
    let ?section = "if chosen hs n then ''compute_to_add'' else ''compute_configured''"
    have "append_line ?section (compute_inventory_line n username) invt = Inr invt'"
      and waits: "waits' = waits @ [node_ip n]"
      using assms c test False by (auto simp: add_host_def chosen_def Let_def)
    then have "invt' = dset ?section (inventory_lines invt ?section @ [compute_inventory_line n username]) invt"
      using append_line_Inr by blast
    then have "lines_added username hs [n] invt invt'"
      "inventory_lines invt' ''nfs'' = inventory_lines invt ''nfs''" "other_sections invt invt'"
      by (auto simp: lines_added_def other_sections_def)
    with new waits False c(1) show thesis by blast
  qed
qed

lemma lines_added_listed:
  "lines_added username hs new invt invt' \<Longrightarrow> list_ex (listed n) (inventory_lines invt ''compute_configured'')
     \<Longrightarrow> list_ex (listed n) (inventory_lines invt' ''compute_configured'')"
  by (simp add: lines_added_def)

lemma lines_added_trans:
  "lines_added username hs a x y \<Longrightarrow> lines_added username hs b y z \<Longrightarrow> lines_added username hs (a @ b) x z"
  by (simp add: lines_added_def)

lemma add_hosts_Inr:
  assumes "fold_err (add_host username hs) (invt, waits) nodes = Inr (invt', waits')"
  shows "\<exists>new. nodes_added new nodes invt invt' \<and> lines_added username hs new invt invt'
    \<and> waits' = waits @ map node_ip new
    \<and> inventory_lines invt' ''nfs'' = inventory_lines invt ''nfs'' \<and> other_sections invt invt'"
  using assms
proof (induction nodes arbitrary: invt waits)
  case Nil
  then show ?case by (auto simp: nodes_added_def lines_added_def other_sections_def)
next
  case (Cons n nodes)
  then obtain invt1 waits1 where step: "add_host username hs (invt, waits) n = Inr (invt1, waits1)"
      "fold_err (add_host username hs) (invt1, waits1) nodes = Inr (invt', waits')"
    by (auto split: sum.splits)
  from Cons.IH [OF step(2)] obtain new where
    new: "nodes_added new nodes invt1 invt'" "lines_added username hs new invt1 invt'"
      "waits' = waits1 @ map node_ip new"
      "inventory_lines invt' ''nfs'' = inventory_lines invt1 ''nfs''" "other_sections invt1 invt'"
    by blast
  from step(1) show ?case
  proof (cases rule: add_host_cases)
    case known
    then have "nodes_added new (n # nodes) invt invt'"
      using new(1) lines_added_listed [OF new(2)] by (auto simp: nodes_added_def Let_def)
    then show ?thesis using new known by auto
  next
    case new': new
    have "\<not> list_ex (listed m) (inventory_lines invt ''compute_configured'')" if "m \<in> set new" for m
      using new(1) that lines_added_listed [OF new'(2)] by (auto simp: nodes_added_def)
    then have "nodes_added (n # new) (n # nodes) invt invt'"
      using new(1) new'(1) by (auto simp: nodes_added_def Let_def)
    then show ?thesis
      using new new' lines_added_trans [OF new'(2) new(2)]
      by (intro exI [of _ "n # new"]) (auto simp: other_sections_def)
  qed
qed

text \<open>An inventory without an NFS server gets the first of the compute lines, new ones first.\<close>

lemma choose_nfs_Inr:
  assumes "choose_nfs invt = Inr invt'"
  shows "inventory_lines invt' ''nfs'' =
      (if inventory_lines invt ''nfs'' \<noteq> [] then inventory_lines invt ''nfs''
       else take 1 (inventory_lines invt ''compute_to_add'' @ inventory_lines invt ''compute_configured''))
    \<and> (\<forall>name. name \<noteq> ''nfs'' \<longrightarrow> inventory_lines invt' name = inventory_lines invt name)"
proof -
  obtain nfs where nfs: "inventory_section invt ''nfs'' = Inr nfs" using assms by (auto simp: choose_nfs_def)
  show ?thesis
  proof (cases "nfs = []")
    case False
    then show ?thesis using assms nfs section_lines [OF nfs] by (auto simp: choose_nfs_def)
  next
    case True
    then obtain to_add where to_add: "inventory_section invt ''compute_to_add'' = Inr to_add"
      using assms nfs by (auto simp: choose_nfs_def)
    note known = section_lines [OF nfs] section_lines [OF to_add] True
    show ?thesis
    proof (cases to_add)
      case (Cons l ls)
      then have "append_line ''nfs'' l invt = Inr invt'" using assms nfs True to_add by (simp add: choose_nfs_def)
      from append_line_Inr [OF this] known Cons show ?thesis by auto
    next
      case Nil
      then obtain configured where configured: "inventory_section invt ''compute_configured'' = Inr configured"
        using assms nfs True to_add by (auto simp: choose_nfs_def)
      note known = known section_lines [OF configured]
      show ?thesis
      proof (cases configured)
        case none: Nil
        then show ?thesis using assms nfs to_add Nil configured known
          by (auto simp: choose_nfs_def)
      next
        case (Cons l ls)
        then have "append_line ''nfs'' l invt = Inr invt'"
          using assms nfs True to_add Nil configured by (simp add: choose_nfs_def)
        from append_line_Inr [OF this] known Cons Nil show ?thesis by auto
      qed
    qed
  qed
qed

lemma added_in_inventory:
  assumes "lines_added username hs new invt invt'" and "nodes_added new nodes invt invt'"
  shows "list_all (in_inventory invt') nodes"
  unfolding list_all_iff
proof
  fix n assume n: "n \<in> set nodes"
  show "in_inventory invt' n"
  proof (cases "n \<in> set new")
    case True
    moreover have "listed n (compute_inventory_line n username)"
      using compute_line_contains by (simp add: listed_def)
    ultimately show ?thesis
      using assms(1) by (cases "chosen hs n") (auto simp: lines_added_def in_inventory_def list_ex_iff)
  next
    case False
    then show ?thesis using assms(2) n by (auto simp: nodes_added_def in_inventory_def)
  qed
qed

text \<open>
  C17: adding reaches every node. Of the nodes the cluster lists, exactly those without a line in
  \<open>compute_configured\<close> get one and are waited for: there is a part \<open>new\<close> of the list, in its order,
  such that the addresses to wait for are those of \<open>new\<close>, the lines of \<open>new\<close> are appended to
  \<open>compute_to_add\<close> (those of hosts not asked for to \<open>compute_configured\<close>), no node of \<open>new\<close> had a
  line in \<open>compute_configured\<close>, and every other node has one. Whether a line is a node's is the
  code's test: it contains the name and the address anywhere (\<open>listed\<close>). So in the inventory the
  playbook runs on every node passes the test; an inventory without NFS server gets the first
  compute line as one; nothing else changes.
\<close>

theorem every_node_is_added:
  assumes "extended_inventory username specific_hosts nodes invt = Inr (invt', host_to_wait_for)"
  shows "(\<exists>new. nodes_added new nodes invt invt' \<and> lines_added username specific_hosts new invt invt'
      \<and> host_to_wait_for = map node_ip new)
    \<and> list_all (in_inventory invt') nodes
    \<and> inventory_lines invt' ''nfs'' =
        (if inventory_lines invt ''nfs'' \<noteq> [] then inventory_lines invt ''nfs''
         else take 1 (inventory_lines invt' ''compute_to_add'' @ inventory_lines invt' ''compute_configured''))
    \<and> other_sections invt invt'"
proof -
  obtain invt1 where one: "fold_err (add_host username specific_hosts) (invt, []) nodes = Inr (invt1, host_to_wait_for)"
      and two: "choose_nfs invt1 = Inr invt'"
    using assms by (auto simp: extended_inventory_def)
  note nfs = choose_nfs_Inr [OF two]
  from add_hosts_Inr [OF one] obtain new where
    "nodes_added new nodes invt invt1" "lines_added username specific_hosts new invt invt1"
    and waits: "host_to_wait_for = map node_ip new"
    and rest: "inventory_lines invt1 ''nfs'' = inventory_lines invt ''nfs''" "other_sections invt invt1"
    by auto
  then have new: "nodes_added new nodes invt invt'" "lines_added username specific_hosts new invt invt'"
    using nfs by (simp_all add: nodes_added_def lines_added_def)
  have "other_sections invt invt'" using rest(2) nfs by (simp add: other_sections_def)
  moreover have "inventory_lines invt' ''nfs'' =
        (if inventory_lines invt ''nfs'' \<noteq> [] then inventory_lines invt ''nfs''
         else take 1 (inventory_lines invt' ''compute_to_add'' @ inventory_lines invt' ''compute_configured''))"
    using nfs rest(1) by simp
  ultimately show ?thesis using new waits added_in_inventory [OF new(2,1)] by blast
qed

definition added_start :: inventory where
  "added_start = [(''compute_configured'', [''n-1 ansible_host=10.0.0.5'' @ [newline]]),
     (''compute_to_add'', []), (''nfs'', [])]"

definition added_nodes :: "node list" where
  "added_nodes =
     [\<lparr>node_name = ''n-1'', node_ip = ''10.0.0.5'', node_ocid = ''i1''\<rparr>,
      \<lparr>node_name = ''n-2'', node_ip = ''10.0.0.6'', node_ocid = ''i2''\<rparr>]"

definition added_sample :: "resize_error + inventory \<times> string list" where
  "added_sample = extended_inventory ''opc'' None added_nodes added_start"

lemma every_node_is_added_witness:
  "\<exists>invt new. added_sample = Inr (invt, [''10.0.0.6''])
     \<and> nodes_added new added_nodes added_start invt \<and> lines_added ''opc'' None new added_start invt
     \<and> [''10.0.0.6''] = map node_ip new \<and> list_all (in_inventory invt) added_nodes"
proof -
  have "case added_sample of Inl _ \<Rightarrow> False | Inr (_, waits) \<Rightarrow> waits = [''10.0.0.6'']" by code_simp
  then obtain invt where r: "added_sample = Inr (invt, [''10.0.0.6''])"
    by (auto split: sum.splits)
  from every_node_is_added [OF r [unfolded added_sample_def]] obtain new where
    "nodes_added new added_nodes added_start invt" "lines_added ''opc'' None new added_start invt"
    "[''10.0.0.6''] = map node_ip new" "list_all (in_inventory invt) added_nodes"
    by (elim conjE exE)
  then show ?thesis using r by (intro exI [of _ invt] exI [of _ new] conjI)
qed

section \<open>Which lines dropping a host removes\<close>

text \<open>
  What the loop removes of a list without duplicates: a matching line goes, and the line after
  it stays unseen.
\<close>

fun skip_partition :: "('a \<Rightarrow> bool) \<Rightarrow> 'a list \<Rightarrow> 'a list \<times> 'a list" where
  "skip_partition p [] = ([], [])"
| "skip_partition p [x] = (if p x then ([], [x]) else ([x], []))"
| "skip_partition p (x # y # xs) =
     (if p x then case skip_partition p xs of (kept, gone) \<Rightarrow> (y # kept, x # gone)
      else case skip_partition p (y # xs) of (kept, gone) \<Rightarrow> (x # kept, gone))"

definition dropped :: "bool \<Rightarrow> string list \<times> string list \<Rightarrow> string list \<Rightarrow> string list
    \<Rightarrow> resize_error + string list \<times> string list" where
  "dropped collect parts pre ips =
     (case parts of (kept, gone) \<Rightarrow>
        if collect then rbind (map_err host_address gone) (\<lambda>new. Inr (pre @ kept, ips @ new))
        else Inr (pre @ kept, ips))"

lemma drop_hosts_skip:
  "distinct (pre @ rest) \<Longrightarrow> drop_hosts host collect (length pre) (pre @ rest) ips
     = dropped collect (skip_partition (\<lambda>l. contains l host) rest) pre ips"
proof (induction "\<lambda>l. contains l host" rest arbitrary: pre ips rule: skip_partition.induct)
  case 1
  then show ?case by (subst drop_hosts.simps) (simp add: dropped_def)
next
  case (2 x)
  then show ?case
    by (subst drop_hosts.simps)
      (auto simp: dropped_def remove1_append drop_hosts.simps [of _ _ "Suc _"] split: sum.split)
next
  case (3 x y xs)
  show ?case
  proof (cases "contains x host")
    case True
    have removed: "remove1 x (pre @ x # y # xs) = (pre @ [y]) @ xs"
      using 3(3) by (simp add: remove1_append)
    have "distinct ((pre @ [y]) @ xs)" using 3(3) by simp
    from 3(1) [OF True this] show ?thesis
      using True removed
      by (subst drop_hosts.simps)
        (auto simp: dropped_def rbind_def split: sum.split prod.split)
  next
    case False
    have "distinct ((pre @ [x]) @ y # xs)" using 3(3) by simp
    from 3(2) [OF False this] show ?thesis
      using False
      by (subst drop_hosts.simps) (auto simp: dropped_def split: prod.split)
  qed
qed

text \<open>
  Which lines the removal of an unreachable host takes out of a section without duplicate
  lines: a line goes when it contains the host name anywhere, and the line after it is passed
  over, since the loop removes from the list it iterates over. Only the addresses of the removed
  lines are collected, in order.
\<close>

lemma dropping_skips_lines:
  assumes "distinct lines"
  shows "drop_hosts host collect 0 lines ips
    = dropped collect (skip_partition (\<lambda>l. contains l host) lines) [] ips"
  using drop_hosts_skip [of "[]" lines] assms by simp

lemma dropping_skips_lines_witness:
  "drop_hosts ''node-1'' True 0
     [''node-1 ansible_host=10.0.0.1'', ''node-1 ansible_host=10.0.0.2'', ''node-10 ansible_host=10.0.0.3'',
      ''node-2 ansible_host=10.0.0.4''] []
   = Inr ([''node-1 ansible_host=10.0.0.2'', ''node-2 ansible_host=10.0.0.4''], [''10.0.0.1'', ''10.0.0.3''])"
  by (subst dropping_skips_lines) (code_simp+)

section \<open>The status of a removal\<close>

text \<open>
  The status of the removal playbooks is the status of the last one. When several nodes are
  removed the playbook runs once per node, and the flag that decides whether the inventory is
  replaced and the instances are terminated comes from the last run alone.
\<close>

lemma last_playbook_decides:
  assumes "run_for_each c path playbook (targets @ [target]) s = (Inr flag, s')"
  shows "\<exists>status s1 s2. update_cluster c path playbook None [(''unreachable_node_list'', target)] s1
      = (Inr status, s2) \<and> flag = Some status"
proof -
  have split: "cfold f acc (xs @ [x]) s = (Inr y, s') \<Longrightarrow> \<exists>acc' s1. f acc' x s1 = (Inr y, s')"
    for f :: "int option \<Rightarrow> string \<Rightarrow> ('a, int option) resize" and acc xs x s y
    by (induction xs arbitrary: acc s) (auto simp: cbind_Inr_iff)
  from split [OF assms [unfolded run_for_each_def]] show ?thesis
    by (auto simp: cbind_Inr_iff sleep_def)
qed

definition removal_statuses :: "int list \<Rightarrow> string list \<Rightarrow> (resize_error + int option) \<times> nat run" where
  "removal_statuses statuses targets =
     run_for_each (playbook_cloud [] statuses) permanent_inventory ''p'' targets small_start"

lemma last_playbook_decides_witness:
  "fst (removal_statuses [2, 0] [''n-1'', ''n-2'']) = Inr (Some 0)
   \<and> (\<exists>s1 s2. update_cluster (playbook_cloud [] [2, 0]) permanent_inventory ''p'' None
        [(''unreachable_node_list'', ''n-2'')] s1 = (Inr 0, s2))"
proof -
  have r: "fst (removal_statuses [2, 0] [''n-1'', ''n-2'']) = Inr (Some 0)" by code_simp
  then have "run_for_each (playbook_cloud [] [2, 0]) permanent_inventory ''p'' ([''n-1''] @ [''n-2'']) small_start
      = (Inr (Some 0), snd (removal_statuses [2, 0] [''n-1'', ''n-2'']))"
    by (simp add: removal_statuses_def prod_eq_iff)
  from last_playbook_decides [OF this] r show ?thesis by auto
qed

end
