(* ===== verification/Node_Selection.thy ===== *)
theory Node_Selection
  imports Reconfigure
begin

text \<open>
  Which nodes the main program of \<open>bin/resize.py\<close> removes: the nodes asked for, the nodes that
  do not answer, or the last nodes of the cluster that are not the NFS server.
\<close>

section \<open>Nodes of the inventory\<close>

text \<open>An inventory node has no OCID; the empty one stands for \<open>None\<close>.\<close>

definition inventory_node :: "string \<Rightarrow> resize_error + node" where
  "inventory_node line =
     rbind (host_address line) (\<lambda>ip.
     Inr \<lparr>node_name = py_strip (split_head ''ansible_host='' line), node_ip = ip, node_ocid = []\<rparr>)"

definition inventory_nodes :: "inventory \<Rightarrow> resize_error + node list" where
  "inventory_nodes invt =
     rbind (inventory_section invt ''compute_configured'') (\<lambda>configured.
     rbind (map_err inventory_node configured) (\<lambda>nodes.
     rbind (inventory_section invt ''compute_to_add'') (\<lambda>to_add.
     rbind (map_err inventory_node to_add) (\<lambda>more. Inr (nodes @ more)))))"

definition only_in_inventory :: "node list \<Rightarrow> node list \<Rightarrow> node list" where
  "only_in_inventory inventory_instances cn_instances =
     filter (\<lambda>n. node_name n \<notin> set (map node_name cn_instances)) inventory_instances"

section \<open>Nodes that do not answer\<close>

definition unreachable_names ::
  "'w cloud \<Rightarrow> string \<Rightarrow> string list \<Rightarrow> bool \<Rightarrow> node list \<Rightarrow> node list \<Rightarrow> string \<Rightarrow> ('w, string list) resize" where
  "unreachable_names c mode hostnames remove_unreachable cn_instances inventory_instances username =
     (if mode = ''remove_unreachable'' \<and> hostnames = []
      then cbind (getreachable c (cn_instances @ only_in_inventory inventory_instances cn_instances) username)
             (\<lambda>(_, unreachable).
           if unreachable \<noteq> [] then creturn (map node_name unreachable) else craise (Exited 1))
      else if mode = ''remove_unreachable''
      then cbind (getreachable c (filter (\<lambda>n. node_name n \<notin> set hostnames) inventory_instances) username)
             (\<lambda>_. creturn hostnames)
      else cbind (getreachable c inventory_instances username) (\<lambda>(_, unreachable).
           if unreachable = [] then creturn []
           else if remove_unreachable then creturn (map node_name unreachable)
           else craise (Exited 1)))"

section \<open>The last nodes of the cluster\<close>

text \<open>\<open>xs[i]\<close>: a negative index counts from the end.\<close>

definition py_index :: "'a list \<Rightarrow> int \<Rightarrow> resize_error + 'a" where
  "py_index xs i =
     (let j = (if i < 0 then int (length xs) + i else i)
      in if 0 \<le> j \<and> j < int (length xs) then Inr (xs ! nat j) else Inl (OtherFailure ''IndexError''))"

definition last_nodes :: "node list \<Rightarrow> int \<Rightarrow> resize_error + string list" where
  "last_nodes nodes k =
     map_err (\<lambda>i. rbind (py_index nodes i) (\<lambda>n. Inr (node_name n)))
       [int (length nodes) - k .. int (length nodes) - 1]"

definition extend_new :: "'a list \<Rightarrow> 'a list \<Rightarrow> 'a list" where
  "extend_new xs ys = foldl (\<lambda>acc y. if y \<in> set acc then acc else acc @ [y]) xs ys"

definition select_removal ::
  "string list \<Rightarrow> int option \<Rightarrow> string \<Rightarrow> node list \<Rightarrow> string list \<Rightarrow> resize_error + string list" where
  "select_removal hostnames number nfs_node cn_instances unreachable =
     (if hostnames \<noteq> [] then Inr (extend_new hostnames unreachable)
      else rbind (need (OtherFailure ''TypeError'') number) (\<lambda>n.
        let additional = n - int (length unreachable)
        in if additional \<le> 0 then Inr unreachable
           else if additional < int (length cn_instances)
           then rbind (last_nodes (filter (\<lambda>i. node_name i \<noteq> nfs_node) cn_instances) additional) (\<lambda>names.
                Inr (unreachable @ names))
           else Inr (map node_name cn_instances)))"

definition nodes_to_remove ::
  "'w cloud \<Rightarrow> string \<Rightarrow> string \<Rightarrow> string list \<Rightarrow> int option \<Rightarrow> bool \<Rightarrow> node list \<Rightarrow> node list \<Rightarrow> string
     \<Rightarrow> ('w, string list) resize" where
  "nodes_to_remove c path mode hostnames number remove_unreachable cn_instances inventory_instances username =
     cbind (unreachable_names c mode hostnames remove_unreachable cn_instances inventory_instances username)
       (\<lambda>names.
     if mode \<noteq> ''remove'' then creturn names
     else if hostnames \<noteq> [] then clift (select_removal hostnames number [] cn_instances names)
     else cbind (file_text path) (\<lambda>contents.
          cbind (clift (need (OtherFailure ''KeyError or IndexError'') (getNFSnode contents))) (\<lambda>nfs_node.
          clift (select_removal hostnames number nfs_node cn_instances names))))"

lemmas selection_equations [code] =
  unreachable_names_def [THEN fun_cong] nodes_to_remove_def [THEN fun_cong]

section \<open>What the selection promises\<close>

lemma py_index_in: "0 \<le> i \<Longrightarrow> i < int (length xs) \<Longrightarrow> py_index xs i = Inr (xs ! nat i)"
  by (simp add: py_index_def)

lemma last_nodes_drop:
  assumes "0 \<le> k" and "k \<le> int (length nodes)"
  shows "last_nodes nodes k = Inr (map node_name (drop (length nodes - nat k) nodes))"
  unfolding last_nodes_def map_err_Inr list_all2_conv_all_nth
proof (intro conjI allI impI)
  show "length [int (length nodes) - k .. int (length nodes) - 1]
      = length (map node_name (drop (length nodes - nat k) nodes))"
    using assms by auto
  fix j
  assume "j < length [int (length nodes) - k .. int (length nodes) - 1]"
  then have j: "int j < k" by auto
  then have "[int (length nodes) - k .. int (length nodes) - 1] ! j = int (length nodes) - k + int j"
    by (subst nth_upto) auto
  moreover have "py_index nodes (int (length nodes) - k + int j) = Inr (nodes ! (length nodes - nat k + j))"
    using assms j by (subst py_index_in) (auto simp: nat_add_distrib nat_diff_distrib)
  ultimately show "rbind (py_index nodes ([int (length nodes) - k .. int (length nodes) - 1] ! j))
      (\<lambda>n. Inr (node_name n)) = Inr (map node_name (drop (length nodes - nat k) nodes) ! j)"
    using assms j by (simp add: nth_drop)
qed

lemma filter_one:
  "distinct (map node_name nodes) \<Longrightarrow>
     length nodes \<le> Suc (length (filter (\<lambda>i. node_name i \<noteq> name) nodes))"
proof (induction nodes)
  case (Cons n nodes)
  have "filter (\<lambda>i. node_name i \<noteq> name) nodes = nodes" if "node_name n = name"
    using that Cons.prems by (intro filter_True) (metis distinct.simps(2) imageI list.simps(9) set_map)
  then show ?case using Cons by auto
qed simp

lemma select_last:
  fixes nfs_node :: string
  assumes "distinct (map node_name cn_instances)" and "0 < k" and "k < int (length cn_instances)"
  defines "others \<equiv> filter (\<lambda>i. node_name i \<noteq> nfs_node) cn_instances"
  shows "last_nodes others k = Inr (map node_name (drop (length others - nat k) others))"
    and "nat k \<le> length others"
proof -
  show "nat k \<le> length others"
    using filter_one [OF assms(1), of nfs_node] assms(2,3) unfolding others_def by linarith
  then show "last_nodes others k = Inr (map node_name (drop (length others - nat k) others))"
    using assms(2) by (intro last_nodes_drop) auto
qed

text \<open>
  C18: removing a positive number of nodes smaller than the cluster, when every node answers and the
  names of the nodes are distinct, takes exactly that many distinct nodes of the cluster, the last
  ones of the listing, and never the NFS server. Without these conditions it does not hold: see
  \<open>unreachable_may_be_selected_twice\<close>; and a number of at least the size takes every node.
\<close>

theorem removal_spares_nfs_server:
  assumes "distinct (map node_name cn_instances)" and "0 < n" and "n < int (length cn_instances)"
  shows "\<exists>names kept. select_removal [] (Some n) nfs_node cn_instances [] = Inr names
    \<and> int (length names) = n \<and> distinct names \<and> nfs_node \<notin> set names
    \<and> map node_name (filter (\<lambda>i. node_name i \<noteq> nfs_node) cn_instances) = kept @ names"
proof -
  let ?others = "filter (\<lambda>i. node_name i \<noteq> nfs_node) cn_instances"
  let ?names = "map node_name (drop (length ?others - nat n) ?others)"
  have "select_removal [] (Some n) nfs_node cn_instances [] = Inr ?names"
    using select_last(1) [OF assms] assms by (simp add: select_removal_def Let_def)
  moreover have "int (length ?names) = n"
    using select_last(2) [OF assms] assms(2) by auto
  moreover have split: "map node_name ?others = map node_name (take (length ?others - nat n) ?others) @ ?names"
    by (simp flip: map_append)
  moreover have "distinct (map node_name ?others)" using assms(1) by (rule distinct_map_filter)
  then have "distinct ?names" using split by (metis distinct_append)
  moreover have "nfs_node \<notin> set ?names" by (auto dest: in_set_dropD)
  ultimately show ?thesis by blast
qed

text \<open>
  Nodes that do not answer count towards the number, but are not taken out of the list the
  rest is drawn from: the selection names a node twice exactly when one of them is among the
  last nodes, and then removes fewer nodes than were asked for.
\<close>

lemma unreachable_may_be_selected_twice:
  assumes "distinct (map node_name cn_instances)" and "distinct unreachable" and "unreachable \<noteq> []"
    and "int (length unreachable) < n" and "n - int (length unreachable) < int (length cn_instances)"
  shows "\<exists>names. select_removal [] (Some n) nfs_node cn_instances unreachable = Inr (unreachable @ names)
    \<and> int (length (unreachable @ names)) = n
    \<and> (distinct (unreachable @ names) \<longleftrightarrow> set unreachable \<inter> set names = {})"
proof -
  let ?k = "n - int (length unreachable)"
  let ?others = "filter (\<lambda>i. node_name i \<noteq> nfs_node) cn_instances"
  let ?names = "map node_name (drop (length ?others - nat ?k) ?others)"
  have k: "0 < ?k" using assms(4) by simp
  have "select_removal [] (Some n) nfs_node cn_instances unreachable = Inr (unreachable @ ?names)"
    using select_last(1) [OF assms(1) k assms(5)] assms(4,5) by (simp add: select_removal_def Let_def)
  moreover have "int (length (unreachable @ ?names)) = n"
    using select_last(2) [OF assms(1) k assms(5)] k by auto
  moreover have "distinct (map node_name ?others)" using assms(1) by (rule distinct_map_filter)
  then have "distinct ?names" by (metis distinct_drop drop_map)
  ultimately show ?thesis using assms(2) by (intro exI [of _ ?names]) auto
qed

definition four_nodes :: "node list" where
  "four_nodes = map (\<lambda>name. \<lparr>node_name = name, node_ip = name, node_ocid = name\<rparr>) [''a'', ''b'', ''c'', ''d'']"

lemma removal_spares_nfs_server_witness:
  "select_removal [] (Some 3) ''c'' four_nodes [] = Inr [''a'', ''b'', ''d'']"
proof -
  have nodes: "distinct (map node_name four_nodes)" "(3 :: int) < int (length four_nodes)"
    by (simp_all add: four_nodes_def)
  from removal_spares_nfs_server [OF nodes(1) _ nodes(2), of "''c''"]
  obtain names kept where names: "select_removal [] (Some 3) ''c'' four_nodes [] = Inr names"
      "int (length names) = 3"
      "map node_name (filter (\<lambda>i. node_name i \<noteq> ''c'') four_nodes) = kept @ names" by auto
  have "[''a'', ''b'', ''d''] = kept @ names" using names(3) by (simp add: four_nodes_def)
  moreover have "kept = []" using names(2) arg_cong [OF names(3), of length] by (simp add: four_nodes_def)
  ultimately show ?thesis using names(1) by simp
qed

lemma unreachable_may_be_selected_twice_witness:
  "select_removal [] (Some 2) ''a'' four_nodes [''d''] = Inr [''d'', ''d'']"
proof -
  have nodes: "distinct (map node_name four_nodes)" "(2 :: int) - int (length [''d'']) < int (length four_nodes)"
    by (simp_all add: four_nodes_def)
  from unreachable_may_be_selected_twice [OF nodes(1) _ _ _ nodes(2), of "''a''"]
  obtain names where names: "select_removal [] (Some 2) ''a'' four_nodes [''d''] = Inr ([''d''] @ names)"
    by auto
  moreover have "select_removal [] (Some 2) ''a'' four_nodes [''d''] = Inr [''d'', ''d'']" by code_simp
  ultimately show ?thesis by simp
qed

end
