(* ===== verification/Resize_Main.thy ===== *)
theory Resize_Main
  imports Node_Selection
begin

text \<open>
  The main program of \<open>bin/resize.py\<close>: the options and what they select, the guards before
  anything is changed, finishing interrupted removals, removing nodes and adding nodes with the
  roll-back of failed additions. The command line, the controller's metadata, the lock and the
  JSON parser are inputs. A program that leaves the script by an exception ends with it.
\<close>

section \<open>Options and surroundings\<close>

record resize_args =
  a_mode :: string
  a_number :: "int option"
  a_nodes :: "string list option"
  a_no_reconfigure :: bool
  a_force :: bool
  a_crucial :: bool
  a_remove_unreachable :: bool
  a_cluster_name :: "string option"
  a_compartment :: "string option"
  a_inventory :: "string option"

text \<open>What taking the lock does: it is taken, another resize holds it, or the system refuses.\<close>

datatype lock_result = Lock_taken | Lock_busy | Lock_refused string

text \<open>
  The controller: the instance metadata, the lock, whether the marker file of a destroy exists
  and the environment variable that overrides it, the printing of times and \<open>json.load\<close>.
\<close>

record controller =
  ct_display_name :: string
  ct_compartment :: string
  ct_lock :: lock_result
  ct_marker :: bool
  ct_allow :: "string option"
  ct_stamp :: "rat \<Rightarrow> string"
  ct_parse :: "string list \<Rightarrow> char json option"

text \<open>\<open>s.replace(sub, '')\<close> for a text \<open>sub\<close> that is not empty.\<close>

function remove_all :: "string \<Rightarrow> string \<Rightarrow> string" where
  "remove_all sub [] = []"
| "remove_all sub (ch # s) =
     (if starts_with (ch # s) sub then remove_all sub (drop (length sub - 1) s)
      else ch # remove_all sub s)"
  by pat_completeness auto
termination
  by (relation "measure (\<lambda>(sub, s). length s)") auto

definition controller_cluster :: "controller \<Rightarrow> string" where
  "controller_cluster ct = remove_all ''-controller'' (ct_display_name ct)"

definition requested_cluster :: "resize_args \<Rightarrow> controller \<Rightarrow> string" where
  "requested_cluster args ct =
     (case a_cluster_name args of None \<Rightarrow> controller_cluster ct | Some name \<Rightarrow> name)"

definition requested_compartment :: "resize_args \<Rightarrow> controller \<Rightarrow> string" where
  "requested_compartment args ct =
     (case a_compartment args of None \<Rightarrow> ct_compartment ct | Some ocid \<Rightarrow> ocid)"

definition autoscaling :: "resize_args \<Rightarrow> controller \<Rightarrow> bool" where
  "autoscaling args ct \<longleftrightarrow> requested_cluster args ct \<noteq> controller_cluster ct"

text \<open>The path given with \<open>--inventory\<close> is the absolute one (\<open>os.path.abspath\<close>).\<close>

definition inventory_file :: "resize_args \<Rightarrow> controller \<Rightarrow> string" where
  "inventory_file args ct =
     (case a_inventory args of
        Some path \<Rightarrow> path
      | None \<Rightarrow>
          if autoscaling args ct
          then ''/opt/oci-hpc/autoscaling/clusters/'' @ requested_cluster args ct @ ''/inventory''
          else permanent_inventory)"

definition acquire_resize_lock :: "controller \<Rightarrow> string \<Rightarrow> resize_error + unit" where
  "acquire_resize_lock ct path =
     (case ct_lock ct of
        Lock_taken \<Rightarrow> Inr ()
      | Lock_busy \<Rightarrow>
          Inl (RuntimeError (''Another resize operation is already using inventory '' @ path))
      | Lock_refused why \<Rightarrow> Inl (OtherFailure why))"

definition ensure_cluster_is_not_being_destroyed :: "controller \<Rightarrow> string \<Rightarrow> resize_error + unit" where
  "ensure_cluster_is_not_being_destroyed ct path =
     check (RuntimeError (''Cluster deletion is already in progress for inventory '' @ path))
       (\<not> (ct_marker ct \<and> ct_allow ct \<noteq> Some ''1''))"

text \<open>
  \<open>except Exception: print(...); exit(status)\<close>, and \<open>except Exception: <handler>; raise\<close>. Neither
  catches an exit.
\<close>

definition or_exit :: "int \<Rightarrow> ('w, 'a) resize \<Rightarrow> ('w, 'a) resize" where
  "or_exit status m = ctry m
     (\<lambda>e. case e of Exited n \<Rightarrow> craise (Exited n) | Diverged \<Rightarrow> craise Diverged | _ \<Rightarrow> craise (Exited status))"

definition rescue :: "('w, 'a) resize \<Rightarrow> ('w, unit) resize \<Rightarrow> ('w, 'a) resize" where
  "rescue m handler = ctry m
     (\<lambda>e. case e of Exited n \<Rightarrow> craise (Exited n) | Diverged \<Rightarrow> craise Diverged
        | _ \<Rightarrow> cbind handler (\<lambda>_. craise e))"

text \<open>\<open>ipaddress.ip_network\<close> of an IPv4 network with a prefix length; without one it is 32.\<close>

definition parse_network :: "string \<Rightarrow> resize_error + int \<times> nat" where
  "parse_network s =
     (case split_on CHR ''/'' s of
        addr # rest \<Rightarrow>
          (case (parse_ip addr, rest) of
             (Some a, []) \<Rightarrow> Inr (a, 32)
           | (Some a, [p]) \<Rightarrow>
               if p \<noteq> [] \<and> list_all is_digit p \<and> digits_value p \<le> 32 \<and> a mod 2 ^ (32 - digits_value p) = 0
               then Inr (a, digits_value p) else Inl (ValueFailure ''not a network'')
           | _ \<Rightarrow> Inl (ValueFailure ''not a network''))
      | [] \<Rightarrow> Inl (ValueFailure ''not a network''))"

text \<open>The variables of the inventory the program reads: the session and the user name.\<close>

definition make_session ::
  "resize_args \<Rightarrow> controller \<Rightarrow> string \<Rightarrow> inventory \<Rightarrow> resize_error + session \<times> string" where
  "make_session args ct cluster invt =
     rbind (compute_username invt) (\<lambda>username.
     rbind (variable_line invt ''zone_name'') (\<lambda>zone.
     rbind (parse_bool (Inr (variable_or invt ''dns_entries'' ''true''))) (\<lambda>dns_entries.
     rbind (variable_line invt ''queue'') (\<lambda>queue.
     rbind (variable_line invt ''instance_type'') (\<lambda>instance_type.
     rbind (variable_line invt ''private_subnet'') (\<lambda>subnet.
     rbind (case subnet of None \<Rightarrow> Inr None
            | Some s \<Rightarrow> rbind (parse_network s) (\<lambda>n. Inr (Some n))) (\<lambda>network.
     Inr (\<lparr>s_cluster = cluster, s_compartment = requested_compartment args ct, s_inventory = invt,
           s_inventory_path = inventory_file args ct, s_dns = dns_entries,
           s_zone = (case zone of None \<Rightarrow> cluster @ ''.local'' | Some z \<Rightarrow> z), s_queue = queue,
           s_instance_type = (case instance_type of None \<Rightarrow> [] | Some t \<Rightarrow> t), s_subnet = network\<rparr>,
          username))))))))"

section \<open>Finishing interrupted removals\<close>

definition finalize_ready ::
  "'w cloud \<Rightarrow> session \<Rightarrow> string \<Rightarrow> cluster_kind \<Rightarrow> string \<Rightarrow> int \<Rightarrow> deletion list \<Rightarrow> ('w, nat) resize" where
  "finalize_ready c ses cid kind pool size_now ready =
     cbind (if s_dns ses
            then cbind (wait_for_running_status c (s_cluster ses) (s_compartment ses) cid kind (Some size_now) 3600)
                   (\<lambda>_. cbind (get_active_instance_identities c (s_compartment ses) cid kind size_now)
                   (\<lambda>(names, ips). creturn (Some names, Some ips)))
            else creturn (None, None)) (\<lambda>(names, ips).
     finalize_deletions c ses ready (s_cluster ses) (s_compartment ses)
       \<lparr>pv_size = Some size_now, pv_pool = Some pool, pv_names = names, pv_ips = ips\<rparr>)"

section \<open>Cleaning up a compute cluster before it is destroyed\<close>

definition terraform_document :: "controller \<Rightarrow> ('w, char doc) resize" where
  "terraform_document ct = (\<lambda>s.
     (Inr (case tf_state s of None \<Rightarrow> Absent
        | Some ls \<Rightarrow> (case ct_parse ct ls of None \<Rightarrow> Unreadable | Some v \<Rightarrow> Doc v)), s))"

definition cleanup_compute_cluster ::
  "'w cloud \<Rightarrow> session \<Rightarrow> controller \<Rightarrow> deletion list \<Rightarrow> ('w, unit) resize" where
  "cleanup_compute_cluster c ses ct ready =
     cbind (or_exit 1 (cleanup_dns_records c ses ready (s_cluster ses) (s_compartment ses))) (\<lambda>_.
     cbind (terraform_document ct) (\<lambda>state.
     cbind (clift (get_tracked_compute_cluster_resources state)) (\<lambda>tracked.
     cbind (clift (need (RuntimeError
       (''Terraform state was not found; refusing to clean up Compute Cluster instances before destroy''))
       tracked)) (\<lambda>(cluster_id, instance_ids).
     case cluster_id of
       None \<Rightarrow> craise (Exited 0)
     | Some v \<Rightarrow>
         cbind (clift (need (OtherFailure ''the Compute Cluster OCID is no text'') (as_str v))) (\<lambda>cid.
         cbind (ctry (api (get_compute_cluster c cid))
           (\<lambda>e. if e = Api (ServiceError 404) then craise (Exited 0) else craise e)) (\<lambda>(name, compartment).
         cbind (clift (check (RuntimeError
             ''Terraform state Compute Cluster identity does not match the requested cluster'')
           (name = s_cluster ses \<and> compartment = s_compartment ses))) (\<lambda>_.
         cbind (terminate_compute_cluster_instances c ses cid instance_ids) (\<lambda>_.
         craise (Exited 0)))))))))"

section \<open>Removing nodes\<close>

definition slurm_domain :: "session \<Rightarrow> int \<Rightarrow> resize_error + string" where
  "slurm_domain ses ip =
     rbind (need (OtherFailure ''AttributeError'') (s_subnet ses)) (\<lambda>subnet.
     rbind (need (ValueFailure ''address not in private_subnet'') (index_of ip (hosts subnet))) (\<lambda>index.
     rbind (need (OtherFailure ''TypeError'') (s_queue ses)) (\<lambda>queue.
     Inr (queue @ ''-'' @ s_instance_type ses @ ''-'' @ show_nat (index + 2) @ ''.'' @ s_zone ses))))"

text \<open>The last of the listed addresses of the name.\<close>

definition listed_address :: "node list \<Rightarrow> string \<Rightarrow> resize_error + int option" where
  "listed_address nodes name =
     fold_err (\<lambda>ip n. if node_name n = name
       then rbind (need (ValueFailure ''not an IP address'') (parse_ip (node_ip n))) (\<lambda>a. Inr (Some a))
       else Inr ip) None nodes"

definition remove_node_records ::
  "'w cloud \<Rightarrow> session \<Rightarrow> string \<Rightarrow> node list \<Rightarrow> string \<Rightarrow> ('w, unit) resize" where
  "remove_node_records c ses zone_id cn_instances name =
     cbind (delete_record_if_present c zone_id (name @ ''.'' @ s_zone ses)) (\<lambda>_.
     cbind (clift (listed_address cn_instances name)) (\<lambda>ip.
     case ip of
       None \<Rightarrow> creturn ()
     | Some a \<Rightarrow> cbind (clift (slurm_domain ses a)) (\<lambda>domain. delete_record_if_present c zone_id domain)))"

definition remove_found_node ::
  "'w cloud \<Rightarrow> session \<Rightarrow> string option \<Rightarrow> node list \<Rightarrow> string option \<Rightarrow> cluster_kind \<Rightarrow> string \<Rightarrow> string
     \<Rightarrow> ('w, unit) resize" where
  "remove_found_node c ses zone_id cn_instances pool kind name iid =
     cbind (if kind \<noteq> CC
       then cbind (clift (need (RuntimeError (''The private IP for instance '' @ name @ '' was not found''))
                (find (\<lambda>n. node_ocid n = iid) cn_instances))) (\<lambda>n.
            cbind (clift (need (OtherFailure ''NameError'') pool)) (\<lambda>ipa_ocid.
            remove_pool_member c ses (s_compartment ses) ipa_ocid iid (node_ip n)))
       else cbind (terminate_and_delete c ses iid 1800 None) (\<lambda>_. creturn None)) (\<lambda>pending.
     case (s_dns ses \<and> pending = None, zone_id) of
       (True, Some zone) \<Rightarrow> remove_node_records c ses zone cn_instances name
     | _ \<Rightarrow> creturn ())"

definition remove_node ::
  "'w cloud \<Rightarrow> session \<Rightarrow> string option \<Rightarrow> node list \<Rightarrow> string option \<Rightarrow> cluster_kind \<Rightarrow> string
     \<Rightarrow> ('w, unit) resize" where
  "remove_node c ses zone_id cn_instances pool kind name =
     ctry (cbind (find_cluster_instance_by_name c (s_compartment ses) name (s_cluster ses)) (\<lambda>found.
           case found of
             None \<Rightarrow> creturn ()
           | Some (iid, _) \<Rightarrow> remove_found_node c ses zone_id cn_instances pool kind name iid))
       (\<lambda>e. if e = Api (ServiceError 404) then creturn () else craise e)"

text \<open>The removal playbook decides whether the instances are touched.\<close>

definition announce_removal ::
  "'w cloud \<Rightarrow> session \<Rightarrow> resize_env \<Rightarrow> resize_args \<Rightarrow> string list \<Rightarrow> ('w, unit) resize" where
  "announce_removal c ses env args names =
     (if a_no_reconfigure args then creturn ()
      else cbind (destroy_unreachable_reconfigure c ses env (s_inventory_path ses) names
                    (playbooks_dir @ ''resize_remove_unreachable.yml'')) (\<lambda>error_code.
           if error_code \<noteq> 0 \<and> \<not> a_force args then craise (Exited 1) else creturn ()))"

definition known_summary ::
  "'w cloud \<Rightarrow> session \<Rightarrow> ('w, cluster_summary \<times> (string \<times> int) option \<times> cluster_kind) resize" where
  "known_summary c ses =
     cbind (get_summary c (s_compartment ses) (s_cluster ses)) (\<lambda>found.
     clift (need (OtherFailure ''AttributeError'') found))"

text \<open>Recording the new size: of what is left of a compute cluster, or of the pool.\<close>

definition record_removal ::
  "'w cloud \<Rightarrow> session \<Rightarrow> string \<Rightarrow> ('w, cluster_kind) resize" where
  "record_removal c ses cid =
     cbind (known_summary c ses) (\<lambda>(cs, pool, kind).
     case pool of
       None \<Rightarrow> cbind (get_instances c (s_compartment ses) cid kind) (\<lambda>_. creturn kind)
     | Some (ipa_ocid, newsize) \<Rightarrow>
         cbind (retry_deletions c ses (s_cluster ses) (s_compartment ses) False) (\<lambda>ready.
         cbind (if ready \<noteq> []
                then cbind (finalize_ready c ses (cs_id cs) kind ipa_ocid newsize ready) (\<lambda>_. creturn ())
                else cbind (updateTFState c (s_inventory_path ses) newsize) (\<lambda>_. creturn ())) (\<lambda>_.
         creturn kind)))"

text \<open>The size read before the removals, which an addition starts from.\<close>

definition terminate_listed ::
  "'w cloud \<Rightarrow> session \<Rightarrow> resize_env \<Rightarrow> string option \<Rightarrow> node list \<Rightarrow> string option
     \<Rightarrow> int option \<Rightarrow> string list \<Rightarrow> ('w, cluster_kind \<times> int option) resize" where
  "terminate_listed c ses env zone_id cn_instances pool current_size names =
     cbind (known_summary c ses) (\<lambda>(_, summary, kind).
     let current_size = (case summary of None \<Rightarrow> current_size | Some (_, n) \<Rightarrow> Some n)
     in cbind (cfold (\<lambda>_ name. remove_node c ses zone_id cn_instances pool kind name) () names) (\<lambda>_.
        cbind (record_removal c ses (re_cid env)) (\<lambda>kind.
        creturn (kind, current_size))))"

definition remove_nodes ::
  "'w cloud \<Rightarrow> session \<Rightarrow> resize_env \<Rightarrow> resize_args \<Rightarrow> string option \<Rightarrow> node list \<Rightarrow> string option
     \<Rightarrow> int option \<Rightarrow> string list \<Rightarrow> ('w, cluster_kind \<times> int option) resize" where
  "remove_nodes c ses env args zone_id cn_instances pool current_size names =
     cbind (announce_removal c ses env args names) (\<lambda>_.
     terminate_listed c ses env zone_id cn_instances pool current_size names)"

section \<open>Adding nodes\<close>

definition launch_details ::
  "'w cloud \<Rightarrow> session \<Rightarrow> string \<Rightarrow> string \<times> cloud_instance \<Rightarrow> int \<Rightarrow> bool \<times> volume_config \<Rightarrow> int
     \<Rightarrow> ('w, launch_request) resize" where
  "launch_details c ses cid template max_index config index =
     cbind (api (list_vnic_attachments c (s_compartment ses) (fst template))) (\<lambda>attachments.
     cbind (clift (need (OtherFailure ''UnboundLocalError'')
       (foldl (\<lambda>v a. if vnic_name a = None then Some (vnic_subnet a) else v) None attachments))) (\<lambda>subnet.
     let name = launch_display_name (instance_name (snd template)) max_index index
     in creturn \<lparr>lr_template = fst template, lr_compartment = s_compartment ses, lr_cluster = cid,
          lr_name = name, lr_tags = launch_freeform_tags (instance_tags (snd template)) (fst config) (snd config),
          lr_subnet = subnet, lr_volumes = launch_volume_attachments name (fst config) (snd config)\<rparr>))"

definition check_local_volume :: "'w cloud \<Rightarrow> session \<Rightarrow> string \<Rightarrow> ('w, unit) resize" where
  "check_local_volume c ses iid =
     cbind (api (get_instance c iid)) (\<lambda>inst.
     cbind (clift (get_instance_config iid inst (s_inventory ses) (s_cluster ses))) (\<lambda>expected_config.
     cbind (get_local_block_volume_attachment c (s_compartment ses) iid 300 expected_config (s_cluster ses) inst)
       (\<lambda>_. creturn ())))"

definition launch_one ::
  "'w cloud \<Rightarrow> session \<Rightarrow> bool \<Rightarrow> launch_request \<Rightarrow> ('w, unit) resize" where
  "launch_one c ses enabled req =
     cbind (request (Asked_launch req) (launch_instance c req)) (\<lambda>iid.
     if enabled then check_local_volume c ses iid else creturn ())"

text \<open>
  The launches of indices \<open>i, ..., i + k - 1\<close>: the exception that ended them, if any, and the
  names launched so far, the one that failed included.
\<close>

fun launch_all ::
  "'w cloud \<Rightarrow> session \<Rightarrow> string \<Rightarrow> string \<times> cloud_instance \<Rightarrow> int \<Rightarrow> bool \<times> volume_config \<Rightarrow> nat \<Rightarrow> int
     \<Rightarrow> string list \<Rightarrow> ('w, resize_error option \<times> string list) resize" where
  "launch_all c ses cid template max_index config 0 i launched = creturn (None, launched)"
| "launch_all c ses cid template max_index config (Suc k) i launched =
     cbind (attempt (launch_details c ses cid template max_index config i)) (\<lambda>details.
     case details of
       Inl e \<Rightarrow> creturn (Some e, launched)
     | Inr req \<Rightarrow>
         cbind (attempt (launch_one c ses (fst config) req)) (\<lambda>r.
         case r of
           Inl e \<Rightarrow> creturn (Some e, launched @ [lr_name req])
         | Inr _ \<Rightarrow> launch_all c ses cid template max_index config k (i + 1) (launched @ [lr_name req])))"

definition node_index :: "node \<Rightarrow> resize_error + int" where
  "node_index n = need (ValueFailure ''invalid literal for int()'')
     (py_int (last (split_on CHR ''-'' (node_name n))))"

definition take_back :: "'w cloud \<Rightarrow> session \<Rightarrow> string list \<Rightarrow> ('w, unit) resize" where
  "take_back c ses launched =
     cbind (rollback_compute_cluster_instances c ses launched) (\<lambda>_. creturn ())"

definition launch_nodes ::
  "'w cloud \<Rightarrow> session \<Rightarrow> string \<Rightarrow> node list \<Rightarrow> bool \<times> volume_config \<Rightarrow> int \<Rightarrow> ('w, string list) resize" where
  "launch_nodes c ses cid cn_instances config number =
     (case cn_instances of
        [] \<Rightarrow> craise (Exited 1)
      | first # _ \<Rightarrow>
          cbind (clift (map_err node_index cn_instances)) (\<lambda>indices.
          cbind (api (get_instance c (node_ocid first))) (\<lambda>inst.
          cbind (launch_all c ses cid (node_ocid first, inst) (fold max indices (-1)) config (nat number) 0 [])
            (\<lambda>(failure, launched).
          case failure of
            None \<Rightarrow> creturn launched
          | Some e \<Rightarrow> rescue (craise e) (take_back c ses launched)))))"

definition grow_pool ::
  "'w cloud \<Rightarrow> session \<Rightarrow> string \<Rightarrow> cluster_kind \<Rightarrow> string \<Rightarrow> int \<Rightarrow> int \<Rightarrow> ('w, unit) resize" where
  "grow_pool c ses cid kind pool new_size rollback_size =
     rescue (cbind (request (Asked_resize pool new_size) (update_pool_size c pool new_size)) (\<lambda>_.
             cbind (wait_for_running_status c (s_cluster ses) (s_compartment ses) cid kind (Some new_size) 3600)
               (\<lambda>_. creturn ())))
       (rollback_instance_pool_size c pool rollback_size)"

text \<open>The checks after an addition: the size, and that exactly the requested nodes are new.\<close>

definition verify_addition ::
  "'w cloud \<Rightarrow> session \<Rightarrow> string \<Rightarrow> node list \<Rightarrow> int \<Rightarrow> int \<Rightarrow> bool \<Rightarrow> ('w, cluster_kind \<times> node list \<times> node list) resize" where
  "verify_addition c ses cid previous expected_size number enabled =
     cbind (get_summary c (s_compartment ses) (s_cluster ses)) (\<lambda>found.
     cbind (clift (need (RuntimeError (''Cluster '' @ s_cluster ses @ '' was not found after adding instances''))
       found)) (\<lambda>(_, _, kind).
     cbind (get_instances c (s_compartment ses) cid kind) (\<lambda>nodes.
     cbind (clift (check (RuntimeError (''Cluster has '' @ show_int (int (length nodes)) @ '' instances, expected ''
         @ show_int expected_size)) (int (length nodes) = expected_size))) (\<lambda>_.
     let new_nodes = filter (\<lambda>n. node_ocid n \<notin> set (map node_ocid previous)) nodes
     in cbind (clift (check (RuntimeError (''Cluster added '' @ show_int (int (length new_nodes))
            @ '' instances, expected '' @ show_int number)) (int (length new_nodes) = number))) (\<lambda>_.
        cbind (if enabled then cfold (\<lambda>_ n. check_local_volume c ses (node_ocid n)) () new_nodes
               else creturn ()) (\<lambda>_.
        creturn (kind, nodes, new_nodes)))))))"

definition add_node_records ::
  "'w cloud \<Rightarrow> session \<Rightarrow> string \<Rightarrow> node \<Rightarrow> ('w, unit) resize" where
  "add_node_records c ses zone_id n =
     cbind (clift (need (ValueFailure ''not an IP address'') (parse_ip (node_ip n)))) (\<lambda>ip.
     cbind (clift (slurm_domain ses ip)) (\<lambda>domain.
     cbind (request (Asked_update_record zone_id domain (node_ip n))
       (update_rr_set c zone_id domain (node_ip n))) (\<lambda>_.
     let own = node_name n @ ''.'' @ s_zone ses
     in request (Asked_update_record zone_id own (node_ip n)) (update_rr_set c zone_id own (node_ip n)))))"

text \<open>
  Growing the cluster and checking the result; what a failed check takes back depends on how the
  nodes were added. The result is the kind, the nodes, and the new nodes.
\<close>

definition grow_cluster ::
  "'w cloud \<Rightarrow> session \<Rightarrow> string \<Rightarrow> cluster_kind \<Rightarrow> string option \<Rightarrow> int option \<Rightarrow> bool \<times> volume_config
     \<Rightarrow> int \<Rightarrow> int \<Rightarrow> ('w, cluster_kind \<times> node list \<times> node list) resize" where
  "grow_cluster c ses cid kind pool current_size config removed number =
     cbind (get_instances c (s_compartment ses) cid kind) (\<lambda>previous.
     if kind = CC
     then cbind (launch_nodes c ses cid previous config number) (\<lambda>launched.
          rescue (verify_addition c ses cid previous (int (length previous) + number) number (fst config))
            (if launched = [] then creturn () else take_back c ses launched))
     else cbind (clift (need (OtherFailure ''NameError'') pool)) (\<lambda>ipa_ocid.
          cbind (clift (need (OtherFailure ''NameError'') current_size)) (\<lambda>size_before.
          cbind (grow_pool c ses cid kind ipa_ocid (size_before - removed + number) (size_before - removed)) (\<lambda>_.
          rescue (verify_addition c ses cid previous (size_before - removed + number) number (fst config))
            (rollback_instance_pool_size c ipa_ocid (size_before - removed))))))"

definition add_nodes ::
  "'w cloud \<Rightarrow> session \<Rightarrow> resize_env \<Rightarrow> resize_args \<Rightarrow> string option \<Rightarrow> string option \<Rightarrow> int option
     \<Rightarrow> bool \<times> volume_config \<Rightarrow> int \<Rightarrow> int \<Rightarrow> ('w, unit) resize" where
  "add_nodes c ses env args zone_id pool current_size config removed number =
     cbind (grow_cluster c ses (re_cid env) (re_kind env) pool current_size config removed number)
       (\<lambda>(kind, nodes, new_nodes).
     cbind (case zone_id of
         None \<Rightarrow> creturn ()
       | Some zone \<Rightarrow> cfold (\<lambda>_ n. add_node_records c ses zone n) () new_nodes) (\<lambda>_.
     cbind (updateTFState c (s_inventory_path ses) (int (length nodes))) (\<lambda>_.
     if a_no_reconfigure args then creturn ()
     else cbind (add_reconfigure c ses (env\<lparr>re_kind := kind\<rparr>) (s_inventory_path ses) None) (\<lambda>status.
          if status \<noteq> 0 then craise (Exited status) else creturn ()))))"

section \<open>The program\<close>

definition find_zone :: "'w cloud \<Rightarrow> session \<Rightarrow> ('w, string option) resize" where
  "find_zone c ses =
     (if \<not> s_dns ses then creturn None
      else cbind (api (list_zones c (s_compartment ses) (s_zone ses))) (\<lambda>zones.
           case zones of
             [] \<Rightarrow> craise (RuntimeError (''Private DNS zone '' @ s_zone ses @ '' was not found''))
           | z # _ \<Rightarrow> creturn (Some z)))"

text \<open>The modes \<open>add\<close>, \<open>remove\<close> and \<open>remove_unreachable\<close>.\<close>

definition change_nodes ::
  "'w cloud \<Rightarrow> session \<Rightarrow> resize_env \<Rightarrow> resize_args \<Rightarrow> string \<Rightarrow> (string \<times> int) option
     \<Rightarrow> bool \<times> volume_config \<Rightarrow> ('w, unit) resize" where
  "change_nodes c ses env args username pool config =
     (let hostnames = (case a_nodes args of None \<Rightarrow> [] | Some hs \<Rightarrow> hs)
      in cbind (wait_for_running_status c (s_cluster ses) (s_compartment ses) (re_cid env) (re_kind env) None 3600)
           (\<lambda>_.
         cbind (get_instances c (s_compartment ses) (re_cid env) (re_kind env)) (\<lambda>cn_instances.
         cbind (find_zone c ses) (\<lambda>zone_id.
         cbind (clift (inventory_nodes (s_inventory ses))) (\<lambda>inventory_instances.
         cbind (nodes_to_remove c (s_inventory_path ses) (a_mode args) hostnames (a_number args)
                  (a_remove_unreachable args) cn_instances inventory_instances username) (\<lambda>names.
         cbind (if names \<noteq> []
                then remove_nodes c ses env args zone_id cn_instances (map_option fst pool)
                       (map_option snd pool) names
                else creturn (re_kind env, map_option snd pool)) (\<lambda>(kind, current_size).
         if a_mode args = ''add''
         then cbind (clift (need (OtherFailure ''TypeError'') (a_number args))) (\<lambda>number.
              add_nodes c ses (env\<lparr>re_kind := kind\<rparr>) args zone_id (map_option fst pool) current_size config
                (int (length names)) number)
         else creturn ())))))))"

definition running_cluster ::
  "'w cloud \<Rightarrow> session \<Rightarrow> ('w, cluster_summary \<times> (string \<times> int) option \<times> cluster_kind) resize" where
  "running_cluster c ses =
     cbind (get_summary c (s_compartment ses) (s_cluster ses)) (\<lambda>found.
     clift (need (Exited 1) found))"

text \<open>Journalled removals that are ready are finished first; a removal then ends the run.\<close>

definition finish_ready ::
  "'w cloud \<Rightarrow> session \<Rightarrow> resize_args \<Rightarrow> string \<Rightarrow> cluster_kind \<Rightarrow> (string \<times> int) option \<Rightarrow> deletion list
     \<Rightarrow> ('w, unit) resize" where
  "finish_ready c ses args cid kind pool ready =
     (if ready = [] then creturn ()
      else case pool of
          None \<Rightarrow> craise (RuntimeError
            ''An Instance Pool local Block Volume deletion cannot be finalized as a Compute Cluster'')
        | Some (ipa_ocid, current_size) \<Rightarrow>
            cbind (or_exit 1 (finalize_ready c ses cid kind ipa_ocid current_size ready)) (\<lambda>_.
            if a_mode args \<in> set [''remove'', ''remove_unreachable''] then craise (Exited 0) else creturn ()))"

definition resize_cluster ::
  "'w cloud \<Rightarrow> session \<Rightarrow> resize_args \<Rightarrow> controller \<Rightarrow> string \<Rightarrow> bool \<times> volume_config \<Rightarrow> deletion list
     \<Rightarrow> ('w, unit) resize" where
  "resize_cluster c ses args ct username config ready =
     cbind (running_cluster c ses) (\<lambda>(cs, pool, kind).
     let env = \<lparr>re_cid = cs_id cs, re_kind = kind, re_remove_unreachable = a_remove_unreachable args,
           re_autoscaling = autoscaling args ct, re_stamp = ct_stamp ct\<rparr>
     in cbind (finish_ready c ses args (cs_id cs) kind pool ready) (\<lambda>_.
        if a_mode args = ''list''
        then cbind (get_instances c (s_compartment ses) (cs_id cs) kind) (\<lambda>_. creturn ())
        else if a_mode args = ''reconfigure''
        then cbind (case a_nodes args of
               Some (h # hs) \<Rightarrow> add_reconfigure c ses env (s_inventory_path ses) (Some (h # hs))
             | _ \<Rightarrow> reconfigure c ses env (s_inventory_path ses) (a_crucial args)) (\<lambda>status.
             craise (Exited status))
        else change_nodes c ses env args username pool config))"

definition check_number :: "resize_args \<Rightarrow> resize_error + unit" where
  "check_number args =
     (if a_mode args = ''remove'' \<and> a_number args = None \<and> a_nodes args = None then Inl (Exited 0)
      else if a_mode args = ''add'' \<and> a_number args = None then Inl (Exited 0)
      else case a_number args of
          Some n \<Rightarrow> if a_mode args \<in> set [''add'', ''remove''] \<and> n \<le> 0 then Inl (Exited 1) else Inr ()
        | None \<Rightarrow> Inr ())"

text \<open>The cluster the inventory names, for the mode that prepares an inventory.\<close>

definition named_cluster :: "resize_args \<Rightarrow> controller \<Rightarrow> inventory \<Rightarrow> resize_error + string" where
  "named_cluster args ct invt =
     (if a_mode args \<noteq> ''prepare_local_block_volume'' then Inr (requested_cluster args ct)
      else case get_inventory_variable invt ''cluster_name'' of
          None \<Rightarrow> Inl (Exited 1)
        | Some name \<Rightarrow>
            if name = [] \<or> (a_cluster_name args \<noteq> None \<and> requested_cluster args ct \<noteq> name)
            then Inl (Exited 1) else Inr name)"

text \<open>The volume configuration is not read in that mode.\<close>

definition no_config :: "bool \<times> volume_config" where
  "no_config = (False, \<lparr>cfg_size = 0, cfg_vpus = 0, cfg_mount = []\<rparr>)"

definition volume_settings_of :: "resize_args \<Rightarrow> inventory \<Rightarrow> resize_error + bool \<times> volume_config" where
  "volume_settings_of args invt =
     (if a_mode args = ''prepare_local_block_volume'' then Inr no_config
      else case get_local_block_volume_config invt of
          Inl (ValueFailure _) \<Rightarrow> Inl (Exited 1)
        | r \<Rightarrow> r)"

text \<open>Everything before the first request to the cloud.\<close>

definition prepare_session ::
  "resize_args \<Rightarrow> controller \<Rightarrow> string option
     \<Rightarrow> resize_error + session \<times> string \<times> (bool \<times> volume_config)" where
  "prepare_session args ct contents =
     rbind (need (Exited 1) (parse_inventory contents)) (\<lambda>invt.
     rbind (named_cluster args ct invt) (\<lambda>cluster.
     rbind (volume_settings_of args invt) (\<lambda>config.
     rbind (make_session args ct cluster invt) (\<lambda>(ses, username).
     rbind (check_number args) (\<lambda>_. Inr (ses, username, config))))))"

definition may_start :: "resize_args \<Rightarrow> controller \<Rightarrow> ('w, unit) resize" where
  "may_start args ct = or_exit 1 (clift
     (rbind (acquire_resize_lock ct (inventory_file args ct)) (\<lambda>_.
      ensure_cluster_is_not_being_destroyed ct (inventory_file args ct))))"

definition resize_main :: "'w cloud \<Rightarrow> resize_args \<Rightarrow> controller \<Rightarrow> ('w, unit) resize" where
  "resize_main c args ct =
     cbind (may_start args ct) (\<lambda>_.
     cbind (file_text (inventory_file args ct)) (\<lambda>contents.
     cbind (clift (prepare_session args ct contents)) (\<lambda>(ses, username, config).
     if a_mode args = ''prepare_local_block_volume''
     then cbind (or_exit 1 (prepare_local_block_volume_inventory c (s_inventory_path ses) 300)) (\<lambda>_.
          craise (Exited 0))
     else cbind (or_exit 1 (process_for_operation c ses (s_cluster ses) (s_compartment ses) (a_mode args)
                  (case a_nodes args of None \<Rightarrow> [] | Some hs \<Rightarrow> hs))) (\<lambda>ready.
          if a_mode args = ''cleanup_compute_cluster'' then cleanup_compute_cluster c ses ct ready
          else resize_cluster c ses args ct username config ready))))"

lemmas main_equations [code] =
  or_exit_def [THEN fun_cong] rescue_def [THEN fun_cong] finalize_ready_def [THEN fun_cong]
  terraform_document_def [THEN fun_cong] cleanup_compute_cluster_def [THEN fun_cong]
  remove_node_records_def [THEN fun_cong] remove_found_node_def [THEN fun_cong]
  remove_node_def [THEN fun_cong] announce_removal_def [THEN fun_cong]
  known_summary_def [THEN fun_cong] record_removal_def [THEN fun_cong]
  terminate_listed_def [THEN fun_cong] remove_nodes_def [THEN fun_cong]
  launch_details_def [THEN fun_cong] check_local_volume_def [THEN fun_cong]
  launch_one_def [THEN fun_cong] take_back_def [THEN fun_cong] launch_nodes_def [THEN fun_cong]
  grow_pool_def [THEN fun_cong] verify_addition_def [THEN fun_cong]
  add_node_records_def [THEN fun_cong] grow_cluster_def [THEN fun_cong]
  add_nodes_def [THEN fun_cong] find_zone_def [THEN fun_cong] change_nodes_def [THEN fun_cong]
  running_cluster_def [THEN fun_cong] finish_ready_def [THEN fun_cong]
  resize_cluster_def [THEN fun_cong] may_start_def [THEN fun_cong] resize_main_def [THEN fun_cong]
  launch_all.simps [THEN fun_cong]

end
