(* ===== verification/Resize_Safety.thy ===== *)
theory Resize_Safety
  imports Resize_Main
begin

text \<open>
  What a run of \<open>bin/resize.py\<close> may ask for: refused runs change nothing, each mode is limited to
  its requests, nodes are removed only after the removal playbook, and a failed addition is taken
  back.
\<close>

section \<open>Requests of a command\<close>

definition asks :: "(event \<Rightarrow> bool) \<Rightarrow> 'w run \<Rightarrow> 'w run \<Rightarrow> bool" where
  "asks P s s' \<longleftrightarrow> (\<exists>new. trace s' = trace s @ new \<and> list_all (\<lambda>(ev, _). P ev) new)"

named_theorems ask_intros \<open>what commands may ask for\<close>

lemma asks_refl [simp, intro]: "asks P s s"
  by (simp add: asks_def)

lemma asks_trans: "asks P s t \<Longrightarrow> asks P t v \<Longrightarrow> asks P s v"
  by (auto simp: asks_def)

lemma asks_rel [intro]: "reflp (asks P)" "transp (asks P)"
  by (auto intro: reflpI transpI asks_trans)

lemma asks_same: "trace s' = trace s \<Longrightarrow> asks P s s'"
  by (simp add: asks_def)

lemma asks_pure [ask_intros]:
  "keeps (asks P) (creturn x)" "keeps (asks P) (craise e)" "keeps (asks P) (clift r)"
  by auto

lemma asks_cbind [ask_intros]:
  "keeps (asks P) m \<Longrightarrow> (\<And>x. keeps (asks P) (f x)) \<Longrightarrow> keeps (asks P) (cbind m f)"
  by auto

lemma asks_ctry [ask_intros]:
  "keeps (asks P) m \<Longrightarrow> (\<And>e. keeps (asks P) (h e)) \<Longrightarrow> keeps (asks P) (ctry m h)"
  by auto

lemma asks_cfold [ask_intros]:
  "(\<And>acc x. keeps (asks P) (f acc x)) \<Longrightarrow> keeps (asks P) (cfold f acc xs)"
  by (rule keeps_cfold) auto

lemma asks_on_error [ask_intros]:
  "(\<And>n. keeps R (m1 n)) \<Longrightarrow> keeps R m2 \<Longrightarrow> keeps R m3 \<Longrightarrow>
     keeps R (case e of Exited n \<Rightarrow> m1 n | Diverged \<Rightarrow> m2 | _ \<Rightarrow> m3)"
  by (cases e) auto

lemmas asks_branch [ask_intros] =
  keeps_branch [where R = "asks P" for P] keeps_split [where R = "asks P" for P]

lemma asks_bool [ask_intros]:
  "(b \<Longrightarrow> keeps (asks P) m) \<Longrightarrow> (\<not> b \<Longrightarrow> keeps (asks P) n) \<Longrightarrow>
     keeps (asks P) (case b of True \<Rightarrow> m | False \<Rightarrow> n)"
  by (cases b) auto

lemma quiet_asks: "quiet (\<lambda>ev j. P ev) s s' \<Longrightarrow> asks P s s'"
  by (fastforce simp: quiet_def asks_def list_all_iff)

lemma keeps_quiet_asks: "keeps (quiet (\<lambda>ev j. P ev)) m \<Longrightarrow> keeps (asks P) m"
  by (auto intro!: keepsI quiet_asks dest: keepsD)

lemma keeps_asks_mono: "keeps (quiet Q) m \<Longrightarrow> (\<And>ev j. Q ev j \<Longrightarrow> P ev) \<Longrightarrow> keeps (asks P) m"
  by (rule keeps_quiet_asks) (auto intro!: keepsI elim!: quiet_mono dest: keepsD)

lemma asks_request [ask_intros]: "P ev \<Longrightarrow> keeps (asks P) (request ev call)"
  by (intro keeps_quiet_asks quiet_intros)

lemma asks_reading [ask_intros]: "(\<And>x. P (ev x)) \<Longrightarrow> keeps (asks P) (reading ev call)"
  by (intro keeps_quiet_asks quiet_intros)

lemma asks_world [ask_intros]:
  "keeps (asks P) (api call)" "keeps (asks P) (clock c)" "keeps (asks P) (sleep c t)"
  by (intro keeps_quiet_asks quiet_intros)+

lemma asks_attempt [ask_intros]: "keeps (asks P) m \<Longrightarrow> keeps (asks P) (attempt m)"
  unfolding attempt_def by (intro ask_intros)

lemma asks_rescue [ask_intros]:
  "keeps (asks P) m \<Longrightarrow> keeps (asks P) h \<Longrightarrow> keeps (asks P) (rescue m h)"
  unfolding rescue_def by (intro ask_intros)

lemma asks_or_exit [ask_intros]: "keeps (asks P) m \<Longrightarrow> keeps (asks P) (or_exit n m)"
  unfolding or_exit_def by (intro ask_intros)

section \<open>Files and the journal\<close>

lemma asks_files [ask_intros]:
  "keeps (asks P) (file_text p)" "keeps (asks P) (put_file c p t)" "keeps (asks P) (remove_file p)"
  "keeps (asks P) (move_file p q)" "keeps (asks P) (sudo_move c p q)" "keeps (asks P) (load_inventory p)"
  "keeps (asks P) (terraform_document ct)" "keeps (asks P) load_deletions"
  "keeps (asks P) permanent_hosts_exist"
  by (auto intro!: keepsI asks_same simp: file_text_def put_file_def remove_file_def move_file_def
      sudo_move_def load_inventory_def terraform_document_def load_deletions_def permanent_hosts_exist_def
      cbind_apply api_def split: prod.splits sum.splits option.splits bool.splits)

lemma asks_write_inventory [ask_intros]: "keeps (asks P) (write_inventory_atomic c invt p)"
  by (rule keepsI) (auto dest!: write_inventory_atomic_cases intro: asks_same split: sum.splits)

lemma asks_write_deletions [ask_intros]: "keeps (asks P) (write_deletions c rs)"
  unfolding write_deletions_def put_journal_def
  by (rule keepsI) (auto intro: asks_same simp: cbind_apply split: prod.splits sum.splits write_outcome.splits if_splits)

lemma asks_update: "(\<And>s. trace (g s) = trace s) \<Longrightarrow> keeps (asks P) (\<lambda>s. (Inr x, g s))"
  by (auto intro!: keepsI asks_same)

lemma asks_push [ask_intros]:
  assumes "\<And>ls. P (Asked_push ls)"
  shows "keeps (asks P) (updateTFState c path n)"
proof (rule keepsI)
  fix s r s'
  assume "updateTFState c path n s = (r, s')"
  from updateTFState_cases [OF this] have "trace s' = trace s \<or> (\<exists>b. size_pushed c n b s s')"
    by (auto simp: update_failed_def update_done_def split: sum.splits if_splits)
  then show "asks P s s'" using assms by (auto simp: asks_def size_pushed_def)
qed

section \<open>Looking at the cluster\<close>

lemma asks_view [ask_intros]:
  "keeps (asks P) (get_instances c compartment cid kind)"
  "keeps (asks P) (get_active_instance_identities c compartment cid kind n)"
  "keeps (asks P) (get_summary c compartment cluster)"
  "keeps (asks P) (wait_for_running_status c cluster compartment cid kind m w)"
  "keeps (asks P) (getreachable c nodes username)"
  "keeps (asks P) (is_pool_member c compartment pool iid)"
  "keeps (asks P) (pending_instance_state c cluster r)"
  by (intro keeps_quiet_asks quiet_intros)+

lemma asks_find [ask_intros]:
  "keeps (asks P) (find_cluster_instance_by_name c compartment name cluster)"
  unfolding find_cluster_instance_by_name_def by (intro ask_intros)

lemma asks_selection [ask_intros]:
  "keeps (asks P) (nodes_to_remove c path mode hostnames n b nodes invts username)"
  unfolding nodes_to_remove_def unreachable_names_def by (intro ask_intros)

text \<open>Reading volumes and attachments is remembered too.\<close>

definition watches :: "(event \<Rightarrow> bool) \<Rightarrow> bool" where
  "watches P \<longleftrightarrow> (\<forall>ev. \<not> is_change ev \<longrightarrow> P ev)"

lemma reading_watched: "watches P \<Longrightarrow> is_reading ev j \<Longrightarrow> P ev"
  by (cases ev) (auto simp: watches_def is_reading_def is_change_def)

lemma asks_quiet_reading: "watches P \<Longrightarrow> keeps (quiet is_reading) m \<Longrightarrow> keeps (asks P) m"
  by (erule keeps_asks_mono) (auto intro: reading_watched)

lemma saw_watched: "watches P \<Longrightarrow> P (Saw_volume v x)" "watches P \<Longrightarrow> P (Saw_attachments i as)"
  by (auto simp: watches_def is_change_def)

section \<open>What a run may be permitted\<close>

text \<open>
  To finish the removals of the journal; to remove nodes besides; to add nodes besides.
\<close>

definition retries :: "(event \<Rightarrow> bool) \<Rightarrow> bool" where
  "retries P \<longleftrightarrow> watches P \<and> (\<forall>i. P (Asked_terminate i False)) \<and> (\<forall>v. P (Asked_delete_volume v))
     \<and> (\<forall>z d. P (Asked_delete_record z d)) \<and> (\<forall>ls. P (Asked_push ls))"

definition removes :: "(event \<Rightarrow> bool) \<Rightarrow> bool" where
  "removes P \<longleftrightarrow> retries P \<and> (\<forall>i b. P (Asked_terminate i b)) \<and> (\<forall>p i. P (Asked_detach p i))
     \<and> (\<forall>t p vs n. P (Ran_playbook t p vs n))"

definition adds :: "(event \<Rightarrow> bool) \<Rightarrow> bool" where
  "adds P \<longleftrightarrow> removes P \<and> (\<forall>p n. P (Asked_resize p n)) \<and> (\<forall>req. P (Asked_launch req))
     \<and> (\<forall>z d ip. P (Asked_update_record z d ip))"

lemma permitted [intro]:
  "retries P \<Longrightarrow> watches P" "removes P \<Longrightarrow> retries P" "adds P \<Longrightarrow> removes P"
  by (auto simp: retries_def removes_def adds_def)

lemma requests_permitted:
  "retries P \<Longrightarrow> P (Asked_terminate i False)" "retries P \<Longrightarrow> P (Asked_delete_volume v)"
  "retries P \<Longrightarrow> P (Asked_delete_record z d)" "retries P \<Longrightarrow> P (Asked_push ls)"
  "removes P \<Longrightarrow> P (Asked_terminate i b)" "removes P \<Longrightarrow> P (Asked_detach p i)"
  "removes P \<Longrightarrow> P (Ran_playbook t q vs n)"
  "adds P \<Longrightarrow> P (Asked_resize p m)" "adds P \<Longrightarrow> P (Asked_launch req)" "adds P \<Longrightarrow> P (Asked_update_record z d ip)"
  by (auto simp: retries_def removes_def adds_def)

lemmas permissions = saw_watched requests_permitted

section \<open>Removing instances and volumes\<close>

lemma asks_delete_volume [ask_intros]:
  assumes "watches P" and "P (Asked_delete_volume vid)"
  shows "keeps (asks P) (delete_managed_volume c vid w)"
  using assms by (intro keeps_quiet_asks delete_managed_volume_quiet) (auto intro: saw_watched)

lemma asks_terminate_kept [ask_intros]:
  "(\<And>j. P (Asked_terminate iid b)) \<Longrightarrow> keeps (asks P) (terminate_and_delete c ses iid w (Some b))"
  by (intro keeps_quiet_asks terminate_and_delete_quiet)

lemma asks_terminate:
  assumes "watches P" and "\<And>b. P (Asked_terminate iid b)"
  shows "keeps (asks P) (terminate_and_delete c ses iid w d)"
proof (rule keeps_asks_mono)
  show "keeps (quiet (termination_event {iid})) (terminate_and_delete c ses iid w d)"
    by (rule terminate_quiet) simp
  show "termination_event {iid} ev j \<Longrightarrow> P ev" for ev j
    using assms by (auto simp: termination_event_def intro: saw_watched split: event.splits)
qed

lemma asks_detach [ask_intros]:
  "P (Asked_detach pool iid) \<Longrightarrow> keeps (asks P) (detach_if_needed c compartment pool iid)"
  by (intro keeps_quiet_asks quiet_intros)

lemma asks_retry [ask_intros]:
  assumes "retries P" and "\<And>pool i. resume \<Longrightarrow> P (Asked_detach pool i)"
  shows "keeps (asks P) (retry_deletions c ses cluster compartment resume)"
proof -
  have "keeps (asks P) (retire_instance c ses compartment resume r)" for r
    unfolding retire_instance_def Let_def by (intro ask_intros) (use assms in \<open>blast intro: permissions\<close>)+
  moreover have "keeps (asks P) (delete_checked c cluster compartment r)" for r
  proof -
    have "keeps (asks P) (if_found (read_volume c (volume_id r)))"
      using assms(1) by (intro asks_quiet_reading quiet_intros) (auto simp: is_reading_def intro: permissions)
    then show ?thesis
      unfolding delete_checked_def by (intro ask_intros) (use assms in \<open>blast intro: permissions\<close>)+
  qed
  ultimately show ?thesis
    unfolding retry_deletions_def retry_one_def by (intro ask_intros)
qed

lemma asks_delete_record [ask_intros]:
  "retries P \<Longrightarrow> keeps (asks P) (delete_record_if_present c z d)"
  "retries P \<Longrightarrow> keeps (asks P) (delete_records c z ds)"
  unfolding delete_records_def delete_record_if_present_def by (intro ask_intros; blast intro: permissions)+

lemma asks_finalize [ask_intros]:
  assumes "retries P"
  shows "keeps (asks P) (finalize_deletions c ses ready cluster compartment view)"
    and "keeps (asks P) (cleanup_dns_records c ses ready cluster compartment)"
    and "keeps (asks P) (finalize_ready c ses cid kind pool n ready)"
  unfolding finalize_ready_def finalize_deletions_def finalize_dns_def cleanup_dns_records_def Let_def
  by (intro ask_intros; use assms in \<open>blast intro: permissions\<close>)+

lemma asks_process:
  assumes "retries P"
    and "\<And>pool i. mode \<in> set [''cleanup_compute_cluster'', ''remove'', ''remove_unreachable''] \<Longrightarrow> P (Asked_detach pool i)"
  shows "keeps (asks P) (process_for_operation c ses cluster compartment mode names)"
  unfolding process_for_operation_def Let_def by (intro ask_intros assms) auto

section \<open>Playbooks\<close>

lemma asks_playbook [ask_intros]:
  assumes "\<And>t p vs n. P (Ran_playbook t p vs n)"
  shows "keeps (asks P) (run_playbook c path playbook vars)"
    and "keeps (asks P) (update_cluster c path playbook hostfile vars)"
    and "keeps (asks P) (run_for_each c path playbook targets)"
  unfolding run_for_each_def update_cluster_def run_playbook_def settle_do_not_edit_def
  by (intro ask_intros; use assms in \<open>blast intro: permissions\<close>)+

lemma asks_prepare [ask_intros]:
  assumes "watches P"
  shows "keeps (asks P) (prepare_local_block_volume_inventory c path w)"
proof (rule keepsI)
  have "keeps (asks P) (prepare_section c cluster w acc sect)" for cluster acc sect
    by (intro asks_quiet_reading assms prepare_section_quiet)
  note steps = this
  fix s r s'
  assume "prepare_local_block_volume_inventory c path w s = (r, s')"
  then show "asks P s s'"
    unfolding prepare_local_block_volume_inventory_def by (rule keepsD [rotated]) (intro ask_intros steps)
qed

lemma asks_reconfigure [ask_intros]:
  assumes "watches P" and "\<And>t p vs n. P (Ran_playbook t p vs n)"
  shows "keeps (asks P) (destroy_unreachable_reconfigure c ses env path names playbook)"
    and "keeps (asks P) (add_reconfigure c ses env path specific)"
    and "keeps (asks P) (reconfigure c ses env path crucial)"
  unfolding destroy_unreachable_reconfigure_def add_reconfigure_def reconfigure_def backup_inventory_def
    install_without_def install_added_def
  by (intro ask_intros assms)+

section \<open>Removing and adding nodes\<close>

lemma asks_pool_member [ask_intros]:
  assumes "removes P"
  shows "keeps (asks P) (remove_pool_member c ses compartment pool iid ip)"
proof -
  have one: "keeps (asks P) (get_exclusive_attachment c ses compartment iid)"
    and two: "keeps (asks P) (build_record c ses compartment pool iid ip vid)" for vid
    using assms by (intro asks_quiet_reading quiet_intros; blast)+
  show ?thesis
    unfolding remove_pool_member_def journal_removal_def remember_deletion_def
    by (intro ask_intros one two) (use assms in \<open>blast intro: permissions\<close>)+
qed

lemma asks_announce [ask_intros]: "removes P \<Longrightarrow> keeps (asks P) (announce_removal c ses env args names)"
  unfolding announce_removal_def by (intro ask_intros) (blast intro: permissions)+

lemma asks_terminate_listed [ask_intros]:
  assumes "removes P"
  shows "keeps (asks P) (terminate_listed c ses env zone nodes pool n names)"
proof -
  have "keeps (asks P) (remove_node c ses zone nodes pool kind name)" for kind name
    unfolding remove_node_def remove_found_node_def remove_node_records_def
    by (intro ask_intros asks_terminate) (use assms in \<open>blast intro: permissions\<close>)+
  moreover have "keeps (asks P) (known_summary c ses)"
    unfolding known_summary_def by (intro ask_intros)
  moreover then have "keeps (asks P) (record_removal c ses cid)" for cid
    unfolding record_removal_def by (intro ask_intros) (use assms in \<open>blast intro: permissions\<close>)+
  ultimately show ?thesis
    unfolding terminate_listed_def Let_def by (intro ask_intros)
qed

lemma asks_remove_nodes [ask_intros]:
  "removes P \<Longrightarrow> keeps (asks P) (remove_nodes c ses env args zone nodes pool n names)"
  unfolding remove_nodes_def by (intro ask_intros)

lemma asks_check_volume [ask_intros]: "watches P \<Longrightarrow> keeps (asks P) (check_local_volume c ses iid)"
  unfolding check_local_volume_def
  by (intro ask_intros asks_quiet_reading quiet_intros) (auto simp: is_reading_def intro: permissions)

lemma asks_rollback [ask_intros]:
  assumes "removes P"
  shows "keeps (asks P) (rollback_compute_cluster_instances c ses names)"
    and "keeps (asks P) (take_back c ses names)"
  unfolding take_back_def rollback_compute_cluster_instances_def
  by (intro ask_intros asks_terminate; use assms in \<open>blast intro: permissions\<close>)+

lemma asks_rollback_size [ask_intros]:
  "P (Asked_resize pool n) \<Longrightarrow> keeps (asks P) (rollback_instance_pool_size c pool n)"
  unfolding rollback_instance_pool_size_def by (intro ask_intros)

lemma asks_launch_all [ask_intros]:
  assumes "adds P"
  shows "keeps (asks P) (launch_all c ses cid template m config k i launched)"
proof (induction k arbitrary: i launched)
  case 0
  show ?case unfolding launch_all.simps by (rule asks_pure)
next
  case (Suc k)
  show ?case
    unfolding launch_all.simps launch_one_def launch_details_def Let_def
    by (intro ask_intros Suc) (use assms in \<open>blast intro: permissions\<close>)+
qed

lemma asks_add_nodes [ask_intros]:
  assumes "adds P"
  shows "keeps (asks P) (add_nodes c ses env args zone pool n config removed number)"
proof -
  have "keeps (asks P) (verify_addition c ses cid previous m number b)" for cid previous m b
    unfolding verify_addition_def Let_def by (intro ask_intros) (use assms in \<open>blast intro: permissions\<close>)+
  moreover have "keeps (asks P) (launch_nodes c ses cid nodes config number)" for cid nodes
    unfolding launch_nodes_def by (intro ask_intros) (use assms in \<open>blast intro: permissions\<close>)+
  moreover have "keeps (asks P) (grow_pool c ses cid kind pool n m)" for cid kind pool n m
    unfolding grow_pool_def by (intro ask_intros) (use assms in \<open>blast intro: permissions\<close>)+
  ultimately have "keeps (asks P) (grow_cluster c ses cid kind pool n config removed number)" for cid kind
    unfolding grow_cluster_def by (intro ask_intros) (use assms in \<open>blast intro: permissions\<close>)+
  then show ?thesis
    unfolding add_nodes_def add_node_records_def Let_def by (intro ask_intros) (use assms in \<open>blast intro: permissions\<close>)+
qed

section \<open>Each mode is limited to its requests\<close>

text \<open>
  What a run in a mode may do: a preparation only reads; listing and reconfiguring never take a
  node out of its pool and only terminate nodes whose removal is in the journal, without their
  volumes; only an addition changes the size of a pool, launches nodes or adds DNS records;
  listing, cleaning up and preparing run no playbook.
\<close>

definition mode_allows :: "string \<Rightarrow> event \<Rightarrow> bool" where
  "mode_allows mode ev =
     (let prepares = (mode = ''prepare_local_block_volume''); cleans = (mode = ''cleanup_compute_cluster'');
          lists = (mode = ''list''); reconfigures = (mode = ''reconfigure'')
      in case ev of
        Saw_volume _ _ \<Rightarrow> True
      | Saw_attachments _ _ \<Rightarrow> True
      | Asked_detach _ _ \<Rightarrow> \<not> prepares \<and> \<not> lists \<and> \<not> reconfigures
      | Asked_terminate _ with_volumes \<Rightarrow> \<not> prepares \<and> (\<not> with_volumes \<or> (\<not> lists \<and> \<not> reconfigures))
      | Asked_delete_volume _ \<Rightarrow> \<not> prepares
      | Asked_delete_record _ _ \<Rightarrow> \<not> prepares
      | Asked_push _ \<Rightarrow> \<not> prepares
      | Asked_resize _ _ \<Rightarrow> mode = ''add''
      | Asked_launch _ \<Rightarrow> mode = ''add''
      | Asked_update_record _ _ _ \<Rightarrow> mode = ''add''
      | Ran_playbook _ _ _ _ \<Rightarrow> \<not> prepares \<and> \<not> cleans \<and> \<not> lists)"

lemma mode_watches [simp]: "watches (mode_allows mode)"
  by (auto simp: watches_def mode_allows_def is_change_def Let_def split: event.splits)

lemma mode_retries: "mode \<noteq> ''prepare_local_block_volume'' \<Longrightarrow> retries (mode_allows mode)"
  by (auto simp: retries_def mode_allows_def Let_def)

lemma mode_removes:
  "mode \<notin> set [''list'', ''reconfigure'', ''cleanup_compute_cluster'', ''prepare_local_block_volume''] \<Longrightarrow>
     removes (mode_allows mode)"
  by (simp add: removes_def mode_retries) (simp add: mode_allows_def)

lemma mode_adds: "mode = ''add'' \<Longrightarrow> adds (mode_allows mode)"
  by (simp add: adds_def mode_removes) (simp add: mode_allows_def)

lemma asks_change_nodes:
  assumes "a_mode args \<notin> set [''list'', ''reconfigure'', ''cleanup_compute_cluster'', ''prepare_local_block_volume'']"
  shows "keeps (asks (mode_allows (a_mode args))) (change_nodes c ses env args username pool config)"
  unfolding change_nodes_def find_zone_def Let_def
  by (intro ask_intros mode_adds mode_removes assms)

lemma asks_cleanup:
  assumes "a_mode args = ''cleanup_compute_cluster''"
  shows "keeps (asks (mode_allows (a_mode args))) (cleanup_compute_cluster c ses ct ready)"
proof -
  have terminated: "keeps (asks (mode_allows (a_mode args))) (terminate_compute_cluster_instances c ses cid excluded)" for cid excluded
    unfolding terminate_compute_cluster_instances_def terminate_each_def assms
    by (intro ask_intros asks_terminate) (auto simp: mode_allows_def)
  show ?thesis
    unfolding cleanup_compute_cluster_def
    by (intro ask_intros mode_retries terminated) (simp add: assms)
qed

lemma asks_resize_cluster:
  assumes "a_mode args \<notin> set [''cleanup_compute_cluster'', ''prepare_local_block_volume'']"
  shows "keeps (asks (mode_allows (a_mode args))) (resize_cluster c ses args ct username config ready)"
proof -
  have playbooks: "mode_allows (a_mode args) (Ran_playbook t p vs n)"
    if "a_mode args = ''reconfigure''" for t p vs n
    by (simp add: that mode_allows_def)
  have "keeps (asks (mode_allows (a_mode args))) (change_nodes c ses env args username pool config)"
    if "a_mode args \<noteq> ''list''" "a_mode args \<noteq> ''reconfigure''" for env pool
    using that assms by (intro asks_change_nodes) auto
  moreover have "retries (mode_allows (a_mode args))" using assms by (intro mode_retries) auto
  ultimately show ?thesis
    unfolding resize_cluster_def running_cluster_def finish_ready_def Let_def
    by (intro ask_intros playbooks; simp)
qed

text \<open>
  C8: a run is limited to the requests of its mode. Whatever the options, the inventory, the
  journal and the answers of the cloud are, and however the run ends, everything it asked for is
  allowed in its mode: in particular, listing and reconfiguring a cluster never launch, resize or
  detach anything, and preparing an inventory requests nothing at all.
\<close>

theorem mode_limits_requests:
  "\<exists>new. trace (snd (resize_main c args ct s)) = trace s @ new
     \<and> list_all (\<lambda>(ev, _). mode_allows (a_mode args) ev) new"
proof -
  have detach: "mode_allows mode (Asked_detach pool i)"
    if "mode \<in> set [''cleanup_compute_cluster'', ''remove'', ''remove_unreachable'']" for mode pool i
    using that by (auto simp: mode_allows_def)
  have "keeps (asks (mode_allows (a_mode args))) (resize_main c args ct)"
    unfolding resize_main_def may_start_def
    by (intro ask_intros mode_watches mode_retries asks_process detach asks_cleanup asks_resize_cluster; simp)
  then have "asks (mode_allows (a_mode args)) s (snd (resize_main c args ct s))"
    by (rule keepsD) (rule surjective_pairing)
  then show ?thesis by (simp add: asks_def)
qed

section \<open>Refused runs\<close>

text \<open>
  C12: a run that is refused changes nothing. When another resize holds the lock of the inventory,
  when the cluster is being destroyed, when there is no inventory, or when the number of nodes to
  add or to remove is missing or not positive, the run ends without a call to the cloud, without a
  request and without touching a file; a lock that is not taken or a destroy in progress end it
  with status 1.
\<close>

theorem refused_run_changes_nothing:
  assumes "ct_lock ct \<noteq> Lock_taken \<or> (ct_marker ct \<and> ct_allow ct \<noteq> Some ''1'')
    \<or> read_file (inventory_file args ct) s = None
    \<or> (a_mode args = ''add'' \<and> a_number args = None)
    \<or> (a_mode args = ''remove'' \<and> a_number args = None \<and> a_nodes args = None)
    \<or> (\<exists>n. a_mode args \<in> set [''add'', ''remove''] \<and> a_number args = Some n \<and> n \<le> 0)"
  shows "\<exists>e. resize_main c args ct s = (Inl e, s)
    \<and> (ct_lock ct \<noteq> Lock_taken \<or> (ct_marker ct \<and> ct_allow ct \<noteq> Some ''1'') \<longrightarrow> e = Exited 1)"
proof (cases "ct_lock ct \<noteq> Lock_taken \<or> (ct_marker ct \<and> ct_allow ct \<noteq> Some ''1'')")
  case True
  then have "\<exists>e. rbind (acquire_resize_lock ct (inventory_file args ct)) (\<lambda>_.
      ensure_cluster_is_not_being_destroyed ct (inventory_file args ct)) = Inl e \<and> e \<noteq> Diverged \<and> (\<forall>n. e \<noteq> Exited n)"
    by (auto simp: acquire_resize_lock_def ensure_cluster_is_not_being_destroyed_def check_def
        split: lock_result.splits)
  then have "may_start args ct s = (Inl (Exited 1), s)"
    by (auto simp: may_start_def or_exit_def ctry_apply split: resize_error.split)
  then show ?thesis by (simp add: resize_main_def cbind_run)
next
  case False
  then have started: "may_start args ct s = (Inr (), s)"
    by (auto simp: may_start_def or_exit_def ctry_apply acquire_resize_lock_def
        ensure_cluster_is_not_being_destroyed_def check_def split: lock_result.splits)
  let ?session = "prepare_session args ct (read_file (inventory_file args ct) s)"
  have "\<exists>e. ?session = Inl e"
  proof (cases "read_file (inventory_file args ct) s")
    case None
    then show ?thesis by (simp add: prepare_session_def parse_inventory_def need_def)
  next
    case (Some contents)
    with assms False have "\<exists>e. check_number args = Inl e"
      by (auto simp: check_number_def split: option.split)
    then show ?thesis
      by (auto simp: prepare_session_def rbind_def split: sum.split)
  qed
  then obtain e where "?session = Inl e" by blast
  then have "resize_main c args ct s = (Inl e, s)"
    using started by (simp add: resize_main_def cbind_run)
  with False show ?thesis by blast
qed

text \<open>A controller, the options of an addition, and an inventory to run on.\<close>

definition sample_controller :: controller where
  "sample_controller = \<lparr>ct_display_name = ''hpc-controller'', ct_compartment = ''c'', ct_lock = Lock_taken,
     ct_marker = False, ct_allow = None, ct_stamp = (\<lambda>_. ''stamp''), ct_parse = (\<lambda>_. None)\<rparr>"

definition sample_args :: resize_args where
  "sample_args = \<lparr>a_mode = ''add'', a_number = Some 1, a_nodes = None, a_no_reconfigure = False, a_force = False,
     a_crucial = False, a_remove_unreachable = False, a_cluster_name = None, a_compartment = None, a_inventory = None\<rparr>"

lemma refused_run_changes_nothing_witness:
  "resize_main refusing_cloud sample_args (sample_controller\<lparr>ct_lock := Lock_busy\<rparr>) small_start
     = (Inl (Exited 1), small_start)"
  using refused_run_changes_nothing [of "sample_controller\<lparr>ct_lock := Lock_busy\<rparr>" sample_args small_start refusing_cloud]
  by simp

section \<open>Nodes are removed only after the playbook\<close>

definition changes :: "'w run \<Rightarrow> 'w run \<Rightarrow> event list \<Rightarrow> bool" where
  "changes s s' evs \<longleftrightarrow> (\<exists>new. trace s' = trace s @ new \<and> filter is_change (map fst new) = evs)"

lemma changes_none: "asks (\<lambda>ev. \<not> is_change ev) s s' \<Longrightarrow> changes s s' []"
  by (fastforce simp: asks_def changes_def list_all_iff filter_empty_conv)

lemma changes_trans: "changes s t evs \<Longrightarrow> changes t v evs' \<Longrightarrow> changes s v (evs @ evs')"
  by (auto simp: changes_def)

lemma changes_some: "\<exists>evs. changes s s' evs" if "asks P s s'"
  using that by (auto simp: asks_def changes_def)

lemma changes_request:
  assumes "request ev call s = (r, s')" and "is_change ev"
  shows "changes s s' [ev]"
proof -
  have "trace s' = trace s @ [(ev, journal s)]"
    using assms(1) by (auto simp: request_def record_event_def api_def cbind_apply split: prod.splits sum.splits)
  then show ?thesis using assms(2) by (auto simp: changes_def)
qed

text \<open>Commands that change nothing in the cloud and run no playbook.\<close>

lemma looking [simp]: "watches (\<lambda>ev. \<not> is_change ev)"
  by (simp add: watches_def)

lemma changes_looking: "keeps (asks (\<lambda>ev. \<not> is_change ev)) m \<Longrightarrow> m s = (r, s') \<Longrightarrow> changes s s' []"
  by (auto intro: changes_none dest: keepsD)

text \<open>A removal runs the playbook, once per node; the last entry is the one of the run that decided.\<close>

definition playbook_runs :: "event list \<Rightarrow> bool" where
  "playbook_runs evs \<longleftrightarrow> list_all (\<lambda>ev. case ev of Ran_playbook _ _ _ _ \<Rightarrow> True | _ \<Rightarrow> False) evs"

definition succeeded :: "event \<Rightarrow> bool" where
  "succeeded ev \<longleftrightarrow> (case ev of Ran_playbook _ _ _ status \<Rightarrow> status = 0 | _ \<Rightarrow> False)"

lemma playbook_runs_simps [simp]:
  "playbook_runs []" "playbook_runs [Ran_playbook t p vs n]"
  "playbook_runs (evs @ evs') \<longleftrightarrow> playbook_runs evs \<and> playbook_runs evs'"
  by (auto simp: playbook_runs_def)

text \<open>When \<open>m\<close> returns a value that is \<open>ok\<close>, its last event is a playbook run that succeeded.\<close>

definition ended_by :: "('a \<Rightarrow> bool) \<Rightarrow> 'w run \<Rightarrow> resize_error + 'a \<Rightarrow> 'w run \<Rightarrow> bool" where
  "ended_by ok s r s' \<longleftrightarrow> (\<exists>evs. changes s s' evs \<and> playbook_runs evs
     \<and> (\<forall>x. r = Inr x \<and> ok x \<longrightarrow> evs \<noteq> [] \<and> succeeded (last evs)))"

definition decides :: "('a \<Rightarrow> bool) \<Rightarrow> ('w, 'a) resize \<Rightarrow> bool" where
  "decides ok m \<longleftrightarrow> (\<forall>s r s'. m s = (r, s') \<longrightarrow> ended_by ok s r s')"

lemma decidesD: "decides ok m \<Longrightarrow> m s = (r, s') \<Longrightarrow> ended_by ok s r s'"
  by (simp add: decides_def)

lemma ended_none: "changes s s' [] \<Longrightarrow> (\<And>x. r = Inr x \<Longrightarrow> \<not> ok x) \<Longrightarrow> ended_by ok s r s'"
  unfolding ended_by_def by (intro exI [of _ "[]"]) auto

lemma ended_later: "changes s t [] \<Longrightarrow> ended_by ok t r s' \<Longrightarrow> ended_by ok s r s'"
  unfolding ended_by_def using changes_trans [of s t "[]"] by fastforce

lemma ended_before:
  "ended_by ok s r t \<Longrightarrow> changes t s' [] \<Longrightarrow> (\<And>y. r' = Inr y \<Longrightarrow> ok' y \<Longrightarrow> \<exists>x. r = Inr x \<and> ok x) \<Longrightarrow>
     ended_by ok' s r' s'"
  unfolding ended_by_def using changes_trans [of s t _ s' "[]"] by fastforce

lemma ended_both:
  "ended_by ok s (Inr x) t \<Longrightarrow> ended_by ok' t r s' \<Longrightarrow> ended_by ok' s r s'"
  unfolding ended_by_def using changes_trans [of s t _ s'] by fastforce

lemma decides_after:
  assumes "keeps (asks (\<lambda>ev. \<not> is_change ev)) m" and "\<And>x. decides ok (f x)"
  shows "decides ok (cbind m f)"
  unfolding decides_def
  by (auto elim!: cbind_cases intro: ended_none ended_later changes_looking [OF assms(1)] decidesD [OF assms(2)])

lemma decides_then:
  assumes "decides ok m" and "\<And>x. keeps (asks (\<lambda>ev. \<not> is_change ev)) (f x)"
    and "\<And>x s y s'. f x s = (Inr y, s') \<Longrightarrow> ok' y \<Longrightarrow> ok x"
  shows "decides ok' (cbind m f)"
  unfolding decides_def
proof (intro allI impI)
  fix s r s'
  assume "cbind m f s = (r, s')"
  then show "ended_by ok' s r s'"
  proof (cases rule: cbind_cases)
    case (raised e)
    then show ?thesis by (auto intro: ended_before [OF decidesD [OF assms(1)]] simp: changes_def)
  next
    case (went_on x s1)
    then show ?thesis
      using assms(3) by (auto intro: ended_before [OF decidesD [OF assms(1)]] changes_looking [OF assms(2)])
  qed
qed

lemma decides_split: "(\<And>a b. decides ok (f a b)) \<Longrightarrow> decides ok (case p of (a, b) \<Rightarrow> f a b)"
  by (cases p) simp

lemma run_playbook_decides: "decides (\<lambda>n. n = 0) (run_playbook c path playbook vars)"
  unfolding decides_def
proof (intro allI impI)
  fix s r s'
  assume run: "run_playbook c path playbook vars s = (r, s')"
  let ?ev = "Ran_playbook (read_file path s) playbook vars"
  have "reading ?ev (ansible_playbook c (read_file path s) playbook vars) s = (r, s')"
    using run by (simp add: run_playbook_def)
  then consider e where "r = Inl e" "trace s' = trace s"
    | status where "r = Inr status" "trace s' = trace s @ [(?ev status, journal s)]"
    by (auto simp: reading_def record_event_def api_def cbind_apply split: prod.splits sum.splits)
  then show "ended_by (\<lambda>n. n = 0) s r s'"
    by cases (auto simp: ended_by_def changes_def succeeded_def is_change_def)
qed

lemma update_cluster_decides: "decides (\<lambda>n. n = 0) (update_cluster c path playbook None vars)"
proof -
  have "keeps (asks (\<lambda>ev. \<not> is_change ev)) (settle_do_not_edit path status)" for status
    unfolding settle_do_not_edit_def by (intro ask_intros)
  moreover have "settle_do_not_edit path status s = (Inr 0, s') \<Longrightarrow> status = 0" for status s and s' :: "'a run"
    by (auto simp: settle_do_not_edit_def cbind_Inr_iff split: if_splits)
  ultimately have "decides (\<lambda>n. n = 0) (cbind (run_playbook c path playbook vars) (settle_do_not_edit path))"
    by (intro decides_then [OF run_playbook_decides]) auto
  then show ?thesis
    unfolding update_cluster_def option.case cbind_creturn by (intro decides_after ask_intros) simp
qed

lemma run_for_each_decides: "decides (\<lambda>flag. flag = Some 0) (run_for_each c path playbook targets)"
proof -
  let ?run = "\<lambda>node. cbind (update_cluster c path playbook None [(''unreachable_node_list'', node)])
      (\<lambda>flag. cbind (sleep c 10) (\<lambda>_. creturn (Some flag)))"
  have one: "decides (\<lambda>flag. flag = Some 0) (?run node)" for node
    by (intro decides_then [OF update_cluster_decides] ask_intros) auto
  have all: "ended_by (\<lambda>flag. flag = Some 0 \<and> targets \<noteq> []) s r s'"
    if "cfold (\<lambda>_ node. ?run node) flag targets s = (r, s')" for flag s r s'
    using that
  proof (induction targets arbitrary: flag s)
    case Nil
    then show ?case by (auto intro: ended_none simp: changes_def)
  next
    case (Cons node targets)
    from Cons.prems show ?case
      unfolding cfold.simps
    proof (cases rule: cbind_cases)
      case (raised e)
      then show ?thesis by (auto intro: ended_before [OF decidesD [OF one]] simp: changes_def)
    next
      case (went_on flag' s1)
      show ?thesis
      proof (cases "targets = []")
        case True
        then show ?thesis using went_on
          by (auto intro: ended_before [OF decidesD [OF one]] simp: changes_def)
      next
        case False
        from ended_both [OF decidesD [OF one, OF went_on(1) [simplified]] Cons.IH [OF went_on(2)]] False
        show ?thesis by simp
      qed
    qed
  qed
  show ?thesis
    unfolding decides_def
  proof (intro allI impI)
    fix s r s'
    assume run: "run_for_each c path playbook targets s = (r, s')"
    then have "targets = [] \<Longrightarrow> r = Inr None" by (auto simp: run_for_each_def)
    then show "ended_by (\<lambda>flag. flag = Some 0) s r s'"
      using all [OF run [unfolded run_for_each_def]] by (auto simp: ended_by_def)
  qed
qed

lemma destroy_unreachable_decides:
  "decides (\<lambda>n. n = 0) (destroy_unreachable_reconfigure c ses env path names playbook)"
proof -
  let ?tmp = "mangled path @ ''_destroy''"
  have "keeps (asks (\<lambda>ev. \<not> is_change ev)) (install_without c path ?tmp invt flag)" for invt flag
    unfolding install_without_def by (intro ask_intros)
  moreover have "flag = 0" if "install_without c path ?tmp invt flag s = (Inr 0, s')" for invt flag s and s' :: "'a run"
    using that by (auto simp: install_without_def cbind_Inr_iff split: if_splits)
  ultimately have final: "decides (\<lambda>n. n = 0) (cbind (run_for_each c ?tmp playbook targets) (\<lambda>flag.
     cbind (clift (need (OtherFailure ''UnboundLocalError'') flag)) (install_without c path ?tmp invt)))" for targets invt
    by (intro decides_then [OF run_for_each_decides] ask_intros) (auto simp: cbind_Inr_iff)
  show ?thesis
    unfolding destroy_unreachable_reconfigure_def backup_inventory_def
    by (rule final | rule decides_after decides_split | rule ask_intros)+
qed

text \<open>
  C11: unless \<open>--force\<close> or \<open>--no_reconfigure\<close> is given, nodes are removed only after the removal
  playbook: whatever a removal asks of the cloud (detaching, terminating, deleting volumes or DNS
  records, recording the size) comes after the playbook runs, and only if the last run succeeded.
\<close>

theorem nodes_go_only_after_playbook:
  assumes "\<not> a_no_reconfigure args" and "\<not> a_force args"
    and "remove_nodes c ses env args zone nodes pool n names s = (r, s')"
  shows "\<exists>runs rest. changes s s' (runs @ rest) \<and> playbook_runs runs
    \<and> (rest = [] \<or> (runs \<noteq> [] \<and> succeeded (last runs)))"
proof -
  let ?announce = "destroy_unreachable_reconfigure c ses env (s_inventory_path ses) names
      (playbooks_dir @ ''resize_remove_unreachable.yml'')"
  have announced: "ended_by (\<lambda>_. True) s q t" if "announce_removal c ses env args names s = (q, t)" for q t
  proof -
    have "decides (\<lambda>_. True) (announce_removal c ses env args names)"
      using assms(1,2) unfolding announce_removal_def
      by (simp, intro decides_then [OF destroy_unreachable_decides] ask_intros) (auto split: if_splits)
    then show ?thesis using that by (rule decidesD)
  qed
  from assms(3) show ?thesis
    unfolding remove_nodes_def
  proof (cases rule: cbind_cases)
    case (raised e)
    then show ?thesis using announced [OF raised(1)] by (force simp: ended_by_def)
  next
    case (went_on u s1)
    obtain runs where "changes s s1 runs" "playbook_runs runs" "runs \<noteq> []" "succeeded (last runs)"
      using announced [OF went_on(1)] by (auto simp: ended_by_def)
    moreover obtain rest where "changes s1 s' rest" 
      using changes_some [OF keepsD [OF asks_terminate_listed went_on(2)], of "\<lambda>_. True"] by (auto simp: removes_def retries_def watches_def)
    ultimately show ?thesis using changes_trans by blast
  qed
qed

definition small_session :: session where
  "small_session = sample_session\<lparr>s_inventory_path := permanent_inventory\<rparr>"

definition sample_node_removal :: "(resize_error + cluster_kind \<times> int option) \<times> nat run" where
  "sample_node_removal = remove_nodes (playbook_cloud [''i1''] [1]) small_session small_env sample_args None [] None None
     [''n-i1''] small_start"

lemma sample_node_removal_refused:
  "fst sample_node_removal = Inl (Exited 1) \<and> length (trace (snd sample_node_removal)) = 1"
  by code_simp

lemma nodes_go_only_after_playbook_witness:
  "\<exists>runs rest. changes small_start (snd sample_node_removal) (runs @ rest) \<and> playbook_runs runs
    \<and> (rest = [] \<or> (runs \<noteq> [] \<and> succeeded (last runs)))"
proof -
  have "remove_nodes (playbook_cloud [''i1''] [1]) small_session small_env sample_args None [] None None
     [''n-i1''] small_start = (fst sample_node_removal, snd sample_node_removal)"
    by (simp add: sample_node_removal_def)
  from nodes_go_only_after_playbook [OF _ _ this] show ?thesis by (simp add: sample_args_def)
qed

section \<open>A failed addition is taken back\<close>

text \<open>The exceptions \<open>except Exception\<close> catches.\<close>

definition is_exception :: "resize_error \<Rightarrow> bool" where
  "is_exception e \<longleftrightarrow> (case e of Exited _ \<Rightarrow> False | Diverged \<Rightarrow> False | _ \<Rightarrow> True)"

lemma rescue_cases:
  assumes "rescue m h s = (r, s')"
  obtains (untouched) "m s = (r, s')" "\<And>e. r = Inl e \<Longrightarrow> \<not> is_exception e"
  | (rescued) e s1 q where "m s = (Inl e, s1)" "is_exception e" "h s1 = (q, s')"
      "r = (case q of Inl e' \<Rightarrow> Inl e' | Inr _ \<Rightarrow> Inl e)"
proof -
  obtain r1 s1 where m: "m s = (r1, s1)" by fastforce
  show thesis
  proof (cases r1)
    case (Inr x)
    then have "m s = (r, s')" "\<And>e. r = Inl e \<Longrightarrow> \<not> is_exception e"
      using assms m by (auto simp: rescue_def ctry_apply)
    then show thesis by (rule untouched)
  next
    case (Inl e)
    show thesis
    proof (cases "is_exception e")
      case False
      then show thesis using assms m Inl untouched
        by (cases e) (auto simp: rescue_def ctry_apply is_exception_def)
    next
      case True
      obtain q s2 where h: "h s1 = (q, s2)" by fastforce
      have "rescue m h s = cbind h (\<lambda>_. craise e) s1"
        using m Inl True by (cases e) (simp_all add: rescue_def ctry_apply is_exception_def)
      then have "(r, s') = (case q of Inl e' \<Rightarrow> Inl e' | Inr _ \<Rightarrow> Inl e, s2)"
        using assms h by (auto simp: cbind_apply split: sum.splits)
      then show thesis using rescued [of e s1 q] m Inl True h by auto
    qed
  qed
qed

lemma rollback_size_changes:
  assumes "rollback_instance_pool_size c pool n s = (r, s')"
  shows "r = Inr () \<and> changes s s' [Asked_resize pool n]"
proof -
  obtain q s1 where run: "request (Asked_resize pool n) (update_pool_size c pool n) s = (q, s1)" by fastforce
  then have "q \<noteq> Inl Diverged" "\<And>k. q \<noteq> Inl (Exited k)"
    by (auto simp: request_def record_event_def api_def cbind_apply split: prod.splits sum.splits)
  then have "attempt (request (Asked_resize pool n) (update_pool_size c pool n)) s = (Inr q, s1)"
    using run by (cases q) (auto simp: attempt_def ctry_apply cbind_apply split: resize_error.split)
  then show ?thesis
    using assms changes_request [OF run]
    by (simp add: rollback_instance_pool_size_def cbind_run is_change_def)
qed

lemma verify_looks: "keeps (asks (\<lambda>ev. \<not> is_change ev)) (verify_addition c ses cid previous m number b)"
  unfolding verify_addition_def Let_def by (intro ask_intros looking)

text \<open>What a pool is asked for, depending on how growing it ended.\<close>

definition grown_or_restored :: "string \<Rightarrow> int \<Rightarrow> int \<Rightarrow> resize_error + 'a \<Rightarrow> event list \<Rightarrow> bool" where
  "grown_or_restored pool new_size old_size r evs \<longleftrightarrow>
     evs = Asked_resize pool new_size # (case r of
         Inr _ \<Rightarrow> []
       | Inl e \<Rightarrow> if is_exception e then [Asked_resize pool old_size] else [])"

lemma rescued_size:
  assumes "rescue m (rollback_instance_pool_size c pool old) s = (r, s')"
    and "\<And>q t. m s = (q, t) \<Longrightarrow> changes s t evs"
  shows "changes s s' (evs @ (case r of Inr _ \<Rightarrow> []
       | Inl e \<Rightarrow> if is_exception e then [Asked_resize pool old] else []))"
  using assms(1)
proof (cases rule: rescue_cases)
  case untouched
  then show ?thesis using assms(2) by (auto split: sum.split)
next
  case (rescued e s1 q)
  then have "q = Inr ()" "changes s1 s' [Asked_resize pool old]" using rollback_size_changes by blast+
  then show ?thesis using rescued changes_trans [OF assms(2)] by simp
qed

lemma grow_pool_changes:
  assumes "grow_pool c ses cid kind pool new_size old_size s = (r, s')"
  shows "\<exists>evs. changes s s' evs \<and> grown_or_restored pool new_size old_size r evs"
proof -
  have "changes s t [Asked_resize pool new_size]"
    if "cbind (request (Asked_resize pool new_size) (update_pool_size c pool new_size)) (\<lambda>_.
         cbind (wait_for_running_status c (s_cluster ses) (s_compartment ses) cid kind (Some new_size) 3600)
           (\<lambda>_. creturn ())) s = (q, t)" for q t
    using that
  proof (cases rule: cbind_cases)
    case (raised e)
    then show ?thesis using changes_request by (fastforce simp: is_change_def)
  next
    case (went_on u s1)
    have "keeps (asks (\<lambda>ev. \<not> is_change ev)) (cbind (wait_for_running_status c (s_cluster ses)
        (s_compartment ses) cid kind (Some new_size) 3600) (\<lambda>_. creturn ()))" by (intro ask_intros)
    from changes_trans [OF changes_request [OF went_on(1)] changes_looking [OF this went_on(2)]] show ?thesis
      by (simp add: is_change_def)
  qed
  from rescued_size [OF assms [unfolded grow_pool_def] this] show ?thesis
    by (auto simp: grown_or_restored_def)
qed

text \<open>
  C9: growing an instance pool is a transaction. However an addition to a pool ends, it asks for
  the new size exactly once; when it succeeds that is the only request, the cluster has exactly
  the expected number of nodes, and exactly the requested number of them were not there before;
  when anything fails after the request (the update, the wait, the check of the size, of the new
  nodes or of their volumes), the size before is asked for once, and nothing else.
\<close>

theorem failed_addition_restores_size:
  assumes "kind \<noteq> CC"
    and "get_instances c (s_compartment ses) cid kind s = (Inr previous, s1)"
    and "grow_cluster c ses cid kind (Some pool) (Some n) config removed number s = (r, s')"
  shows "\<exists>evs. changes s s' evs \<and> grown_or_restored pool (n - removed + number) (n - removed) r evs
    \<and> (case r of
        Inl _ \<Rightarrow> True
      | Inr (_, nodes, new_nodes) \<Rightarrow> int (length nodes) = n - removed + number \<and> int (length new_nodes) = number
          \<and> new_nodes = filter (\<lambda>n. node_ocid n \<notin> node_ocid ` set previous) nodes)"
proof -
  let ?new = "n - removed + number" and ?old = "n - removed"
  let ?verify = "verify_addition c ses cid previous ?new number (fst config)"
  have listed: "changes s s1 []"
    using assms(2) by (rule changes_looking [OF asks_view(1)])
  from assms have "cbind (grow_pool c ses cid kind pool ?new ?old) (\<lambda>_.
      rescue ?verify (rollback_instance_pool_size c pool ?old)) s1 = (r, s')"
    by (simp add: grow_cluster_def cbind_run)
  then show ?thesis
  proof (cases rule: cbind_cases)
    case (raised e)
    then show ?thesis using grow_pool_changes [OF raised(1)] changes_trans [OF listed]
      by (fastforce simp: grown_or_restored_def)
  next
    case (went_on u s2)
    have one: "changes s1 s2 [Asked_resize pool ?new]"
      using grow_pool_changes [OF went_on(1)] by (auto simp: grown_or_restored_def)
    have "changes s2 t []" if "?verify s2 = (q, t)" for q t
      using changes_looking [OF verify_looks that] .
    from changes_trans [OF listed changes_trans [OF one rescued_size [OF went_on(2) this]]]
    have "\<exists>evs. changes s s' evs \<and> grown_or_restored pool ?new ?old r evs"
      by (auto simp: grown_or_restored_def)
    moreover have "?verify s2 = (r, s')" if "r = Inr x" for x
      using went_on(2) that by (cases rule: rescue_cases) (auto split: sum.splits)
    then have "case r of
        Inl _ \<Rightarrow> True
      | Inr (_, nodes, new_nodes) \<Rightarrow> int (length nodes) = ?new \<and> int (length new_nodes) = number
          \<and> new_nodes = filter (\<lambda>n. node_ocid n \<notin> node_ocid ` set previous) nodes"
      by (auto simp: verify_addition_def Let_def cbind_Inr_iff split: sum.split)
    ultimately show ?thesis by blast
  qed
qed

definition sample_growth :: "(resize_error + cluster_kind \<times> node list \<times> node list) \<times> nat run" where
  "sample_growth = grow_cluster (refusing_cloud\<lparr>list_network_instances := (\<lambda>_ _ w. (Inr [], w))\<rparr>) small_session ''n'' CN
     (Some ''p'') (Some 2) no_config 0 1 idle_run"

lemma failed_addition_restores_size_witness:
  "\<exists>evs. changes idle_run (snd sample_growth) evs \<and> grown_or_restored ''p'' 3 2 (fst sample_growth) evs"
proof -
  let ?c = "refusing_cloud\<lparr>list_network_instances := (\<lambda>_ _ w. (Inr [], w))\<rparr>"
  have "get_instances ?c (s_compartment small_session) ''n'' CN idle_run = (Inr [], idle_run)"
    by (simp add: get_instances_def list_members_def api_def cbind_apply)
  moreover have "grow_cluster ?c small_session ''n'' CN (Some ''p'') (Some 2) no_config 0 1 idle_run
      = (fst sample_growth, snd sample_growth)"
    by (simp add: sample_growth_def)
  ultimately show ?thesis using failed_addition_restores_size [of CN] by fastforce
qed

text \<open>A compute cluster: the nodes launched so far, by name.\<close>

lemma attempt_cases:
  assumes "attempt m s = (r, s')"
  obtains (returned) x where "m s = (Inr x, s')" "r = Inr (Inr x)"
  | (caught) e where "m s = (Inl e, s')" "is_exception e" "r = Inr (Inl e)"
  | (passed) e where "m s = (Inl e, s')" "\<not> is_exception e" "r = Inl e"
proof -
  obtain q t where m: "m s = (q, t)" by fastforce
  show thesis
  proof (cases q)
    case (Inr x)
    then show thesis using assms m returned by (simp add: attempt_def ctry_apply cbind_apply)
  next
    case (Inl e)
    then show thesis using assms m caught passed
      by (cases e) (auto simp: attempt_def ctry_apply cbind_apply is_exception_def)
  qed
qed

lemma launch_details_run:
  assumes "launch_details c ses cid template max_index config i s = (r, s')"
  shows "changes s s' [] \<and> (\<forall>req. r = Inr req \<longrightarrow> lr_name req = launch_display_name (instance_name (snd template)) max_index i)"
proof -
  have "keeps (asks (\<lambda>ev. \<not> is_change ev)) (launch_details c ses cid template max_index config i)"
    unfolding launch_details_def Let_def by (intro ask_intros)
  then show ?thesis using assms by (auto intro: changes_looking simp: launch_details_def Let_def cbind_Inr_iff)
qed

lemma launch_one_run:
  assumes "launch_one c ses b req s = (r, s')"
  shows "changes s s' [Asked_launch req]"
  using assms unfolding launch_one_def
proof (cases rule: cbind_cases)
  case (raised e)
  then show ?thesis using changes_request by (fastforce simp: is_change_def)
next
  case (went_on iid s1)
  have "keeps (asks (\<lambda>ev. \<not> is_change ev)) (if b then check_local_volume c ses iid else creturn ())"
    by (intro ask_intros looking)
  from changes_trans [OF changes_request [OF went_on(1)] changes_looking [OF this went_on(2)]] show ?thesis
    by (simp add: is_change_def)
qed

text \<open>
  The launches ask for nodes named after the highest index, and return the names asked for.
\<close>

lemma launch_all_run:
  assumes "launch_all c ses cid template max_index config k i launched s = (r, s')"
  shows "\<exists>reqs. changes s s' (map Asked_launch reqs) \<and> length reqs \<le> k
    \<and> map lr_name reqs = map (\<lambda>j. launch_display_name (instance_name (snd template)) max_index (i + int j)) [0..<length reqs]
    \<and> (case r of Inl e \<Rightarrow> \<not> is_exception e
        | Inr (failure, names) \<Rightarrow> names = launched @ map lr_name reqs
            \<and> (case failure of None \<Rightarrow> length reqs = k | Some e \<Rightarrow> is_exception e))"
  (is "\<exists>reqs. ?P k i launched s r reqs")
  using assms
proof (induction k arbitrary: i launched s)
  case 0
  then show ?case by (auto simp: changes_def intro!: exI [of _ "[] :: launch_request list"])
next
  case (Suc k)
  obtain d s1 where d: "attempt (launch_details c ses cid template max_index config i) s = (d, s1)" by fastforce
  from d show ?case
  proof (cases rule: attempt_cases)
    case (caught e)
    then show ?thesis using Suc.prems d launch_details_run [OF caught(1)]
      by (auto simp: cbind_run intro!: exI [of _ "[] :: launch_request list"])
  next
    case (passed e)
    then show ?thesis using Suc.prems d launch_details_run [OF passed(1)]
      by (auto simp: cbind_run intro!: exI [of _ "[] :: launch_request list"])
  next
    case (returned req)
    have req: "changes s s1 []" "lr_name req = launch_display_name (instance_name (snd template)) max_index i"
      using launch_details_run [OF returned(1)] by auto
    obtain q s2 where q: "attempt (launch_one c ses (fst config) req) s1 = (q, s2)" by fastforce
    have one: "changes s s2 [Asked_launch req]"
      using q changes_trans [OF req(1) launch_one_run] by (auto elim: attempt_cases)
    from q show ?thesis
    proof (cases rule: attempt_cases)
      case (returned x)
      have "launch_all c ses cid template max_index config k (i + 1) (launched @ [lr_name req]) s2 = (r, s')"
        using Suc.prems d q returned \<open>d = Inr (Inr req)\<close> by (simp add: cbind_run)
      from Suc.IH [OF this] obtain reqs where reqs: "?P k (i + 1) (launched @ [lr_name req]) s2 r reqs" by blast
      have "map lr_name (req # reqs) = map (\<lambda>j. launch_display_name (instance_name (snd template)) max_index (i + int j))
          [0..<length (req # reqs)]"
        using reqs req(2) by (simp add: upt_rec [of 0] map_Suc_upt [symmetric] comp_def algebra_simps del: upt_Suc)
      with reqs changes_trans [OF one, of s' "map Asked_launch reqs"] show ?thesis
        by (intro exI [of _ "req # reqs"]) (auto split: sum.splits option.splits)
    qed (use Suc.prems d q one req(2) \<open>d = Inr (Inr req)\<close> in \<open>auto simp: cbind_run intro!: exI [of _ "[req]"]\<close>)
  qed
qed

text \<open>
  What taking back one launched node asks for, as the services answer from \<open>s\<close> on. Its instance
  is the one living instance of that name in the cluster; nothing is asked for when there is none
  or more than one, when it is terminating already, or when the lookup or the check of its volume
  fails.
\<close>

definition termination_due :: "'w cloud \<Rightarrow> session \<Rightarrow> string \<Rightarrow> 'w run \<Rightarrow> event list" where
  "termination_due c ses iid s =
     (case get_instance c iid (world_of s) of
        (Inl _, _) \<Rightarrow> []
      | (Inr inst, w) \<Rightarrow>
          if instance_state inst \<in> {''TERMINATED'', ''TERMINATING''} then []
          else (case fst (has_exclusive_volume c ses (s_compartment ses) iid (s\<lparr>world_of := w\<rparr>)) of
              Inl _ \<Rightarrow> []
            | Inr b \<Rightarrow> [Asked_terminate iid b]))"

definition living_named ::
  "string \<Rightarrow> string \<Rightarrow> (string \<times> cloud_instance) list \<Rightarrow> (string \<times> cloud_instance) list" where
  "living_named cluster name =
     filter (\<lambda>(iid, i). instance_name i = name \<and> instance_state i \<noteq> ''TERMINATED''
       \<and> parent_cluster (tag_dict (instance_tags i)) = Some cluster)"

definition rollback_due :: "'w cloud \<Rightarrow> session \<Rightarrow> string \<Rightarrow> 'w run \<Rightarrow> event list" where
  "rollback_due c ses name s =
     (case list_instances_named c (s_compartment ses) name (world_of s) of
        (Inl _, _) \<Rightarrow> []
      | (Inr found, w) \<Rightarrow>
          (case living_named (s_cluster ses) name found of
             [(iid, _)] \<Rightarrow> termination_due c ses iid (s\<lparr>world_of := w\<rparr>)
           | _ \<Rightarrow> []))"

text \<open>From \<open>s\<close> to \<open>s'\<close> the launches of these names were taken back, one after the other.\<close>

fun rolled_back :: "'w cloud \<Rightarrow> session \<Rightarrow> string list \<Rightarrow> 'w run \<Rightarrow> 'w run \<Rightarrow> bool" where
  "rolled_back c ses [] s s' \<longleftrightarrow> s' = s"
| "rolled_back c ses (name # names) s s' \<longleftrightarrow>
     (\<exists>t. changes s t (rollback_due c ses name s) \<and> rolled_back c ses names t s')"

lemma changes_world: "changes (s\<lparr>world_of := w\<rparr>) s' evs \<longleftrightarrow> changes s s' evs"
  by (simp add: changes_def)

lemma terminate_changes:
  assumes "terminate_and_delete c ses iid wait None s = (r, s')"
  shows "changes s s' (termination_due c ses iid s)"
proof -
  let ?poll = "cbind (clock c) (\<lambda>start.
      poll_until c (rounds_for wait 10) (start + wait) 10
        (RuntimeError (''Timed out while terminating instance '' @ iid)) (terminate_round c iid) ())"
  have "keeps (asks (\<lambda>ev. \<not> is_change ev)) ?poll" by (intro keeps_quiet_asks quiet_intros)
  then have poll: "changes t s' []" if "?poll t = (r, s')" for t
    using that by (rule changes_looking)
  have stay: "changes t s' []" if "t = s' \<or> ?poll t = (r, s')" for t
  proof (rule disjE [OF that])
    show "t = s' \<Longrightarrow> changes t s' []" by (simp add: changes_def)
  qed (rule poll)
  obtain q w where got: "get_instance c iid (world_of s) = (q, w)" by fastforce
  show ?thesis
  proof (cases q)
    case (Inl e)
    then show ?thesis using assms got
      by (auto simp: terminate_and_delete_def if_found_def api_def termination_due_def cbind_apply ctry_apply
          changes_def split: if_splits)
  next
    case (Inr inst)
    let ?s = "s\<lparr>world_of := w\<rparr>"
    have run: "(if instance_state inst = ''TERMINATED'' then creturn ()
        else cbind (if instance_state inst \<noteq> ''TERMINATING'' then ask_terminate c ses iid None
                    else creturn False) (\<lambda>gone. if gone then creturn () else ?poll)) ?s = (r, s')"
      using assms got Inr
      by (simp add: terminate_and_delete_def if_found_def api_def cbind_apply ctry_apply)
    show ?thesis
    proof (cases "instance_state inst \<in> {''TERMINATED'', ''TERMINATING''}")
      case True
      then have "?s = s' \<or> ?poll ?s = (r, s')" using run by (auto split: if_splits)
      then have "changes ?s s' []" by (rule stay)
      then show ?thesis using got Inr True by (auto simp: termination_due_def changes_world)
    next
      case False
      then have asked: "cbind (ask_terminate c ses iid None) (\<lambda>gone. if gone then creturn () else ?poll) ?s = (r, s')"
        using run by simp
      obtain b s1 where b: "has_exclusive_volume c ses (s_compartment ses) iid ?s = (b, s1)" by fastforce
      have "keeps (asks (\<lambda>ev. \<not> is_change ev)) (has_exclusive_volume c ses (s_compartment ses) iid)"
        by (rule asks_quiet_reading [OF looking has_exclusive_volume_quiet])
      then have looked: "changes ?s s1 []" using b by (rule changes_looking)
      show ?thesis
      proof (cases b)
        case (Inl e)
        then have "s' = s1" using asked b by (simp add: ask_terminate_def cbind_apply)
        then show ?thesis using looked got Inr False b Inl by (auto simp: termination_due_def changes_world)
      next
        case b': (Inr x)
        obtain a s2 where a: "request (Asked_terminate iid x) (terminate_instance c iid (\<not> x)) s1 = (a, s2)"
          by fastforce
        have request: "changes s1 s2 [Asked_terminate iid x]"
          using changes_request [OF a] by (simp add: is_change_def)
        have "s2 = s' \<or> ?poll s2 = (r, s')"
          using asked b b' a by (auto simp: ask_terminate_def cbind_apply ctry_apply split: sum.splits if_splits)
        then have "changes s2 s' []" by (rule stay)
        from changes_trans [OF looked changes_trans [OF request this]]
        show ?thesis using got Inr False b b' by (auto simp: termination_due_def changes_world)
      qed
    qed
  qed
qed

lemma rollback_one_changes:
  assumes "cbind (find_cluster_instance_by_name c (s_compartment ses) name (s_cluster ses)) (\<lambda>found.
      case found of None \<Rightarrow> creturn () | Some (iid, _) \<Rightarrow> terminate_and_delete c ses iid 1800 None) s = (r, s')"
  shows "changes s s' (rollback_due c ses name s)"
proof -
  obtain q w where listed: "list_instances_named c (s_compartment ses) name (world_of s) = (q, w)" by fastforce
  show ?thesis
  proof (cases q)
    case (Inl e)
    then show ?thesis using assms listed
      by (auto simp: find_cluster_instance_by_name_def api_def rollback_due_def cbind_apply changes_def)
  next
    case (Inr found)
    let ?s = "s\<lparr>world_of := w\<rparr>"
    consider (none) "living_named (s_cluster ses) name found = []"
      | (one) iid i where "living_named (s_cluster ses) name found = [(iid, i)]"
      | (many) m1 m2 ms where "living_named (s_cluster ses) name found = m1 # m2 # ms"
      by (metis list.exhaust surj_pair)
    then show ?thesis
    proof cases
      case one
      then have "terminate_and_delete c ses iid 1800 None ?s = (r, s')"
        using assms listed Inr
        by (simp add: find_cluster_instance_by_name_def living_named_def api_def cbind_apply)
      from terminate_changes [OF this] show ?thesis
        using listed Inr one by (simp add: rollback_due_def changes_world)
    qed (use assms listed Inr in \<open>auto simp: find_cluster_instance_by_name_def living_named_def api_def
        rollback_due_def cbind_apply changes_def\<close>)
  qed
qed

lemma rollback_changes:
  assumes "rollback_compute_cluster_instances c ses names s = (r, s')"
  shows "case r of Inl e \<Rightarrow> \<not> is_exception e | Inr _ \<Rightarrow> rolled_back c ses names s s'"
proof -
  let ?one = "\<lambda>name. attempt (cbind (find_cluster_instance_by_name c (s_compartment ses) name (s_cluster ses))
      (\<lambda>found. case found of None \<Rightarrow> creturn () | Some (iid, _) \<Rightarrow> terminate_and_delete c ses iid 1800 None))"
  define step where "step = (\<lambda>failed name. cbind (?one name)
      (\<lambda>r. creturn (case r of Inl _ \<Rightarrow> failed @ [name] | Inr _ \<Rightarrow> failed)))"
  have step: "changes s t (rollback_due c ses name s) \<and> (\<forall>e. q = Inl e \<longrightarrow> \<not> is_exception e)"
    if "step failed name s = (q, t)" for failed name s q t
  proof -
    obtain q' t' where one: "?one name s = (q', t')" by fastforce
    then have "t' = t" "q' = Inl e" if "q = Inl e" for e
      using \<open>step failed name s = (q, t)\<close> that by (auto simp: step_def cbind_apply split: sum.splits)
    moreover have "t' = t" if "q = Inr x" for x
      using \<open>step failed name s = (q, t)\<close> that one by (auto simp: step_def cbind_apply split: sum.splits)
    ultimately have "?one name s = (q', t)" "\<And>e. q = Inl e \<Longrightarrow> q' = Inl e"
      using one by (cases q; auto)+
    then show ?thesis by (auto elim!: attempt_cases dest: rollback_one_changes)
  qed
  have "case r of Inl e \<Rightarrow> \<not> is_exception e | Inr _ \<Rightarrow> rolled_back c ses names s s'"
    if "cfold step failed names s = (r, s')" for failed
    using that
  proof (induction names arbitrary: failed s)
    case (Cons name names)
    from Cons.prems show ?case
      unfolding cfold.simps
    proof (cases rule: cbind_cases)
      case (raised e)
      then show ?thesis using step [OF raised(1)] by simp
    next
      case (went_on failed' t)
      then show ?thesis using step [OF went_on(1)] Cons.IH [OF went_on(2)] by (auto split: sum.splits)
    qed
  qed auto
  then show ?thesis
    using assms unfolding rollback_compute_cluster_instances_def step_def by blast
qed

lemma taken_back:
  assumes "rescue m (take_back c ses names) s = (r, s')" and "\<forall>q t. m s = (q, t) \<longrightarrow> changes s t []"
  shows "\<exists>s1. changes s s1 [] \<and> (case r of
      Inr x \<Rightarrow> s1 = s' \<and> m s = (Inr x, s')
    | Inl e \<Rightarrow> is_exception e \<longrightarrow> rolled_back c ses names s1 s')"
  using assms(1)
proof (cases rule: rescue_cases)
  case untouched
  then show ?thesis using assms(2) by (cases r) auto
next
  case (rescued e s1 q)
  obtain q' where ran: "rollback_compute_cluster_instances c ses names s1 = (q', s')"
    "q = (case q' of Inl e \<Rightarrow> Inl e | Inr _ \<Rightarrow> Inr ())"
    using rescued(3) unfolding take_back_def by (cases rule: cbind_cases) auto
  have "is_exception e' \<longrightarrow> rolled_back c ses names s1 s'" if "r = Inl e'" for e'
    using rollback_changes [OF ran(1)] ran(2) rescued(4) that by (cases q') auto
  then show ?thesis using rescued assms(2) by (cases r) (auto split: sum.splits)
qed

lemma launch_nodes_run:
  assumes "launch_nodes c ses cid nodes config number s = (r, s')"
  shows "\<exists>reqs s1. changes s s1 (map Asked_launch reqs) \<and> (case r of
      Inr launched \<Rightarrow> s1 = s' \<and> launched = map lr_name reqs \<and> length reqs = nat number
    | Inl e \<Rightarrow> is_exception e \<longrightarrow> rolled_back c ses (map lr_name reqs) s1 s')"
proof (cases nodes)
  case Nil
  then show ?thesis using assms by (intro exI [of _ "[] :: launch_request list"] exI [of _ s]) (auto simp: launch_nodes_def is_exception_def changes_def)
next
  case (Cons first others)
  let ?before = "cbind (clift (map_err node_index nodes)) (\<lambda>indices.
      cbind (api (get_instance c (node_ocid first))) (\<lambda>inst. creturn (indices, inst)))"
  let ?rest = "\<lambda>(indices, inst). cbind (launch_all c ses cid (node_ocid first, inst) (fold max indices (-1)) config (nat number) 0 [])
      (\<lambda>(failure, launched). case failure of None \<Rightarrow> creturn launched
        | Some e \<Rightarrow> rescue (craise e) (take_back c ses launched))"
  have looks: "keeps (asks (\<lambda>ev. \<not> is_change ev)) ?before" by (intro ask_intros)
  have "launch_nodes c ses cid nodes config number s = cbind ?before ?rest s"
    by (simp add: launch_nodes_def Cons cbind_apply split: sum.split prod.split)
  with assms have "cbind ?before ?rest s = (r, s')" by simp
  then show ?thesis
  proof (cases rule: cbind_cases)
    case (raised e)
    then show ?thesis using changes_looking [OF looks raised(1)]
      by (intro exI [of _ "[] :: launch_request list"] exI [of _ s']) simp
  next
    case (went_on x s1)
    obtain indices inst where x: "x = (indices, inst)" by (cases x)
    note before = changes_looking [OF looks went_on(1)]
    from went_on(2) show ?thesis
      unfolding x prod.case
    proof (cases rule: cbind_cases)
      case (raised e)
      from launch_all_run [OF raised(1)] obtain reqs where
        "changes s1 s' (map Asked_launch reqs)" "\<not> is_exception e" by auto
      then show ?thesis using raised(2) changes_trans [OF before] by fastforce
    next
      case (went_on y s2)
      obtain failure launched where y: "y = (failure, launched)" by (cases y)
      from launch_all_run [OF went_on(1)] obtain reqs where reqs: "changes s1 s2 (map Asked_launch reqs)"
        "launched = map lr_name reqs" "failure = None \<Longrightarrow> length reqs = nat number" by (auto simp: y split: option.splits)
      have all: "changes s s2 (map Asked_launch reqs)" using changes_trans [OF before reqs(1)] by simp
      show ?thesis
      proof (cases failure)
        case None
        then show ?thesis using went_on(2) reqs all by (auto simp: y intro!: exI [of _ reqs])
      next
        case (Some e)
        then have "rescue (craise e) (take_back c ses launched) s2 = (r, s')" using went_on(2) by (simp add: y)
        from taken_back [OF this] obtain s3 where s3: "changes s2 s3 []" "case r of
              Inr x \<Rightarrow> s3 = s' \<and> (craise e :: ('a, string list) resize) s2 = (Inr x, s')
            | Inl e \<Rightarrow> is_exception e \<longrightarrow> rolled_back c ses launched s3 s'"
          by (auto simp: changes_def)
        then show ?thesis using changes_trans [OF all s3(1)] reqs(2)
          by (intro exI [of _ reqs] exI [of _ s3]) (auto split: sum.splits)
      qed
    qed
  qed
qed


definition sample_launches :: "(resize_error + cluster_kind \<times> node list \<times> node list) \<times> nat run" where
  "sample_launches = grow_cluster (view_cloud [''1'', ''3'']) small_session ''cc'' CC None None no_config 0 2 idle_run"

lemma sample_launches_refused: "fst sample_launches = Inl (Api (ClientError ''refused''))"
  by code_simp


end
