(* ===== verification/Rack_Order.thy ===== *)
theory Rack_Order
  imports Json_Data "HOL-Library.Multiset"
begin

text \<open>
  The host files ordered by rack (\<open>playbooks/roles/rack-aware/files/node_ordering_by_rack.py\<close>). Each
  host is asked for the identity of its rack and for its name, by the parallel SSH library where it
  is installed and by one \<open>ssh\<close> command per host otherwise; the answers, or why there is none,
  are parameters.
\<close>

section \<open>Asking the hosts\<close>

text \<open>
  \<open>Command_failed\<close>: no answer from a host, which ends the program with \<open>exit("Error code: ...")\<close>
  or with the exception of the library. \<open>Missing_key\<close> is the \<open>KeyError\<close> of an answer without
  \<open>rackId\<close>, \<open>Bad_answer\<close> the exception any other malformed answer raises.
\<close>

datatype rack_error = Command_failed string | Missing_key | Bad_answer

text \<open>
  Whether \<open>pssh\<close> can be imported; the metadata of a host and the lines its \<open>hostname\<close> command
  prints.
\<close>

record rack_inputs =
  ri_parallel :: bool
  ri_host_info :: "string \<Rightarrow> rack_error + char json"
  ri_hostname :: "string \<Rightarrow> rack_error + string list"

text \<open>
  A rack identity is a key of a dict. Lists and objects cannot be keys; of the numbers and truth
  values those that are equal are the same key (\<open>1 == 1.0 == True\<close>).
\<close>

definition dict_key :: "char json \<Rightarrow> rack_error + char json" where
  "dict_key v =
     (case v of
        JArr _ \<Rightarrow> Inl Bad_answer
      | JObj _ \<Rightarrow> Inl Bad_answer
      | JBool b \<Rightarrow> Inr (JInt (if b then 1 else 0))
      | JFloat q \<Rightarrow> Inr (if q = of_int \<lfloor>q\<rfloor> then JInt \<lfloor>q\<rfloor> else v)
      | _ \<Rightarrow> Inr v)"

text \<open>\<open>j['rackId']\<close> with the library, \<open>json_data.get("rackId", None)\<close> without.\<close>

definition rack_of :: "rack_inputs \<Rightarrow> string \<Rightarrow> rack_error + char json" where
  "rack_of inputs h =
     rbind (ri_host_info inputs h) (\<lambda>v.
     rbind (need Bad_answer (as_obj v)) (\<lambda>d.
     if ri_parallel inputs \<and> \<not> has_key d ''rackId'' then Inl Missing_key
     else dict_key (jget d ''rackId'')))"

text \<open>
  With the library the name is all the output, which must be ASCII; without, the first line.
\<close>

definition hostname_of :: "rack_inputs \<Rightarrow> string \<Rightarrow> rack_error + string" where
  "hostname_of inputs h =
     rbind (ri_hostname inputs h) (\<lambda>lines.
     if ri_parallel inputs
     then rbind (check Bad_answer (list_all (\<lambda>ch. (of_char ch :: nat) < 128) (concat lines))) (\<lambda>_.
          Inr (concat lines))
     else case lines of [] \<Rightarrow> Inl Bad_answer | l # _ \<Rightarrow> Inr l)"

text \<open>\<open>if rackId in r: r[rackId].append(h) else: r[rackId] = [h]\<close>.\<close>

definition add_to_rack :: "('r \<times> 'h list) list \<Rightarrow> 'r \<Rightarrow> 'h \<Rightarrow> ('r \<times> 'h list) list" where
  "add_to_rack r rack h = dset rack ((case map_of r rack of None \<Rightarrow> [] | Some hs \<Rightarrow> hs) @ [h]) r"

definition collect_racks ::
  "rack_inputs \<Rightarrow> string list \<Rightarrow> rack_error + (char json \<times> string list) list" where
  "collect_racks inputs hosts =
     fold_err (\<lambda>r h. rbind (rack_of inputs h) (\<lambda>rack. Inr (add_to_rack r rack h))) [] hosts"

section \<open>The order\<close>

text \<open>\<open>sorted(r.items(), key=lambda x: len(x[1]), reverse=True)\<close>, which is stable.\<close>

definition sort_racks :: "('r \<times> 'h list) list \<Rightarrow> ('r \<times> 'h list) list" where
  "sort_racks r = sort_key (\<lambda>(_, hs). - int (length hs)) r"

definition order_by_rack :: "('r \<times> 'h list) list \<Rightarrow> 'h list" where
  "order_by_rack r = concat (map snd (sort_racks r))"

section \<open>The files\<close>

definition gpus :: nat where
  "gpus = 8"

definition hostfile_lines :: "bool \<Rightarrow> string list \<Rightarrow> string list" where
  "hostfile_lines srun ordered_hosts =
     concat (map (\<lambda>h. if srun then replicate 8 h else [h]) ordered_hosts)"

definition rank_line :: "nat \<Rightarrow> string \<Rightarrow> nat \<Rightarrow> string" where
  "rank_line rank h slot = ''rank '' @ show_nat rank @ ''='' @ h @ '' slot='' @ show_nat slot"

definition rankfile_lines :: "string list \<Rightarrow> string list" where
  "rankfile_lines ordered_hosts =
     concat (map (\<lambda>(index, h). map (\<lambda>gpu_index. rank_line (index * gpus + gpu_index) h gpu_index) [0..<gpus])
       (enumerate 0 ordered_hosts))"

text \<open>The four files by name; each line ends with a line feed.\<close>

definition ordered_files :: "string list \<Rightarrow> string list \<Rightarrow> (string \<times> string list) list" where
  "ordered_files ordered_hosts names =
     [(''ordered_hostfile'', hostfile_lines False ordered_hosts),
      (''ordered_hostfile_system_name'', hostfile_lines False names),
      (''ordered_hostfile_system_name_srun'', hostfile_lines True names),
      (''rankfile_system_name'', rankfile_lines names)]"

definition rack_main :: "rack_inputs \<Rightarrow> string list \<Rightarrow> rack_error + (string \<times> string list) list" where
  "rack_main inputs hosts =
     rbind (collect_racks inputs hosts) (\<lambda>r.
     rbind (map_err (hostname_of inputs) hosts) (\<lambda>found.
     let name_of = map_of (zip hosts found); ordered_hosts = order_by_rack r
     in Inr (ordered_files ordered_hosts (map (\<lambda>h. the (name_of h)) ordered_hosts))))"

section \<open>Hosts of a rack stay together\<close>

text \<open>Every rack holds its hosts, in the order of the input.\<close>

definition grouped :: "('h \<Rightarrow> 'r) \<Rightarrow> 'h list \<Rightarrow> ('r \<times> 'h list) list \<Rightarrow> bool" where
  "grouped rack hosts r \<longleftrightarrow> distinct (map fst r) \<and> fst ` set r = rack ` set hosts
     \<and> list_all (\<lambda>(k, hs). hs = filter (\<lambda>h. rack h = k) hosts) r"

lemma grouped_lookup:
  assumes "grouped rack hosts r"
  shows "map_of r k = (if k \<in> rack ` set hosts then Some (filter (\<lambda>h. rack h = k) hosts) else None)"
proof (cases "k \<in> rack ` set hosts")
  case True
  then obtain hs where "(k, hs) \<in> set r" using assms by (force simp: grouped_def)
  then show ?thesis using assms True by (auto simp: grouped_def list_all_iff)
next
  case False
  then show ?thesis using assms by (force simp: grouped_def map_of_eq_None_iff)
qed

lemma grouped_add:
  assumes "grouped rack hosts r"
  shows "grouped rack (hosts @ [h]) (add_to_rack r (rack h) h)"
proof -
  let ?hs = "(case map_of r (rack h) of None \<Rightarrow> [] | Some hs \<Rightarrow> hs) @ [h]"
  have none: "rack h \<notin> rack ` set hosts \<Longrightarrow> filter (\<lambda>x. rack x = rack h) hosts = []"
    by (intro filter_False) (auto dest: sym)
  have hs: "?hs = filter (\<lambda>x. rack x = rack h) (hosts @ [h])"
    using none by (simp add: grouped_lookup [OF assms])
  have "hs' = filter (\<lambda>x. rack x = k) (hosts @ [h])" if "(k, hs') \<in> set (dset (rack h) ?hs r)" for k hs'
  proof -
    have "map_of (dset (rack h) ?hs r) k = Some hs'"
      using that assms by (intro map_of_is_SomeI) (auto simp: grouped_def)
    then show ?thesis using hs assms by (auto simp: grouped_lookup split: if_splits)
  qed
  then show ?thesis using assms
    by (auto simp: grouped_def add_to_rack_def keys_dset list_all_iff simp del: filter_append)
qed


lemma collect_racks_grouped:
  assumes "collect_racks inputs hosts = Inr r"
  shows "list_all (\<lambda>h. \<exists>rack. rack_of inputs h = Inr rack) hosts
    \<and> grouped (\<lambda>h. projr (rack_of inputs h)) hosts r"
proof (rule fold_err_invariant_prefix [OF assms [unfolded collect_racks_def],
      where P = "\<lambda>ys a. list_all (\<lambda>h. \<exists>rack. rack_of inputs h = Inr rack) ys
        \<and> grouped (\<lambda>h. projr (rack_of inputs h)) ys a"])
  fix ys x zs a a'
  assume inv: "list_all (\<lambda>h. \<exists>rack. rack_of inputs h = Inr rack) ys
      \<and> grouped (\<lambda>h. projr (rack_of inputs h)) ys a"
    and step: "rbind (rack_of inputs x) (\<lambda>rack. Inr (add_to_rack a rack x)) = Inr a'"
  then obtain rack where rack: "rack_of inputs x = Inr rack" "a' = add_to_rack a rack x" by auto
  have "grouped (\<lambda>h. projr (rack_of inputs h)) (ys @ [x]) (add_to_rack a (projr (rack_of inputs x)) x)"
    using inv by (intro grouped_add) simp
  then show "list_all (\<lambda>h. \<exists>rack. rack_of inputs h = Inr rack) (ys @ [x])
      \<and> grouped (\<lambda>h. projr (rack_of inputs h)) (ys @ [x]) a'"
    using rack inv by simp
qed (simp add: grouped_def)

lemma sort_racks_grouped: "grouped rack hosts r \<Longrightarrow> grouped rack hosts (sort_racks r)"
proof -
  have "distinct (map fst (sort_racks r)) \<longleftrightarrow> distinct (map fst r)"
    by (rule mset_eq_imp_distinct_iff) (simp add: sort_racks_def)
  then show "grouped rack hosts r \<Longrightarrow> grouped rack hosts (sort_racks r)"
    by (simp add: grouped_def list_all_iff) (simp add: sort_racks_def)
qed

lemma sort_racks_sorted: "sorted_wrt (\<lambda>a b. length (snd b) \<le> length (snd a)) (sort_racks r)"
proof -
  have "sorted (map (\<lambda>(_, hs). - int (length hs)) (sort_racks r))" by (simp add: sort_racks_def)
  then show ?thesis by (simp add: sorted_map case_prod_beta)
qed

lemma mset_groups:
  assumes "distinct ks"
  shows "mset (concat (map (\<lambda>k. filter (\<lambda>h. rack h = k) hosts) ks)) = filter_mset (\<lambda>h. rack h \<in> set ks) (mset hosts)"
  using assms
proof (induction ks)
  case (Cons k ks)
  then show ?case by (intro multiset_eqI) (auto simp: count_mset)
qed simp

section \<open>Ranks\<close>

lemma slots_upt: "[0..<gpus * Suc n] = [0..<gpus * n] @ map (\<lambda>slot. n * gpus + slot) [0..<gpus]"
proof -
  have "[0..<gpus * n + gpus] = [0..<gpus * n] @ [gpus * n..<gpus * n + gpus]" by (rule upt_add_eq_append) simp
  moreover have "[gpus * n..<gpus * n + gpus] = map (\<lambda>slot. n * gpus + slot) [0..<gpus]"
    by (intro nth_equalityI) (auto simp: mult.commute)
  ultimately show ?thesis by (simp add: add.commute)
qed

text \<open>
  The rank file and the host file for \<open>srun\<close> agree. With \<open>gpus\<close> ranks per host, line \<open>i\<close> of the
  rank file gives rank \<open>i\<close> the host number \<open>i div gpus\<close> and the slot \<open>i mod gpus\<close>, so every slot of every
  host has exactly one rank, and line \<open>i\<close> of the host file names the host of rank \<open>i\<close>.
\<close>

lemma ranks_follow_hosts:
  "rankfile_lines names
     = map (\<lambda>i. rank_line i (names ! (i div gpus)) (i mod gpus)) [0..<gpus * length names]
   \<and> hostfile_lines True names = map (\<lambda>i. names ! (i div gpus)) [0..<gpus * length names]"
proof (induction names rule: rev_induct)
  case Nil
  show ?case by (simp add: rankfile_lines_def hostfile_lines_def)
next
  case (snoc h names)
  have old: "i div gpus < length names" if "i < gpus * length names" for i
    using that by (simp add: less_mult_imp_div_less mult.commute)
  have new: "(length names * gpus + slot) div gpus = length names" "(length names * gpus + slot) mod gpus = slot"
    if "slot \<in> set [0..<gpus]" for slot
    using that by (auto simp: gpus_def)
  have "rankfile_lines (names @ [h]) = rankfile_lines names
      @ map (\<lambda>slot. rank_line (length names * gpus + slot) h slot) [0..<gpus]"
    by (simp add: rankfile_lines_def enumerate_append_eq)
  moreover have "hostfile_lines True (names @ [h]) = hostfile_lines True names @ map (\<lambda>slot. h) [0..<gpus]"
    by (simp add: hostfile_lines_def gpus_def map_replicate_const)
  ultimately show ?case
    using snoc unfolding length_append_singleton slots_upt map_append
    by (auto simp: old new nth_append cong: map_cong)
qed

lemma ordered_files_exact:
  "ordered_files ordered names =
     [(''ordered_hostfile'', ordered), (''ordered_hostfile_system_name'', names),
      (''ordered_hostfile_system_name_srun'', map (\<lambda>i. names ! (i div 8)) [0..<8 * length names]),
      (''rankfile_system_name'', map (\<lambda>i. ''rank '' @ show_nat i @ ''='' @ names ! (i div 8)
         @ '' slot='' @ show_nat (i mod 8)) [0..<8 * length names])]"
proof -
  have "hostfile_lines False xs = xs" for xs by (simp add: hostfile_lines_def)
  then show ?thesis
    unfolding ordered_files_def ranks_follow_hosts [unfolded rank_line_def gpus_def, THEN conjunct1]
      ranks_follow_hosts [unfolded rank_line_def gpus_def, THEN conjunct2] by simp
qed

section \<open>The files follow the order\<close>

text \<open>
  C36: the ordering by rack. When every host answers, the ordered hosts are the hosts of one rack
  after the other: every rack appears once, with all its hosts in the order of the input, larger
  racks before smaller ones; so no host is lost, invented or repeated. All four files follow that
  order: the two host files list the hosts and their names, line \<open>i\<close> of the one for \<open>srun\<close> names host
  number \<open>i div 8\<close>, and line \<open>i\<close> of the rank file gives rank \<open>i\<close> that host and the slot \<open>i mod 8\<close>.
\<close>

theorem racks_stay_together:
  assumes "rack_main inputs hosts = Inr out"
  shows "\<exists>racks ordered. ordered = concat (map (\<lambda>k. filter (\<lambda>h. projr (rack_of inputs h) = k) hosts) racks)
    \<and> distinct racks \<and> set racks = (\<lambda>h. projr (rack_of inputs h)) ` set hosts
    \<and> sorted_wrt (\<lambda>k k'. length (filter (\<lambda>h. projr (rack_of inputs h) = k') hosts)
        \<le> length (filter (\<lambda>h. projr (rack_of inputs h) = k) hosts)) racks
    \<and> mset ordered = mset hosts
    \<and> (let names = map (\<lambda>h. projr (hostname_of inputs h)) ordered
       in out = [(''ordered_hostfile'', ordered), (''ordered_hostfile_system_name'', names),
           (''ordered_hostfile_system_name_srun'', map (\<lambda>i. names ! (i div 8)) [0..<8 * length names]),
           (''rankfile_system_name'', map (\<lambda>i. ''rank '' @ show_nat i @ ''='' @ names ! (i div 8)
              @ '' slot='' @ show_nat (i mod 8)) [0..<8 * length names])])"
proof -
  let ?rack = "\<lambda>h. projr (rack_of inputs h)"
  obtain r found where r: "collect_racks inputs hosts = Inr r" and found: "map_err (hostname_of inputs) hosts = Inr found"
    and out: "out = ordered_files (order_by_rack r) (map (\<lambda>h. the (map_of (zip hosts found) h)) (order_by_rack r))"
    using assms by (auto simp: rack_main_def Let_def)
  let ?racks = "map fst (sort_racks r)"
  have g: "grouped ?rack hosts (sort_racks r)"
    using collect_racks_grouped [OF r] sort_racks_grouped by blast
  then have pairs: "snd p = filter (\<lambda>h. ?rack h = fst p) hosts" if "p \<in> set (sort_racks r)" for p
    using that by (auto simp: grouped_def list_all_iff)
  have ordered: "order_by_rack r = concat (map (\<lambda>k. filter (\<lambda>h. ?rack h = k) hosts) ?racks)"
    unfolding order_by_rack_def by (simp add: pairs comp_def cong: map_cong)
  have racks: "distinct ?racks" "set ?racks = ?rack ` set hosts" using g by (auto simp: grouped_def)
  have "mset (concat (map (\<lambda>k. filter (\<lambda>h. ?rack h = k) hosts) ?racks)) = mset hosts"
  proof -
    have "filter (\<lambda>h. ?rack h \<in> ?rack ` set hosts) hosts = hosts" by (intro filter_True) auto
    then show ?thesis unfolding mset_groups [OF racks(1)] racks(2) by (simp flip: mset_filter)
  qed
  moreover have "sorted_wrt (\<lambda>k k'. length (filter (\<lambda>h. ?rack h = k') hosts)
        \<le> length (filter (\<lambda>h. ?rack h = k) hosts)) ?racks"
    using sort_racks_sorted [of r] unfolding sorted_wrt_map
    by (rule sorted_wrt_mono_rel [rotated]) (simp add: pairs)
  moreover have names: "map (\<lambda>h. the (map_of (zip hosts found) h)) (order_by_rack r)
      = map (\<lambda>h. projr (hostname_of inputs h)) (order_by_rack r)"
  proof (rule map_cong [OF refl])
    fix h
    assume "h \<in> set (order_by_rack r)"
    then have h: "h \<in> set hosts" by (auto simp: ordered)
    have names: "list_all2 (\<lambda>h v. hostname_of inputs h = Inr v) hosts found"
      using found by (simp add: map_err_Inr)
    then obtain v where "map_of (zip hosts found) h = Some v"
      using h list_all2_lengthD [OF names] by (auto simp: map_of_zip_is_Some)
    moreover from this have "(h, v) \<in> set (zip hosts found)" by (rule map_of_SomeD)
    then have "hostname_of inputs h = Inr v" using names by (auto simp: list_all2_iff)
    ultimately show "the (map_of (zip hosts found) h) = projr (hostname_of inputs h)" by simp
  qed
  note files = out [unfolded names ordered_files_exact]
  ultimately show ?thesis using racks
    unfolding files Let_def
    by (intro exI [of _ ?racks] exI [of _ "order_by_rack r"] conjI ordered refl) (simp_all add: ordered)
qed

definition sample_hosts :: "string list" where
  "sample_hosts = [''h1'', ''h2'', ''h3'']"

definition sample_racks :: rack_inputs where
  "sample_racks = \<lparr>ri_parallel = False,
     ri_host_info = \<lambda>h. Inr (JObj [(''rackId'', JStr (if h = ''h1'' then ''a'' else ''b''))]),
     ri_hostname = \<lambda>h. Inr [''node-'' @ h]\<rparr>"

definition sample_order :: "(string \<times> string list) list" where
  "sample_order = projr (rack_main sample_racks sample_hosts)"

lemma sample_order_files: "rack_main sample_racks sample_hosts = Inr sample_order
    \<and> snd (hd sample_order) = [''h2'', ''h3'', ''h1'']"
  by code_simp

lemma racks_stay_together_witness:
  "\<exists>racks. concat (map (\<lambda>k. filter (\<lambda>h. projr (rack_of sample_racks h) = k) sample_hosts) racks) = [''h2'', ''h3'', ''h1'']
     \<and> distinct racks \<and> mset [''h2'', ''h3'', ''h1''] = mset sample_hosts"
proof -
  from racks_stay_together [OF sample_order_files [THEN conjunct1]] obtain racks ordered names srun ranks where
    racks: "ordered = concat (map (\<lambda>k. filter (\<lambda>h. projr (rack_of sample_racks h) = k) sample_hosts) racks)"
      "distinct racks" "mset ordered = mset sample_hosts"
    and files: "sample_order = [(''ordered_hostfile'', ordered), names, srun, ranks]"
    unfolding Let_def by (elim exE conjE) rule
  have "snd (hd sample_order) = [''h2'', ''h3'', ''h1'']" using sample_order_files by blast
  then have eq: "ordered = [''h2'', ''h3'', ''h1'']" unfolding files list.sel snd_conv .
  show ?thesis
    by (intro exI [of _ racks] conjI racks(2) racks(1) [unfolded eq, symmetric] racks(3) [unfolded eq])
qed

text \<open>
  The two ways of asking differ on a host that answers without a rack: by \<open>ssh\<close> it counts to a
  rack of its own kind, the library raises.
\<close>

lemma missing_rack_differs:
  assumes "ri_host_info inputs h = Inr (JObj d)" and "\<not> has_key d ''rackId''"
  shows "rack_of (inputs\<lparr>ri_parallel := False\<rparr>) h = Inr JNull"
    and "rack_of (inputs\<lparr>ri_parallel := True\<rparr>) h = Inl Missing_key"
  using assms by (simp_all add: rack_of_def dict_key_def jget_def has_key_def need_def split: option.splits)

end
