(* ===== verification/Partition_Report.thy ===== *)
theory Partition_Report
  imports Json_Data "HOL-Library.List_Lexorder" "HOL-Library.Char_ord"
begin

text \<open>
  The report on partitions and clusters (\<open>scripts/max_nodes_partition.py\<close>): the nodes of each Slurm
  partition by state, the nodes of each cluster, and the largest job that fits evenly. The output
  of \<open>sinfo\<close> and of the shell pipelines over \<open>/etc/hosts\<close> are inputs. A set is a list without
  duplicates; the order in which Python walks a set is that of the list.
\<close>

section \<open>Nodes of the partitions\<close>

datatype report_error = Index_error | Key_error | Value_error | Exit_report

type_synonym nodes_by_state = "(string \<times> string list) list"

definition unquote :: "string \<Rightarrow> string" where
  "unquote s = filter (\<lambda>ch. ch \<noteq> CHR 0x22) s"

definition state_keys :: "string list" where
  "state_keys = [''idle'', ''allocated'', ''down'', ''drained'', ''others'']"

definition state_key :: "string \<Rightarrow> string" where
  "state_key state = (if state \<in> set (butlast state_keys) then state else ''others'')"

definition nodes_in :: "nodes_by_state \<Rightarrow> string \<Rightarrow> string list" where
  "nodes_in info k = (case map_of info k of None \<Rightarrow> [] | Some ns \<Rightarrow> ns)"

definition word_at :: "string list \<Rightarrow> nat \<Rightarrow> report_error + string" where
  "word_at ws i = (if i < length ws then Inr (unquote (ws ! i)) else Inl Index_error)"

text \<open>
  One line of \<open>sinfo\<close>. A partition that was seen before gets all five keys; a new one only the key
  of the state of its first node.
\<close>

definition add_line ::
  "(string \<times> nodes_by_state) list \<Rightarrow> string \<Rightarrow> report_error + (string \<times> nodes_by_state) list" where
  "add_line partition_dict line =
     (let ws = words_by py_space line
      in rbind (word_at ws 2) (\<lambda>partition_name.
         rbind (word_at ws 0) (\<lambda>state.
         rbind (word_at ws 1) (\<lambda>node.
         let key = state_key state;
             info = (case map_of partition_dict partition_name of
                 None \<Rightarrow> [] | Some old \<Rightarrow> map (\<lambda>k. (k, nodes_in old k)) state_keys)
         in Inr (dset partition_name (dset key (List.insert node (nodes_in info key)) info) partition_dict)))))"

definition get_all_nodes :: "string list \<Rightarrow> report_error + (string \<times> nodes_by_state) list" where
  "get_all_nodes lines = fold_err add_line [] lines"

section \<open>Nodes of the clusters\<close>

definition get_cluster_names :: "string list \<Rightarrow> string list" where
  "get_cluster_names output = filter (\<lambda>cluster. cluster \<noteq> ''CONTROLLER'') output"

text \<open>The partition of a cluster is the first part of the name of one of its nodes.\<close>

definition partition_of :: "string list \<Rightarrow> string" where
  "partition_of nodes_in_cluster =
     (case nodes_in_cluster of [] \<Rightarrow> ''t'' | node # _ \<Rightarrow> hd (split_on CHR ''-'' node))"

definition cluster_by_state ::
  "(string \<times> nodes_by_state) list \<Rightarrow> string list \<Rightarrow> report_error + nodes_by_state" where
  "cluster_by_state partition_dict nodes_in_cluster =
     map_err (\<lambda>k. rbind (need Key_error (map_of partition_dict (partition_of nodes_in_cluster))) (\<lambda>info.
       rbind (need Key_error (map_of info k)) (\<lambda>ns.
       Inr (k, filter (\<lambda>n. n \<in> set ns) nodes_in_cluster)))) state_keys"

definition add_cluster ::
  "(string \<Rightarrow> string list) \<Rightarrow> string list \<Rightarrow> (string \<times> nodes_by_state) list
     \<Rightarrow> (string \<times> (string \<times> nodes_by_state) list) list \<Rightarrow> string
     \<Rightarrow> report_error + (string \<times> (string \<times> nodes_by_state) list) list" where
  "add_cluster nodes_of cluster_list partition_dict acc cluster =
     (if cluster \<notin> set cluster_list then Inr acc
      else rbind (cluster_by_state partition_dict (nodes_of cluster)) (\<lambda>by_state.
        let partition_name = partition_of (nodes_of cluster);
            others = (case map_of acc partition_name of None \<Rightarrow> [] | Some d \<Rightarrow> d)
        in Inr (dset partition_name (dset cluster by_state others) acc)))"

definition get_cluster_and_nodes ::
  "(string \<Rightarrow> string list) \<Rightarrow> string list \<Rightarrow> string list \<Rightarrow> (string \<times> nodes_by_state) list
     \<Rightarrow> report_error + (string \<times> (string \<times> nodes_by_state) list) list" where
  "get_cluster_and_nodes nodes_of cluster_list include_cluster_list partition_dict =
     fold_err (add_cluster nodes_of cluster_list partition_dict) []
       (if include_cluster_list \<noteq> [] then include_cluster_list else cluster_list)"

section \<open>The tables\<close>

text \<open>\<open>OrderedDict(sorted(d.items()))\<close>: the keys are distinct, so what they map to is never compared.\<close>

definition by_key :: "(string \<times> 'v) list \<Rightarrow> (string \<times> 'v) list" where
  "by_key d = sort_key fst d"

text \<open>A row: partition, cluster, and the numbers of nodes per state with their total.\<close>

definition row_counts :: "nodes_by_state \<Rightarrow> nat list \<times> nat" where
  "row_counts by_state =
     (let counts = map (\<lambda>k. length (nodes_in by_state k)) state_keys in (counts, sum_list counts))"

definition report_rows ::
  "(string \<times> (string \<times> nodes_by_state) list) list \<Rightarrow> report_error + (string \<times> string \<times> nat list \<times> nat) list" where
  "report_rows nodes_dict =
     (if nodes_dict = [] then Inl Exit_report
      else Inr (concat (map (\<lambda>(partition_name, clusters).
        map (\<lambda>(cluster, by_state). (partition_name, cluster, row_counts by_state)) (by_key clusters))
        (by_key nodes_dict))))"

text \<open>The available nodes of a cluster in a compressed form, for the message only: prefix and numbers.\<close>

definition available_nodes :: "string list \<Rightarrow> report_error + string list" where
  "available_nodes idle_list =
     rbind (map_err (\<lambda>n. need Value_error (py_int (last (split_on CHR ''-'' n)))) idle_list) (\<lambda>numbers.
     let prefix = take 3 (split_on CHR ''-'' (hd idle_list))
     in if length prefix < 3 then Inl Index_error
        else Inr (map (\<lambda>i. join ''-'' prefix @ ''-'' @ show_int i) (sort numbers)))"

definition idle_counts :: "(string \<times> nodes_by_state) list \<Rightarrow> report_error + nat list" where
  "idle_counts clusters =
     map_err (\<lambda>(_, by_state). rbind (available_nodes (nodes_in by_state ''idle'')) (\<lambda>ns. Inr (length ns)))
       (filter (\<lambda>(_, by_state). nodes_in by_state ''idle'' \<noteq> []) (by_key clusters))"

definition partition_idle_nodes ::
  "(string \<times> (string \<times> nodes_by_state) list) list \<Rightarrow> report_error + (string \<times> nat list) list" where
  "partition_idle_nodes nodes_dict =
     map_err (\<lambda>(partition_name, clusters). rbind (idle_counts clusters) (\<lambda>counts. Inr (partition_name, counts)))
       (by_key nodes_dict)"

section \<open>The largest even distribution\<close>

text \<open>\<open>node_list.sort(reverse=True)\<close>, then the maximum of \<open>node_list[i]*(i+1)\<close>.\<close>

definition max_even :: "nat list \<Rightarrow> nat" where
  "max_even node_list =
     (if node_list = [] then 0
      else let l = rev (sort node_list)
           in Max (set (map (\<lambda>i. l ! i * (i + 1)) [0..<length l])))"

definition max_nodes_even_distributed :: "(string \<times> nat list) list \<Rightarrow> (string \<times> nat) list" where
  "max_nodes_even_distributed d = map (\<lambda>(k, node_list). (k, max_even node_list)) (by_key d)"

text \<open>The whole report: the rows, and the largest even distribution of each partition.\<close>

definition report_main ::
  "string list \<Rightarrow> string list \<Rightarrow> (string \<Rightarrow> string list) \<Rightarrow> string list
     \<Rightarrow> report_error + (string \<times> string \<times> nat list \<times> nat) list \<times> (string \<times> nat) list" where
  "report_main sinfo_lines names_output nodes_of include_cluster_list =
     rbind (get_all_nodes sinfo_lines) (\<lambda>partition_dict.
     rbind (get_cluster_and_nodes nodes_of (get_cluster_names names_output) include_cluster_list partition_dict) (\<lambda>nodes_dict.
     rbind (report_rows nodes_dict) (\<lambda>rows.
     rbind (partition_idle_nodes nodes_dict) (\<lambda>idle.
     Inr (rows, max_nodes_even_distributed idle)))))"

section \<open>The largest even distribution is optimal\<close>

lemma sorted_desc_at_least:
  fixes l :: "nat list"
  assumes "sorted_wrt (\<ge>) l" and "i < length l" and "m \<le> l ! i"
  shows "i < length (filter (\<lambda>c. m \<le> c) l)"
  using assms
proof (induction l arbitrary: i)
  case (Cons x l)
  show ?case
  proof (cases i)
    case 0
    then show ?thesis using Cons.prems by simp
  next
    case (Suc j)
    then have "m \<le> x" using Cons.prems by (auto intro: order_trans)
    then show ?thesis using Cons.IH [of j] Cons.prems Suc by simp
  qed
qed simp

lemma sorted_desc_count:
  fixes l :: "nat list"
  assumes "sorted_wrt (\<ge>) l" and "k < length (filter (\<lambda>c. m \<le> c) l)"
  shows "m \<le> l ! k"
  using assms
proof (induction l arbitrary: k)
  case (Cons x l)
  have le: "m \<le> x" if "filter (\<lambda>c. m \<le> c) l \<noteq> []"
  proof -
    obtain c where "c \<in> set l" "m \<le> c" using \<open>filter (\<lambda>c. m \<le> c) l \<noteq> []\<close> by (auto simp: filter_empty_conv)
    then show ?thesis using Cons.prems(1) by (auto intro: order_trans)
  qed
  show ?case
  proof (cases k)
    case 0
    then show ?thesis using Cons.prems(2) le by (cases "m \<le> x") auto
  next
    case (Suc j)
    then show ?thesis using Cons.IH [of j] Cons.prems le by (cases "m \<le> x") auto
  qed
qed simp

text \<open>
  C37: the number reported for a partition is the size of the largest job that takes the same
  number of idle nodes from each cluster it uses: \<open>m\<close> nodes from each of \<open>k\<close> clusters that have
  at least \<open>m\<close> idle nodes never give more, and some choice gives exactly that.
\<close>

theorem max_even_is_optimal:
  assumes "counts \<noteq> []"
  shows "(\<forall>m k. k \<le> length (filter (\<lambda>c. m \<le> c) counts) \<longrightarrow> m * k \<le> max_even counts)
    \<and> (\<exists>m. max_even counts = m * length (filter (\<lambda>c. m \<le> c) counts))"
proof -
  let ?l = "rev (sort counts)" and ?at_least = "\<lambda>m. length (filter (\<lambda>c. m \<le> c) counts)"
  let ?products = "set (map (\<lambda>i. ?l ! i * (i + 1)) [0..<length ?l])"
  have desc: "sorted_wrt (\<ge>) ?l" by (simp add: sorted_wrt_rev)
  have same: "length (filter (\<lambda>c. m \<le> c) ?l) = ?at_least m" for m
    by (simp add: filter_sort flip: rev_filter)
  have max: "max_even counts = Max ?products" using assms by (simp add: max_even_def Let_def)
  have nonempty: "?products \<noteq> {}" using assms by simp
  have upper: "m * k \<le> max_even counts" if "k \<le> ?at_least m" for m k
  proof (cases k)
    case (Suc j)
    then have "m \<le> ?l ! j" using that by (intro sorted_desc_count [OF desc]) (simp add: same)
    moreover have "j < length ?l" using that Suc same [of m] by (metis length_filter_le less_le_trans Suc_le_eq)
    ultimately have "m * k \<le> ?l ! j * (j + 1)" and "?l ! j * (j + 1) \<in> ?products"
      unfolding Suc Suc_eq_plus1 by (blast intro: mult_le_mono1, auto)
    then show ?thesis unfolding max by (meson Max_ge finite_set le_trans)
  qed simp
  obtain i where i: "i < length ?l" "max_even counts = ?l ! i * (i + 1)"
    using Max_in [OF _ nonempty] unfolding max by auto
  have "i + 1 \<le> ?at_least (?l ! i)" using sorted_desc_at_least [OF desc i(1) order_refl] by (simp add: same)
  then have "max_even counts = ?l ! i * ?at_least (?l ! i)"
    using upper [of "?at_least (?l ! i)" "?l ! i"] i(2) by (metis dual_order.antisym mult_le_mono2 order_refl)
  then show ?thesis using upper by blast
qed

definition max_even_sample :: nat where
  "max_even_sample = max_even [3, 8, 5]"

lemma max_even_is_optimal_witness: "\<exists>m. (10 :: nat) = m * length (filter (\<lambda>c. m \<le> c) [3, 8, 5])"
proof -
  have "max_even [3, 8, 5] = 10" by code_simp
  then show ?thesis using max_even_is_optimal [of "[3, 8, 5]"] by simp
qed

section \<open>What the report knows of a partition\<close>

text \<open>The partition, state and node of a line.\<close>

definition line_partition :: "string \<Rightarrow> string" where
  "line_partition line = unquote (words_by py_space line ! 2)"

definition line_key :: "string \<Rightarrow> string" where
  "line_key line = state_key (unquote (words_by py_space line ! 0))"

definition line_node :: "string \<Rightarrow> string" where
  "line_node line = unquote (words_by py_space line ! 1)"

definition lines_of :: "string \<Rightarrow> string list \<Rightarrow> string list" where
  "lines_of p lines = filter (\<lambda>l. line_partition l = p) lines"

definition partition_info :: "(string \<times> nodes_by_state) list \<Rightarrow> string \<Rightarrow> nodes_by_state" where
  "partition_info d p = (case map_of d p of None \<Rightarrow> [] | Some info \<Rightarrow> info)"

lemma state_key_in: "state_key state \<in> set state_keys"
  by (auto simp: state_key_def state_keys_def)

lemma add_line_Inr:
  assumes "add_line d line = Inr d'"
  shows "partition_info d' p = (if p = line_partition line
      then dset (line_key line) (List.insert (line_node line)
          (nodes_in (partition_info d p) (line_key line)))
        (case map_of d p of None \<Rightarrow> [] | Some old \<Rightarrow> map (\<lambda>k. (k, nodes_in old k)) state_keys)
      else partition_info d p)"
    and "map_of d' p = None \<longleftrightarrow> map_of d p = None \<and> p \<noteq> line_partition line"
proof -
  have same: "nodes_in (case x of None \<Rightarrow> [] | Some old \<Rightarrow> map (\<lambda>k. (k, nodes_in old k)) state_keys) (state_key st)
      = nodes_in (case x of None \<Rightarrow> [] | Some info \<Rightarrow> info) (state_key st)" for x st
    using state_key_in [of st] by (auto simp: nodes_in_def map_of_map_restrict restrict_map_def split: option.split)
  show "partition_info d' p = (if p = line_partition line
      then dset (line_key line) (List.insert (line_node line)
          (nodes_in (partition_info d p) (line_key line)))
        (case map_of d p of None \<Rightarrow> [] | Some old \<Rightarrow> map (\<lambda>k. (k, nodes_in old k)) state_keys)
      else partition_info d p)"
    using assms by (auto simp: add_line_def word_at_def Let_def line_partition_def line_key_def line_node_def
        partition_info_def same split: if_splits)
  show "map_of d' p = None \<longleftrightarrow> map_of d p = None \<and> p \<noteq> line_partition line"
    using assms by (auto simp: add_line_def word_at_def Let_def line_partition_def split: if_splits)
qed

lemma nodes_in_dset: "nodes_in (dset key v info) k = (if k = key then v else nodes_in info k)"
  by (simp add: nodes_in_def)

lemma nodes_in_map:
  "nodes_in (map (\<lambda>k. (k, nodes_in old k)) ks) k = (if k \<in> set ks then nodes_in old k else [])"
  by (induction ks) (auto simp: nodes_in_def)

definition known :: "string list \<Rightarrow> (string \<times> nodes_by_state) list \<Rightarrow> string \<Rightarrow> bool" where
  "known lines d p \<longleftrightarrow> (map_of d p = None \<longleftrightarrow> lines_of p lines = [])
     \<and> (\<forall>k n. n \<in> set (nodes_in (partition_info d p) k)
          \<longleftrightarrow> (\<exists>l \<in> set (lines_of p lines). line_key l = k \<and> line_node l = n))
     \<and> (lines_of p lines \<noteq> [] \<longrightarrow> fst ` set (partition_info d p)
          = (if length (lines_of p lines) = 1 then {line_key (hd (lines_of p lines))} else set state_keys))"

lemma known_step:
  assumes "known lines d p" and "add_line d line = Inr d'"
  shows "known (lines @ [line]) d' p"
proof (cases "p = line_partition line")
  case False
  then show ?thesis using assms(1) add_line_Inr [OF assms(2), of p]
    by (simp add: known_def lines_of_def)
next
  case True
  have ls: "lines_of p (lines @ [line]) = lines_of p lines @ [line]" using True by (simp add: lines_of_def)
  show ?thesis
  proof (cases "map_of d p")
    case None
    then have "lines_of p lines = []" using assms(1) by (simp add: known_def)
    then show ?thesis using True None add_line_Inr [OF assms(2), of p]
      by (auto simp: known_def ls ls [unfolded True] partition_info_def nodes_in_dset keys_dset nodes_in_def)
  next
    case (Some old)
    have outside: "k \<in> set state_keys" if "n \<in> set (nodes_in old k)" for n k
    proof -
      have "\<exists>l. line_key l = k" using that assms(1) Some by (auto simp: known_def partition_info_def)
      then obtain l where "line_key l = k" by blast
      then show ?thesis using state_key_in by (auto simp: line_key_def)
    qed
    have keys: "line_key line \<in> set state_keys" using state_key_in by (simp add: line_key_def)
    have "lines_of p lines \<noteq> []" using assms(1) Some by (simp add: known_def)
    then show ?thesis using True Some add_line_Inr [OF assms(2), of p] assms(1) keys
      by (auto simp: known_def ls ls [unfolded True] partition_info_def nodes_in_dset nodes_in_map keys_dset insert_absorb image_image dest: outside split: if_splits)
  qed
qed

text \<open>
  The report sorts every node that \<open>sinfo\<close> lists into the partition and state of its line, and
  no other. A partition that only one line names has an entry for the state of that line alone;
  every other partition has an entry for each state.
\<close>

lemma nodes_by_listed_state:
  assumes "get_all_nodes lines = Inr d" and "lines_of p lines \<noteq> []"
  shows "\<exists>info. map_of d p = Some info
    \<and> (\<forall>k n. n \<in> set (nodes_in info k) \<longleftrightarrow> (\<exists>l \<in> set (lines_of p lines). line_key l = k \<and> line_node l = n))
    \<and> fst ` set info = (if length (lines_of p lines) = 1 then {line_key (hd (lines_of p lines))} else set state_keys)"
proof -
  have "known lines d p"
  proof (rule fold_err_invariant_prefix [OF assms(1) [unfolded get_all_nodes_def], where P = "\<lambda>ys a. known ys a p"])
    show "known [] [] p" by (simp add: known_def lines_of_def partition_info_def nodes_in_def)
  qed (rule known_step)
  then show ?thesis using assms(2) by (auto simp: known_def partition_info_def split: option.splits)
qed

definition sinfo_sample :: "string list" where
  "sinfo_sample = [''\"idle n-1 q\"'', ''\"down n-2 q\"'', ''\"idle m-1 r\"'']"

lemma nodes_by_listed_state_witness:
  "\<exists>info. (case get_all_nodes sinfo_sample of Inr d \<Rightarrow> map_of d ''q'' = Some info | Inl e \<Rightarrow> False)
     \<and> fst ` set info = set state_keys"
proof -
  have r: "get_all_nodes sinfo_sample = Inr
      [(''q'', [(''idle'', [''n-1'']), (''allocated'', []), (''down'', [''n-2'']), (''drained'', []), (''others'', [])]),
       (''r'', [(''idle'', [''m-1''])])]" by code_simp
  have l: "lines_of ''q'' sinfo_sample = take 2 sinfo_sample" by code_simp
  have n: "length (lines_of ''q'' sinfo_sample) = 2" unfolding l by (simp add: sinfo_sample_def)
  then have "lines_of ''q'' sinfo_sample \<noteq> []" by auto
  from nodes_by_listed_state [OF r this] show ?thesis by (auto simp: r n)
qed

end
