(* ===== verification/Py_Regex.thy ===== *)
theory Py_Regex
  imports Py_String
begin

text \<open>
  The part of Python's \<open>re\<close> the health checks use: literals, repeated character classes, groups,
  options and alternatives. A pattern gives the list of its matches at a position in the order in
  which the backtracking matcher tries them; the first one counts. Classes are those of ASCII text.
\<close>

datatype regex =
    Lit string
  | Rep "char \<Rightarrow> bool" nat "nat option" bool
  | Cat regex regex
  | Alt regex regex
  | Opt regex
  | Group regex

text \<open>The groups that were set, the text that was consumed, and the rest.\<close>

type_synonym match = "string list \<times> string \<times> string"

text \<open>\<open>Rep p lo hi greedy\<close> is \<open>[p]{lo,hi}\<close>, followed by \<open>?\<close> when it is not greedy.\<close>

fun matches :: "regex \<Rightarrow> string \<Rightarrow> match list" where
  "matches (Lit l) s = (if starts_with s l then [([], l, drop (length l) s)] else [])"
| "matches (Rep p lo hi greedy) s =
     (let n = length (takeWhile p s);
          ks = [lo..<Suc (case hi of None \<Rightarrow> n | Some h \<Rightarrow> min n h)]
      in map (\<lambda>k. ([], take k s, drop k s)) (if greedy then rev ks else ks))"
| "matches (Cat a b) s =
     concat (map (\<lambda>(ga, xa, r). map (\<lambda>(gb, xb, r'). (ga @ gb, xa @ xb, r')) (matches b r)) (matches a s))"
| "matches (Alt a b) s = matches a s @ matches b s"
| "matches (Opt a) s = matches a s @ [([], [], s)]"
| "matches (Group a) s = map (\<lambda>(g, x, r). (x # g, x, r)) (matches a s)"

lemma matches_split: "(g, x, r) \<in> set (matches p s) \<Longrightarrow> s = x @ r"
proof (induction p arbitrary: s g x r)
  case (Lit l)
  then show ?case by (auto simp: starts_with_iff split: if_splits)
next
  case (Rep p lo hi greedy)
  then show ?case by (auto simp: Let_def split: if_splits)
next
  case (Cat a b)
  then obtain ga xa t gb xb where "(ga, xa, t) \<in> set (matches a s)" and "(gb, xb, r) \<in> set (matches b t)"
    and "x = xa @ xb" by auto
  then show ?case using Cat.IH by fastforce
qed auto

text \<open>\<open>re.match\<close> and \<open>re.search\<close>.\<close>

definition match_at :: "regex \<Rightarrow> string \<Rightarrow> match option" where
  "match_at p s = (case matches p s of [] \<Rightarrow> None | m # _ \<Rightarrow> Some m)"

fun search :: "regex \<Rightarrow> string \<Rightarrow> match option" where
  "search p s =
     (case match_at p s of
        Some m \<Rightarrow> Some m
      | None \<Rightarrow> (case s of [] \<Rightarrow> None | _ # s' \<Rightarrow> search p s'))"

declare search.simps [simp del]

lemma match_at_None: "match_at p s = None \<longleftrightarrow> matches p s = []"
  by (simp add: match_at_def split: list.split)

lemma match_at_split: "match_at p s = Some (g, x, r) \<Longrightarrow> s = x @ r"
  using matches_split [of g x r p s] by (auto simp: match_at_def split: list.splits)

lemma search_None: "search p s = None \<longleftrightarrow> (\<forall>a t. s = a @ t \<longrightarrow> matches p t = [])"
proof (induction s)
  case Nil
  show ?case by (subst search.simps) (auto simp flip: match_at_None split: option.split)
next
  case (Cons ch s)
  show ?case
  proof (cases "match_at p (ch # s)")
    case None
    then have "search p (ch # s) = search p s" by (subst search.simps) simp
    then show ?thesis using Cons.IH None by (auto simp: match_at_None Cons_eq_append_conv)
  next
    case (Some m)
    then have "search p (ch # s) \<noteq> None" by (subst search.simps) simp
    moreover have "matches p (ch # s) \<noteq> []" using Some by (metis match_at_None option.distinct(1))
    ultimately show ?thesis by (metis append_Nil)
  qed
qed

text \<open>\<open>re.findall\<close>: the groups of every match, and \<open>re.sub(p, '', s)\<close>, for patterns that match no empty text.\<close>

function find_all :: "regex \<Rightarrow> string \<Rightarrow> string list list" where
  "find_all p s =
     (case match_at p s of
        Some (g, x, r) \<Rightarrow>
          if x \<noteq> [] then g # find_all p r
          else (case s of [] \<Rightarrow> [g] | _ # s' \<Rightarrow> g # find_all p s')
      | None \<Rightarrow> (case s of [] \<Rightarrow> [] | _ # s' \<Rightarrow> find_all p s'))"
  by pat_completeness auto

termination
proof (relation "measure (\<lambda>(p, s). length s)")
  fix p s g x r m xs
  assume "match_at p s = Some m" and "(g, xs) = m" and "(x, r) = xs" and "x \<noteq> []"
  then have "s = x @ r" and "x \<noteq> []" using match_at_split [of p s g x r] by auto
  then show "((p, r), p, s) \<in> measure (\<lambda>(p, s). length s)" by simp
qed auto

declare find_all.simps [simp del]

fun remove_all :: "nat \<Rightarrow> regex \<Rightarrow> string \<Rightarrow> string" where
  "remove_all 0 p s = s"
| "remove_all (Suc n) p s =
     (case match_at p s of
        Some (g, x, r) \<Rightarrow> (case s of [] \<Rightarrow> [] | ch # s' \<Rightarrow> if x \<noteq> [] then remove_all n p r else ch # remove_all n p s')
      | None \<Rightarrow> (case s of [] \<Rightarrow> [] | ch # s' \<Rightarrow> ch # remove_all n p s'))"

definition sub_empty :: "regex \<Rightarrow> string \<Rightarrow> string" where
  "sub_empty p s = remove_all (length s) p s"

lemma find_all_Nil: "find_all p s = [] \<longleftrightarrow> (\<forall>a t. s = a @ t \<longrightarrow> matches p t = [])"
proof (induction s)
  case Nil
  show ?case by (subst find_all.simps) (auto simp flip: match_at_None split: option.split prod.split)
next
  case (Cons ch s)
  show ?case
  proof (cases "match_at p (ch # s)")
    case None
    then have "find_all p (ch # s) = find_all p s" by (subst find_all.simps) simp
    then show ?thesis using Cons.IH None by (auto simp: match_at_None Cons_eq_append_conv)
  next
    case (Some m)
    then have "find_all p (ch # s) \<noteq> []" by (subst find_all.simps) (auto split: prod.split)
    moreover have "matches p (ch # s) \<noteq> []" using Some by (metis match_at_None option.distinct(1))
    ultimately show ?thesis by (metis append_Nil)
  qed
qed

section \<open>Classes and shorthands\<close>

definition seq :: "regex list \<Rightarrow> regex" where
  "seq ps = foldr Cat ps (Lit [])"

definition is_word :: "char \<Rightarrow> bool" where
  "is_word ch \<longleftrightarrow> is_digit ch \<or> is_lower_alpha ch \<or> is_upper_alpha ch \<or> ch = CHR ''_''"

definition any_char :: "char \<Rightarrow> bool" where
  "any_char ch \<longleftrightarrow> ch \<noteq> CHR 0x0A"

abbreviation many :: "(char \<Rightarrow> bool) \<Rightarrow> regex" where
  "many p \<equiv> Rep p 0 None True"

abbreviation many1 :: "(char \<Rightarrow> bool) \<Rightarrow> regex" where
  "many1 p \<equiv> Rep p 1 None True"

abbreviation lazy :: "(char \<Rightarrow> bool) \<Rightarrow> regex" where
  "lazy p \<equiv> Rep p 0 None False"

abbreviation times :: "(char \<Rightarrow> bool) \<Rightarrow> nat \<Rightarrow> regex" where
  "times p n \<equiv> Rep p n (Some n) True"

lemma matches_Lit_in: "(g, x, r) \<in> set (matches (Lit l) s) \<longleftrightarrow> g = [] \<and> x = l \<and> s = l @ r"
  by (auto simp: starts_with_iff)

lemma matches_Lit: "matches (Lit l) s \<noteq> [] \<longleftrightarrow> (\<exists>t. s = l @ t)"
  by (simp add: starts_with_iff)

lemma matches_Cat: "matches (Cat a b) s \<noteq> [] \<longleftrightarrow> (\<exists>g x r. (g, x, r) \<in> set (matches a s) \<and> matches b r \<noteq> [])"
  by fastforce

lemma matches_Group: "(g, x, r) \<in> set (matches (Group p) s) \<longleftrightarrow> (\<exists>g'. g = x # g' \<and> (g', x, r) \<in> set (matches p s))"
  by (force simp: image_iff)

lemma matches_lazy: "(g, x, r) \<in> set (matches (Rep p 0 None b) s) \<longleftrightarrow> g = [] \<and> s = x @ r \<and> list_all p x"
proof -
  have "(g, x, r) \<in> set (matches (Rep p 0 None b) s) \<longleftrightarrow>
      g = [] \<and> (\<exists>k \<le> length (takeWhile p s). x = take k s \<and> r = drop k s)"
    by (cases b) (auto simp: Let_def image_iff Bex_def less_Suc_eq_le simp del: upt_Suc)
  also have "\<dots> \<longleftrightarrow> g = [] \<and> s = x @ r \<and> list_all p x"
  proof (intro conj_cong refl iffI)
    assume "\<exists>k \<le> length (takeWhile p s). x = take k s \<and> r = drop k s"
    then obtain k where k: "k \<le> length (takeWhile p s)" "x = take k s" "r = drop k s" by blast
    have "x = take k (takeWhile p s)"
      using k by (metis append_eq_conv_conj take_append takeWhile_dropWhile_id take_all_iff diff_is_0_eq take0 append_Nil2)
    then have "list_all p x" by (auto simp: list_all_iff dest!: in_set_takeD set_takeWhileD)
    moreover have "s = x @ r" unfolding k(2,3) by simp
    ultimately show "s = x @ r \<and> list_all p x" by simp
  next
    assume "s = x @ r \<and> list_all p x"
    then have "length x \<le> length (takeWhile p s)" "x = take (length x) s" "r = drop (length x) s"
      by (auto simp: list_all_iff)
    then show "\<exists>k \<le> length (takeWhile p s). x = take k s \<and> r = drop k s" by blast
  qed
  finally show ?thesis .
qed

end
