(* ===== verification/Gpu_Bandwidth.thy ===== *)
theory Gpu_Bandwidth
  imports Py_Regex Prelude
begin

text \<open>
  The GPU bandwidth test (\<open>playbooks/roles/healthchecks/files/gpu_bw_test.py\<close>), and what the health
  checks know of a host: the results of the commands they run and the floating point numbers in
  their output are parameters. A number is a rational.
\<close>

section \<open>The host\<close>

datatype check_error = File_not_found | Check_raised

text \<open>The output and error output of a command, given with its arguments; \<open>h_run_gpu\<close> is a command run with
  \<open>CUDA_VISIBLE_DEVICES\<close> set to one device.\<close>

record host =
  h_root :: bool
  h_run :: "string list \<Rightarrow> check_error + string \<times> string"
  h_run_gpu :: "nat \<Rightarrow> string list \<Rightarrow> check_error + string \<times> string"
  h_float :: "string \<Rightarrow> rat option"

definition run_out :: "host \<Rightarrow> string list \<Rightarrow> check_error + string" where
  "run_out h argv = rbind (h_run h argv) (\<lambda>(out, _). Inr out)"

definition run_gpu :: "host \<Rightarrow> nat \<Rightarrow> string list \<Rightarrow> check_error + string" where
  "run_gpu h device argv = rbind (h_run_gpu h device argv) (\<lambda>(out, _). Inr out)"

definition as_root :: "host \<Rightarrow> string list \<Rightarrow> string list" where
  "as_root h argv = (if h_root h then argv else ''sudo'' # argv)"

definition lines_of_output :: "string \<Rightarrow> string list" where
  "lines_of_output out = split_on CHR 0x0A out"

definition nth_err :: "'a list \<Rightarrow> nat \<Rightarrow> check_error + 'a" where
  "nth_err xs i = (if i < length xs then Inr (xs ! i) else Inl Check_raised)"

lemma nth_err_Inr [simp]: "nth_err xs i = Inr x \<longleftrightarrow> i < length xs \<and> x = xs ! i"
  by (auto simp: nth_err_def)

section \<open>Measuring\<close>

definition get_numa_nodes :: "host \<Rightarrow> check_error + int" where
  "get_numa_nodes h =
     rbind (run_out h [''numactl'', ''-H'']) (\<lambda>out.
     rbind (nth_err (filter (\<lambda>l. starts_with l ''available:'') (lines_of_output out)) 0) (\<lambda>line.
     rbind (nth_err (words_by py_space line) 1) (\<lambda>w. need Check_raised (py_int w))))"

definition get_gpus :: "host \<Rightarrow> check_error + nat" where
  "get_gpus h =
     rbind (run_out h [''nvidia-smi'', ''-L'']) (\<lambda>out.
     Inr (length (filter (\<lambda>l. starts_with l ''GPU'') (lines_of_output out))))"

definition process_pattern :: regex where
  "process_pattern = seq [Lit [CHR 0x0A], Lit ''GPU'', times py_space 1, Group (many any_char), many1 py_space,
     Lit ''Processes'', many1 py_space, Lit '':'', many1 py_space, Group (many any_char)]"

definition gpu_idle_count :: "string \<Rightarrow> nat" where
  "gpu_idle_count out = length (filter (\<lambda>g. g ! 1 = ''None'') (find_all process_pattern out))"

definition transfer_size :: string where
  "transfer_size = ''32000000''"

definition bandwidth_cmd :: "string \<Rightarrow> int \<Rightarrow> string \<Rightarrow> string list" where
  "bandwidth_cmd exe node direction = [''numactl'', ''-N'' @ show_int node, ''-m'' @ show_int node, exe, direction]"

text \<open>The second word of the first line with the transfer size.\<close>

definition bandwidth_in :: "host \<Rightarrow> string \<Rightarrow> check_error + rat" where
  "bandwidth_in h out =
     rbind (nth_err (filter (\<lambda>l. contains l transfer_size) (lines_of_output out)) 0) (\<lambda>line.
     rbind (nth_err (words_by py_space line) 1) (\<lambda>w. need Check_raised (h_float h w)))"

definition measure_device :: "host \<Rightarrow> string \<Rightarrow> int \<Rightarrow> nat \<Rightarrow> check_error + (rat \<times> rat)" where
  "measure_device h exe gpus_per_numa device =
     rbind (check Check_raised (gpus_per_numa \<noteq> 0)) (\<lambda>_.
     let node = int device div gpus_per_numa
     in rbind (run_gpu h device (bandwidth_cmd exe node ''-dtoh'')) (\<lambda>out.
        if contains out transfer_size
        then rbind (bandwidth_in h out) (\<lambda>dtoh.
             rbind (run_gpu h device (bandwidth_cmd exe node ''-htod'')) (\<lambda>out'.
             rbind (bandwidth_in h out') (\<lambda>htod. Inr (dtoh, htod))))
        else Inr (-1, -1)))"

text \<open>\<open>None\<close> when processes run on the GPUs; the one iteration otherwise, device by device.\<close>

definition measure_gpu_bw :: "host \<Rightarrow> string \<Rightarrow> check_error + (nat \<times> rat \<times> rat) list option" where
  "measure_gpu_bw h exe =
     rbind (get_gpus h) (\<lambda>gpus.
     rbind (get_numa_nodes h) (\<lambda>numas.
     rbind (check Check_raised (numas \<noteq> 0)) (\<lambda>_.
     rbind (run_out h [''nvidia-smi'', ''-q'', ''-d'', ''PIDS'']) (\<lambda>out.
     if gpu_idle_count out \<noteq> 8 then Inr None
     else rbind (map_err (\<lambda>device. rbind (measure_device h exe (int gpus div numas) device) (\<lambda>(dtoh, htod).
              Inr (device, dtoh, htod))) [0..<gpus]) (\<lambda>results.
          rbind (check Check_raised (gpus \<noteq> 0)) (\<lambda>_. Inr (Some results)))))))"

section \<open>Validation\<close>

definition bandwidth_threshold :: rat where
  "bandwidth_threshold = 52"

text \<open>The average of the one measurement is the measurement. An issue is its device, direction and value.\<close>

datatype bandwidth_issue = Not_run | Below_dtoh nat rat | Below_htod nat rat

definition device_issues :: "nat \<times> rat \<times> rat \<Rightarrow> bandwidth_issue list" where
  "device_issues = (\<lambda>(device, dtoh, htod).
     (if dtoh < bandwidth_threshold then [Below_dtoh device dtoh] else [])
     @ (if htod < bandwidth_threshold then [Below_htod device htod] else []))"

record bandwidth_verdict =
  bv_failed :: bool
  bv_issues :: "bandwidth_issue list"

definition validate_results :: "(nat \<times> rat \<times> rat) list option \<Rightarrow> bandwidth_verdict" where
  "validate_results results =
     (case results of
        None \<Rightarrow> \<lparr>bv_failed = True, bv_issues = [Not_run]\<rparr>
      | Some rs \<Rightarrow> let issues = concat (map device_issues rs) in \<lparr>bv_failed = issues \<noteq> [], bv_issues = issues\<rparr>)"

definition bandwidth_test :: "host \<Rightarrow> string \<Rightarrow> check_error + bandwidth_verdict" where
  "bandwidth_test h exe = rbind (measure_gpu_bw h exe) (\<lambda>results. Inr (validate_results results))"

end
