(* ===== verification/Xid_Check.thy ===== *)
theory Xid_Check
  imports Py_Regex Prelude
begin

text \<open>
  The check for GPU Xid errors in the kernel log
  (\<open>playbooks/roles/healthchecks/files/xid_checker.py\<close>). The output of \<open>dmesg\<close>, or the exception of
  the call, is an input.
\<close>

section \<open>The errors looked for\<close>

datatype severity = Critical | Warn

definition xid_ec :: "(string \<times> string \<times> severity) list" where
  "xid_ec = [
    (''1'', ''Invalid or corrupted push buffer stream'', Critical),
    (''2'', ''Invalid or corrupted push buffer stream'', Critical),
    (''3'', ''Invalid or corrupted push buffer stream'', Critical),
    (''4'', ''Invalid or corrupted push buffer stream'', Critical),
    (''5'', ''Unused'', Critical),
    (''6'', ''Invalid or corrupted push buffer stream'', Critical),
    (''7'', ''Invalid or corrupted push buffer address'', Critical),
    (''8'', ''GPU stopped processing'', Critical),
    (''9'', ''Driver error programming GPU'', Critical),
    (''10'', ''Unused'', Critical),
    (''11'', ''Invalid or corrupted push buffer stream'', Critical),
    (''12'', ''Driver error handling GPU exception'', Critical),
    (''13'', ''Graphics Engine Exception'', Critical),
    (''14'', ''Unused'', Warn),
    (''15'', ''Unused'', Warn),
    (''16'', ''Display engine hung'', Warn),
    (''17'', ''Unused'', Warn),
    (''18'', ''Bus mastering disabled in PCI Config Space'', Warn),
    (''19'', ''Display Engine error'', Warn),
    (''20'', ''Invalid or corrupted Mpeg push buffer'', Warn),
    (''21'', ''Invalid or corrupted Motion Estimation push buffer'', Warn),
    (''22'', ''Invalid or corrupted Video Processor push buffer'', Warn),
    (''23'', ''Unused'', Warn),
    (''24'', ''GPU semaphore timeout'', Warn),
    (''25'', ''Invalid or illegal push buffer stream'', Warn),
    (''26'', ''Framebuffer timeout'', Warn),
    (''27'', ''Video processor exception'', Warn),
    (''28'', ''Video processor exception'', Warn),
    (''29'', ''Video processor exception'', Warn),
    (''30'', ''GPU semaphore access error'', Warn),
    (''31'', ''GPU memory page fault'', Critical),
    (''32'', ''Invalid or corrupted push buffer stream'', Warn),
    (''33'', ''Internal micro-controller error'', Warn),
    (''34'', ''Video processor exception'', Warn),
    (''35'', ''Video processor exception'', Warn),
    (''36'', ''Video processor exception'', Warn),
    (''37'', ''Driver firmware error'', Warn),
    (''38'', ''Driver firmware error'', Warn),
    (''39'', ''Unused'', Warn),
    (''40'', ''Unused'', Warn),
    (''41'', ''Unused'', Warn),
    (''42'', ''Video processor exception'', Warn),
    (''43'', ''GPU stopped processing'', Warn),
    (''44'', ''Graphics Engine fault during context switch'', Warn),
    (''45'', ''Preemptive cleanup, due to previous errors -- Most likely to see when running multiple cuda applications and hitting a DBE'', Warn),
    (''46'', ''GPU stopped processing'', Warn),
    (''47'', ''Video processor exception'', Warn),
    (''48'', ''Double Bit ECC Error'', Critical),
    (''49'', ''Unused'', Warn),
    (''50'', ''Unused'', Warn),
    (''51'', ''Unused'', Warn),
    (''52'', ''Unused'', Warn),
    (''53'', ''Unused'', Warn),
    (''54'', ''Auxiliary power is not connected to the GPU board'', Warn),
    (''55'', ''Unused'', Warn),
    (''56'', ''Display Engine error'', Critical),
    (''57'', ''Error programming video memory interface'', Critical),
    (''58'', ''Unstable video memory interface detected'', Critical),
    (''59'', ''Internal micro-controller error (older drivers)'', Warn),
    (''60'', ''Video processor exception'', Warn),
    (''61'', ''Internal micro-controller breakpoint/warning (newer drivers)'', Warn),
    (''62'', ''Internal micro-controller halt'', Critical),
    (''63'', ''ECC page retirement or row remapping recording event'', Critical),
    (''64'', ''ECC page retirement or row remapper recording failure'', Critical),
    (''65'', ''Video processor exception'', Critical),
    (''66'', ''Illegal access by driver'', Warn),
    (''67'', ''Illegal access by driver'', Warn),
    (''68'', ''NVDEC0 Exception'', Critical),
    (''69'', ''Graphics Engine class error'', Critical),
    (''70'', ''CE3: Unknown Error'', Warn),
    (''71'', ''CE4: Unknown Error'', Warn),
    (''72'', ''CE5: Unknown Error'', Warn),
    (''73'', ''NVENC2 Error'', Critical),
    (''74'', ''NVLINK Error'', Critical),
    (''75'', ''CE6: Unknown Error'', Warn),
    (''76'', ''CE7: Unknown Error'', Warn),
    (''77'', ''CE8: Unknown Error'', Warn),
    (''78'', ''vGPU Start Error'', Warn),
    (''79'', ''GPU has fallen off the bus'', Critical),
    (''80'', ''Corrupted data sent to GPU'', Critical),
    (''81'', ''VGA Subsystem Error'', Critical),
    (''82'', ''NVJPGO Error'', Warn),
    (''83'', ''NVDEC1 Error'', Warn),
    (''84'', ''NVDEC2 Error'', Warn),
    (''85'', ''CE9: Unknown Error'', Warn),
    (''86'', ''OFA Exception'', Warn),
    (''87'', ''Reserved'', Warn),
    (''88'', ''NVDEC3 Error'', Warn),
    (''89'', ''NVDEC4 Error'', Warn),
    (''90'', ''Reserved'', Warn),
    (''91'', ''Reserved'', Warn),
    (''92'', ''High single-bit ECC error rate'', Critical),
    (''93'', ''Non-fatal violation of provisioned InfoROM wear limit'', Warn),
    (''94'', ''Contained ECC error'', Critical),
    (''95'', ''Uncontained ECC error'', Critical),
    (''96'', ''NVDEC5 Error'', Warn),
    (''97'', ''NVDEC6 Error'', Warn),
    (''98'', ''NVDEC7 Error'', Warn),
    (''99'', ''NVJPG1 Error'', Warn),
    (''100'', ''NVJPG2 Error'', Warn),
    (''101'', ''NVJPG3 Error'', Warn),
    (''102'', ''NVJPG4 Error'', Warn),
    (''103'', ''NVJPG5 Error'', Warn),
    (''104'', ''NVJPG6 Error'', Warn),
    (''105'', ''NVJPG7 Error'', Warn),
    (''106'', ''SMBPBI Test Message'', Warn),
    (''107'', ''SMBPBI Test Message Silent'', Warn),
    (''108'', ''Reserved'', Warn),
    (''109'', ''Context Switch Timeout Error'', Critical),
    (''110'', ''Security Fault Error'', Warn),
    (''111'', ''Display Bundle Error Event'', Warn),
    (''112'', ''Display Supervisor Error'', Warn),
    (''113'', ''DP Link Training Error'', Warn),
    (''114'', ''Display Pipeline Underflow Error'', Warn),
    (''115'', ''Display Core Channel Error'', Warn),
    (''116'', ''Display Window Channel Error'', Warn),
    (''117'', ''Display Cursor Channel Error'', Warn),
    (''118'', ''Display Pixel Pipeline Error'', Warn),
    (''119'', ''GSP RPC Timeout'', Critical),
    (''120'', ''GSP Error'', Critical),
    (''121'', ''C2C Link Error'', Critical),
    (''122'', ''SPI PMU RPC Read Failure'', Warn),
    (''123'', ''SPI PMU RPC Write Failure'', Warn),
    (''124'', ''SPI PMU RPC Erase Failure'', Warn),
    (''125'', ''Inforom FS Failure'', Warn),
    (''126'', ''Reserved'', Warn),
    (''127'', ''Reserved'', Warn),
    (''128'', ''Reserved'', Warn),
    (''129'', ''Reserved'', Warn),
    (''130'', ''Reserved'', Warn),
    (''131'', ''Reserved'', Warn),
    (''132'', ''Reserved'', Warn),
    (''133'', ''Reserved'', Warn),
    (''134'', ''Reserved'', Warn),
    (''135'', ''Reserved'', Warn),
    (''136'', ''Reserved'', Warn),
    (''137'', ''Reserved'', Warn),
    (''138'', ''Reserved'', Warn),
    (''139'', ''Reserved'', Warn),
    (''140'', ''Unrecovered ECC Error'', Warn),
    (''141'', ''Reserved'', Warn),
    (''142'', ''Reserved'', Warn),
    (''143'', ''GPU Initialization Failure'', Warn)]"

section \<open>Searching the log\<close>

text \<open>\<open>NVRM: Xid \(PCI:(.*?): {XID},\<close>.\<close>

definition xid_pattern :: "string \<Rightarrow> regex" where
  "xid_pattern xid = Cat (Lit ''NVRM: Xid (PCI:'') (Cat (Group (lazy any_char)) (Lit ('': '' @ xid @ '','')))"

definition xid_devices :: "string \<Rightarrow> string \<Rightarrow> string list" where
  "xid_devices dmesg xid = map hd (find_all (xid_pattern xid) dmesg)"

text \<open>The loop that counts the matches per device.\<close>

definition count_devices :: "string list \<Rightarrow> (string \<times> nat) list" where
  "count_devices found =
     fold (\<lambda>m d. case map_of d m of None \<Rightarrow> dset m 1 d | Some n \<Rightarrow> dset m (n + 1) d) found []"

record xid_report =
  xr_failed :: bool
  xr_results :: "(string \<times> (string \<times> nat) list \<times> string) list"

definition xid_step :: "string \<Rightarrow> xid_report \<Rightarrow> string \<times> string \<times> severity \<Rightarrow> xid_report" where
  "xid_step dmesg rep = (\<lambda>(xid, description, sev).
     let tmp_dict = count_devices (xid_devices dmesg xid)
     in if tmp_dict = [] then rep
        else \<lparr>xr_failed = xr_failed rep \<or> sev = Critical,
              xr_results = dset xid (tmp_dict, description) (xr_results rep)\<rparr>)"

definition check_gpu_xid :: "string \<Rightarrow> xid_report" where
  "check_gpu_xid dmesg =
     (let none = \<lparr>xr_failed = False, xr_results = []\<rparr>
      in if contains dmesg ''NVRM: Xid'' then foldl (xid_step dmesg) none xid_ec else none)"

section \<open>What is found\<close>

lemma xid_pattern_matches:
  "matches (xid_pattern xid) t \<noteq> []
     \<longleftrightarrow> (\<exists>g b. t = ''NVRM: Xid (PCI:'' @ g @ '': '' @ xid @ '','' @ b \<and> CHR 0x0A \<notin> set g)"
  unfolding xid_pattern_def matches_Cat matches_Lit matches_Group matches_lazy matches_Lit_in
  by (auto simp: any_char_def list_all_iff)

definition xid_event :: "string \<Rightarrow> string \<Rightarrow> bool" where
  "xid_event xid dmesg \<longleftrightarrow>
     (\<exists>a g b. dmesg = a @ ''NVRM: Xid (PCI:'' @ g @ '': '' @ xid @ '','' @ b \<and> CHR 0x0A \<notin> set g)"

lemma xid_devices_Nil: "xid_devices dmesg xid = [] \<longleftrightarrow> \<not> xid_event xid dmesg"
proof -
  have "xid_devices dmesg xid = [] \<longleftrightarrow> (\<forall>a t. dmesg = a @ t \<longrightarrow> matches (xid_pattern xid) t = [])"
    by (simp add: xid_devices_def find_all_Nil)
  also have "\<dots> \<longleftrightarrow> \<not> (\<exists>a t. dmesg = a @ t \<and> matches (xid_pattern xid) t \<noteq> [])" by blast
  also have "\<dots> \<longleftrightarrow> \<not> xid_event xid dmesg" unfolding xid_pattern_matches xid_event_def by auto
  finally show ?thesis .
qed

lemma contains_append: "contains (a @ sub @ b) sub"
proof (induction a)
  case Nil
  show ?case
  proof (cases "sub @ b")
    case (Cons ch s)
    then show ?thesis using starts_with_append [of sub b] by simp
  qed simp
qed simp

lemma xid_event_contains: "xid_event xid dmesg \<Longrightarrow> contains dmesg ''NVRM: Xid''"
proof -
  assume "xid_event xid dmesg"
  then obtain a g b where "dmesg = a @ ''NVRM: Xid'' @ ('' (PCI:'' @ g @ '': '' @ xid @ '','' @ b)"
    by (auto simp: xid_event_def)
  then show ?thesis by (simp only: contains_append)
qed

lemma count_devices_snoc:
  "count_devices (found @ [m]) = (case map_of (count_devices found) m of
     None \<Rightarrow> dset m 1 (count_devices found) | Some n \<Rightarrow> dset m (n + 1) (count_devices found))"
  unfolding count_devices_def fold_append by simp

lemma map_of_count_devices:
  "map_of (count_devices found) m = (if m \<in> set found then Some (count_list found m) else None)"
proof (induction found rule: rev_induct)
  case Nil
  then show ?case by (simp add: count_devices_def)
next
  case (snoc x found)
  then show ?case by (auto simp: count_devices_snoc count_list_0_iff split: option.split)
qed

lemma count_devices_Nil [simp]: "count_devices found = [] \<longleftrightarrow> found = []"
proof
  assume "count_devices found = []"
  then have "map_of (count_devices found) (hd found) = None" by simp
  then have "hd found \<notin> set found" by (auto simp: map_of_count_devices split: if_splits)
  then show "found = []" using hd_in_set by blast
qed (simp add: count_devices_def)

lemma xid_fold:
  assumes "distinct (map fst table)"
  shows "xr_failed (foldl (xid_step dmesg) rep table)
      \<longleftrightarrow> xr_failed rep \<or> (\<exists>xid d. (xid, d, Critical) \<in> set table \<and> xid_event xid dmesg)"
    and "map_of (xr_results (foldl (xid_step dmesg) rep table)) xid =
      (case map_of table xid of
         Some (d, _) \<Rightarrow> if xid_event xid dmesg then Some (count_devices (xid_devices dmesg xid), d)
           else map_of (xr_results rep) xid
       | None \<Rightarrow> map_of (xr_results rep) xid)"
  using assms
proof (induction table arbitrary: rep)
  case (Cons row table)
  obtain x d sev where row: "row = (x, d, sev)" by (cases row)
  have step: "xid_step dmesg rep row = (if xid_event x dmesg
      then \<lparr>xr_failed = xr_failed rep \<or> sev = Critical, xr_results = dset x (count_devices (xid_devices dmesg x), d) (xr_results rep)\<rparr>
      else rep)" for rep
    by (simp add: xid_step_def row Let_def xid_devices_Nil)
  case 1
  then show ?case using Cons.IH(1) [of "xid_step dmesg rep row"] by (auto simp: step [unfolded row] row)
  case 2
  then have "map_of table x = None" by (simp add: row map_of_eq_None_iff)
  with 2 show ?case using Cons.IH(2) [of "xid_step dmesg rep row"] by (auto simp: step [unfolded row] row split: option.split)
qed auto

lemma xid_ec_numbers: "map fst xid_ec = map show_nat [1..<144]"
  by code_simp

lemma inj_show_nat: "inj show_nat"
  by (rule inj_on_inverseI [where g = digits_value]) simp

lemma xid_ec_distinct: "distinct (map fst xid_ec)"
  unfolding xid_ec_numbers by (simp add: distinct_map inj_on_subset [OF inj_show_nat] del: upt_conv_Cons)

lemma xid_failed_iff:
  "xr_failed (check_gpu_xid dmesg) \<longleftrightarrow> (\<exists>xid d. (xid, d, Critical) \<in> set xid_ec \<and> xid_event xid dmesg)"
  using xid_fold(1) [OF xid_ec_distinct, of dmesg "\<lparr>xr_failed = False, xr_results = []\<rparr>"]
  by (auto simp: check_gpu_xid_def Let_def dest: xid_event_contains)

lemma xid_results_lookup:
  "map_of (xr_results (check_gpu_xid dmesg)) xid =
      (case map_of xid_ec xid of
         Some (d, _) \<Rightarrow> if xid_event xid dmesg then Some (count_devices (xid_devices dmesg xid), d) else None
       | None \<Rightarrow> None)"
  using xid_fold(2) [OF xid_ec_distinct, of dmesg "\<lparr>xr_failed = False, xr_results = []\<rparr>"]
  by (auto simp: check_gpu_xid_def Let_def dest: xid_event_contains split: option.split)

text \<open>
  C34: the check fails exactly when a line of the kernel log holds an event of a critical error,
  that is \<open>NVRM: Xid (PCI:\<close>, the device, \<open>: \<close>, the number of the error and a comma; and the report names
  exactly the known errors with an event, critical or not, with the number of events per device
  the log shows.
\<close>

theorem xid_check_reports_events:
  "(xr_failed (check_gpu_xid dmesg) \<longleftrightarrow> (\<exists>xid d. (xid, d, Critical) \<in> set xid_ec \<and> xid_event xid dmesg))
   \<and> map_of (xr_results (check_gpu_xid dmesg)) xid =
      (case map_of xid_ec xid of
         Some (d, _) \<Rightarrow> if xid_event xid dmesg then Some (count_devices (xid_devices dmesg xid), d) else None
       | None \<Rightarrow> None)
   \<and> map_of (count_devices (xid_devices dmesg xid)) pci =
      (case count_list (xid_devices dmesg xid) pci of 0 \<Rightarrow> None | Suc n \<Rightarrow> Some (Suc n))"
proof -
  have "map_of (count_devices (xid_devices dmesg xid)) pci =
      (case count_list (xid_devices dmesg xid) pci of 0 \<Rightarrow> None | Suc n \<Rightarrow> Some (Suc n))"
    by (auto simp: map_of_count_devices count_list_0_iff split: nat.split)
  then show ?thesis by (simp only: xid_failed_iff xid_results_lookup simp_thms)
qed

end
