(* ===== verification/Link_Flapping.thy ===== *)
theory Link_Flapping
  imports Py_Regex Prelude
begin

text \<open>
  The check for flapping RDMA links (\<open>playbooks/roles/healthchecks/files/rdma_link_flapping.py\<close>). The
  lines of the system log, the time and the time of the last boot are inputs; so is the UTC offset
  \<open>time.mktime\<close> uses for a local time.
\<close>

section \<open>Link events in the log\<close>

definition stamp_pattern :: regex where
  "stamp_pattern = seq [times is_word 3, many1 py_space, Rep is_digit 1 (Some 2) True, many1 py_space,
     times is_digit 2, Lit '':'', times is_digit 2, Lit '':'', times is_digit 2]"

definition not_space :: "char \<Rightarrow> bool" where
  "not_space ch \<longleftrightarrow> \<not> py_space ch"

definition failure_pattern :: regex where
  "failure_pattern = seq [Group stamp_pattern, many1 py_space, many1 not_space, many1 py_space, Lit ''wpa_supplicant'',
     Opt (seq [Lit ''['', many1 is_digit, Lit '']'']), Lit '': '', Group (many1 is_word),
     Lit '': CTRL-EVENT-EAP-FAILURE EAP authentication failed'']"

definition down_pattern :: regex where
  "down_pattern = seq [Group stamp_pattern, many1 py_space, many1 not_space, many1 py_space, Lit ''kernel: '',
     Opt (seq [Lit ''['', many1 is_digit, Lit ''.'', many1 is_digit, Lit '']'', times py_space 1]),
     Lit ''mlx5_core '', many1 not_space, Lit '' '', Group (many1 is_word), Lit '': Link down'']"

record link_events =
  le_failures :: "string list"
  le_link_down :: "string list"

text \<open>The groups of a match: the time stamp and the interface.\<close>

definition event_in :: "regex \<Rightarrow> string \<Rightarrow> (string \<times> string) option" where
  "event_in p line = (case search p line of Some (stamp # interface # _, _, _) \<Rightarrow> Some (stamp, interface) | _ \<Rightarrow> None)"

definition add_failure :: "string \<Rightarrow> (string \<times> link_events) list \<Rightarrow> (string \<times> link_events) list" where
  "add_failure line link_data =
     (case event_in failure_pattern line of
        None \<Rightarrow> link_data
      | Some (stamp, interface) \<Rightarrow>
          (case map_of link_data interface of
             None \<Rightarrow> dset interface \<lparr>le_failures = [stamp], le_link_down = []\<rparr> link_data
           | Some e \<Rightarrow> dset interface (e\<lparr>le_failures := le_failures e @ [stamp]\<rparr>) link_data))"

definition add_down :: "string \<Rightarrow> (string \<times> link_events) list \<Rightarrow> (string \<times> link_events) list" where
  "add_down line link_data =
     (case event_in down_pattern line of
        None \<Rightarrow> link_data
      | Some (stamp, interface) \<Rightarrow>
          (case map_of link_data interface of
             None \<Rightarrow> dset interface \<lparr>le_failures = [], le_link_down = [stamp]\<rparr> link_data
           | Some e \<Rightarrow> dset interface (e\<lparr>le_link_down := le_link_down e @ [stamp]\<rparr>) link_data))"

definition get_rdma_link_failures :: "string list \<Rightarrow> (string \<times> link_events) list" where
  "get_rdma_link_failures lines = fold (\<lambda>line d. add_down line (add_failure line d)) lines []"

section \<open>Dates\<close>

record date_time =
  dt_year :: int
  dt_month :: nat
  dt_day :: nat
  dt_hour :: nat
  dt_minute :: nat
  dt_second :: nat

definition months :: "string list" where
  "months = [''Jan'', ''Feb'', ''Mar'', ''Apr'', ''May'', ''Jun'', ''Jul'', ''Aug'', ''Sep'', ''Oct'', ''Nov'', ''Dec'']"

definition leap_year :: "int \<Rightarrow> bool" where
  "leap_year y \<longleftrightarrow> y mod 4 = 0 \<and> (y mod 100 \<noteq> 0 \<or> y mod 400 = 0)"

definition days_in_month :: "int \<Rightarrow> nat \<Rightarrow> nat" where
  "days_in_month y m =
     (if m = 2 then (if leap_year y then 29 else 28) else if m \<in> {4, 6, 9, 11} then 30 else 31)"

text \<open>\<open>%b %d %H:%M:%S\<close>, which \<open>strptime\<close> turns into this pattern; the year it fills in is 1900, also for
  the 29th of February, which \<open>datetime\<close> then refuses.\<close>

definition digit_in :: "string \<Rightarrow> char \<Rightarrow> bool" where
  "digit_in ds ch \<longleftrightarrow> ch \<in> set ds"

definition one_digit :: regex where
  "one_digit = times is_digit 1"

definition sixty :: regex where
  "sixty = Alt (seq [times (digit_in ''012345'') 1, one_digit]) one_digit"

definition day_pattern :: regex where
  "day_pattern = Alt (seq [Lit ''3'', times (digit_in ''01'') 1]) (Alt (seq [times (digit_in ''12'') 1, one_digit])
     (Alt (seq [Lit ''0'', times (digit_in ''123456789'') 1]) (Alt (times (digit_in ''123456789'') 1)
       (seq [Lit '' '', times (digit_in ''123456789'') 1]))))"

definition clock_pattern :: regex where
  "clock_pattern = seq [many1 py_space, Group day_pattern,
     many1 py_space,
     Group (Alt (seq [Lit ''2'', times (digit_in ''0123'') 1]) (Alt (seq [times (digit_in ''01'') 1, one_digit]) one_digit)),
     Lit '':'', Group sixty, Lit '':'',
     Group (Alt (seq [Lit ''6'', times (digit_in ''01'') 1]) sixty)]"

datatype flap_error = Bad_date

definition month_number :: "string \<Rightarrow> nat option" where
  "month_number name =
     (case filter (\<lambda>(_, m). py_lower m = py_lower name) (enumerate 1 months) of [] \<Rightarrow> None | (i, _) # _ \<Rightarrow> Some i)"

definition number_of :: "string \<Rightarrow> nat" where
  "number_of s = digits_value (py_strip s)"

definition parse_stamp :: "string \<Rightarrow> flap_error + date_time" where
  "parse_stamp s =
     rbind (need Bad_date (month_number (take 3 s))) (\<lambda>month.
     rbind (need Bad_date (match_at clock_pattern (drop 3 s))) (\<lambda>(groups, _, rest).
     let d = \<lparr>dt_year = 1900, dt_month = month, dt_day = number_of (groups ! 0), dt_hour = number_of (groups ! 1),
              dt_minute = number_of (groups ! 2), dt_second = number_of (groups ! 3)\<rparr>
     in rbind (check Bad_date (rest = [] \<and> 1 \<le> dt_day d \<and> dt_day d \<le> days_in_month 1900 month \<and> dt_second d \<le> 59)) (\<lambda>_.
        Inr d)))"

text \<open>\<open>datetime.toordinal\<close> and \<open>time.mktime\<close>.\<close>

definition days_before_year :: "int \<Rightarrow> int" where
  "days_before_year y = (let y = y - 1 in y * 365 + y div 4 - y div 100 + y div 400)"

definition days_before_month :: "int \<Rightarrow> nat \<Rightarrow> int" where
  "days_before_month y m = int (sum_list (map (days_in_month y) [1..<m]))"

definition to_ordinal :: "date_time \<Rightarrow> int" where
  "to_ordinal d = days_before_year (dt_year d) + days_before_month (dt_year d) (dt_month d) + int (dt_day d)"

definition mktime :: "(date_time \<Rightarrow> int) \<Rightarrow> date_time \<Rightarrow> int" where
  "mktime utc_offset d =
     (to_ordinal d - 719163) * 86400 + int (dt_hour d * 3600 + dt_minute d * 60 + dt_second d) - utc_offset d"

definition two_digits :: "nat \<Rightarrow> string" where
  "two_digits n = (if n < 10 then CHR ''0'' # show_nat n else show_nat n)"

text \<open>\<open>strftime("%Y-%b-%d %H:%M:%S")\<close>.\<close>

definition date_str :: "date_time \<Rightarrow> string" where
  "date_str d = show_int (dt_year d) @ ''-'' @ months ! (dt_month d - 1) @ ''-'' @ two_digits (dt_day d) @ '' ''
     @ two_digits (dt_hour d) @ '':'' @ two_digits (dt_minute d) @ '':'' @ two_digits (dt_second d)"

section \<open>Recent events\<close>

record flap_env =
  fe_now :: date_time
  fe_boot :: date_time
  fe_utc_offset :: "date_time \<Rightarrow> int"
  fe_interval :: int

text \<open>The year of an event is the current one, or the one before if its month is still to come.\<close>

definition event_seconds :: "flap_env \<Rightarrow> date_time \<Rightarrow> int" where
  "event_seconds env d = mktime (fe_utc_offset env)
     (d\<lparr>dt_year := if dt_month (fe_now env) < dt_month d then dt_year (fe_now env) - 1 else dt_year (fe_now env)\<rparr>)"

definition recent_event :: "flap_env \<Rightarrow> string list \<Rightarrow> flap_error + bool" where
  "recent_event env stamps =
     (if stamps = [] then Inr False
      else rbind (parse_stamp (last stamps)) (\<lambda>d.
        let event = event_seconds env d;
            diff_secs = mktime (fe_utc_offset env) (fe_now env) - event;
            diff_hours = diff_secs div 3600;
            grace = mktime (fe_utc_offset env) (fe_boot env) + 1800
        in Inr (last stamps \<noteq> date_str (fe_now env) \<and> diff_hours < fe_interval env \<and> grace < event)))"

definition issue :: "string \<Rightarrow> string list \<Rightarrow> string" where
  "issue interface stamps = interface @ '': '' @ show_nat (length stamps)"

definition issues_of :: "flap_env \<Rightarrow> (link_events \<Rightarrow> string list) \<Rightarrow> (string \<times> link_events) list \<Rightarrow> flap_error + string list" where
  "issues_of env stamps_of link_data =
     fold_err (\<lambda>found (interface, e). rbind (recent_event env (stamps_of e)) (\<lambda>recent.
       Inr (if recent then found @ [issue interface (stamps_of e)] else found))) [] link_data"

definition process_rdma_link_flapping ::
  "flap_env \<Rightarrow> (string \<times> link_events) list \<Rightarrow> flap_error + string list \<times> string list" where
  "process_rdma_link_flapping env link_data =
     rbind (issues_of env le_failures link_data) (\<lambda>failures.
     rbind (issues_of env le_link_down link_data) (\<lambda>link_down. Inr (failures, link_down)))"

definition check_link_flapping :: "flap_env \<Rightarrow> string list \<Rightarrow> flap_error + string list \<times> string list" where
  "check_link_flapping env lines = process_rdma_link_flapping env (get_rdma_link_failures lines)"

section \<open>What is reported\<close>

text \<open>The stamps of the events of an interface, in the order of the log.\<close>

definition stamps_in :: "regex \<Rightarrow> string \<Rightarrow> string list \<Rightarrow> string list" where
  "stamps_in p interface lines =
     map fst (filter (\<lambda>(_, i). i = interface) (List.map_filter (event_in p) lines))"

lemma stamps_in_snoc:
  "stamps_in p i (lines @ [line]) = stamps_in p i lines @
     (case event_in p line of Some (stamp, i') \<Rightarrow> if i' = i then [stamp] else [] | None \<Rightarrow> [])"
  by (auto simp: stamps_in_def List.map_filter_def split: option.split)

definition events_of :: "string list \<Rightarrow> string \<Rightarrow> link_events option" where
  "events_of lines i =
     (if stamps_in failure_pattern i lines = [] \<and> stamps_in down_pattern i lines = [] then None
      else Some \<lparr>le_failures = stamps_in failure_pattern i lines, le_link_down = stamps_in down_pattern i lines\<rparr>)"

lemma get_rdma_link_failures_snoc:
  "get_rdma_link_failures (lines @ [line]) = add_down line (add_failure line (get_rdma_link_failures lines))"
  by (simp add: get_rdma_link_failures_def)

lemma map_of_link_failures: "map_of (get_rdma_link_failures lines) i = events_of lines i"
proof (induction lines arbitrary: i rule: rev_induct)
  case Nil
  show ?case by (simp add: get_rdma_link_failures_def events_of_def stamps_in_def List.map_filter_def)
next
  case (snoc line lines)
  show ?case
    by (cases "event_in failure_pattern line"; cases "event_in down_pattern line")
      (auto simp: get_rdma_link_failures_snoc snoc.IH add_failure_def add_down_def events_of_def stamps_in_snoc
        split: if_splits)
qed

lemma link_failures_distinct: "distinct (map fst (get_rdma_link_failures lines))"
proof (induction lines rule: rev_induct)
  case Nil
  show ?case by (simp add: get_rdma_link_failures_def)
next
  case (snoc line lines)
  then show ?case
    by (auto simp: get_rdma_link_failures_snoc add_failure_def add_down_def split: option.split prod.split)
qed

lemma link_failures_iff: "(i, e) \<in> set (get_rdma_link_failures lines) \<longleftrightarrow> events_of lines i = Some e"
  using link_failures_distinct map_of_link_failures by (metis map_of_eq_Some_iff)

lemma issues_of_spec:
  "(case issues_of env stamps_of data of
      Inl _ \<Rightarrow> \<exists>i e. (i, e) \<in> set data \<and> recent_event env (stamps_of e) = Inl Bad_date
    | Inr found \<Rightarrow> set found = {issue i (stamps_of e) | i e. (i, e) \<in> set data \<and> recent_event env (stamps_of e) = Inr True})"
proof -
  let ?step = "\<lambda>found (interface, e). rbind (recent_event env (stamps_of e)) (\<lambda>recent.
       Inr (if recent then found @ [issue interface (stamps_of e)] else found))"
  have "(case fold_err ?step acc data of
      Inl _ \<Rightarrow> \<exists>(i, e) \<in> set data. recent_event env (stamps_of e) = Inl Bad_date
    | Inr found \<Rightarrow> found = acc @ map (\<lambda>(i, e). issue i (stamps_of e)) (filter (\<lambda>(i, e). recent_event env (stamps_of e) = Inr True) data))" for acc
  proof (induction data arbitrary: acc)
    case (Cons row data)
    obtain i e where row: "row = (i, e)" by (cases row)
    show ?case
    proof (cases "recent_event env (stamps_of e)")
      case (Inl x)
      then show ?thesis by (cases x) (simp add: row)
    next
      case (Inr recent)
      then show ?thesis
        using Cons.IH [of "if recent then acc @ [issue i (stamps_of e)] else acc"]
        by (cases recent) (simp_all add: row split: sum.splits)
    qed
  qed simp
  from this [of "[]"] show ?thesis by (fastforce simp: issues_of_def split: sum.splits)
qed

lemma hd_month: "month_number (take 3 s) = Some m \<Longrightarrow> s \<noteq> [] \<and> \<not> is_digit (hd s) \<and> hd s \<noteq> CHR ''-''"
proof -
  assume "month_number (take 3 s) = Some m"
  then have "filter (\<lambda>(_, m). py_lower m = py_lower (take 3 s)) (enumerate 1 months) \<noteq> []"
    by (auto simp: month_number_def split: list.splits)
  moreover have "m \<in> set months" if "(i, m) \<in> set (enumerate 1 months)" for i m
    using that by (auto simp: enumerate_eq_zip dest: set_zip_rightD)
  ultimately obtain name where "name \<in> set months" and lower: "py_lower name = py_lower (take 3 s)"
    by (auto simp: filter_empty_conv)
  have months: "list_all (\<lambda>m. case py_lower m of [] \<Rightarrow> False | ch # _ \<Rightarrow> \<not> is_digit ch \<and> ch \<noteq> CHR ''-'') months"
    by code_simp
  have first: "case py_lower (take 3 s) of [] \<Rightarrow> False | ch # _ \<Rightarrow> \<not> is_digit ch \<and> ch \<noteq> CHR ''-''"
    using months \<open>name \<in> set months\<close> unfolding list_all_iff lower [symmetric] by blast
  show ?thesis
  proof (cases s)
    case Nil
    then show ?thesis using first by (simp add: py_lower_def)
  next
    case (Cons ch t)
    have "py_lower (take 3 s) = hd (py_lower [ch]) # py_lower (take 2 t)" by (simp add: Cons py_lower_def)
    moreover have "hd (py_lower [ch]) = ch" if "is_digit ch \<or> ch = CHR ''-''"
      using that by (auto simp: py_lower_def is_digit_def Let_def)
    ultimately show ?thesis using first Cons by auto
  qed
qed

lemma hd_date: "is_digit (hd (date_str d)) \<or> hd (date_str d) = CHR ''-''"
proof -
  have "is_digit (hd (show_nat n))" for n using show_nat_digits hd_in_set show_nat_not_Nil by blast
  then show ?thesis by (auto simp: date_str_def show_int_def)
qed

lemma stamp_is_no_date: "parse_stamp s = Inr d \<Longrightarrow> s \<noteq> date_str now"
  using hd_month hd_date by (fastforce simp: parse_stamp_def need_def split: option.splits)

text \<open>The last of the stamps is a date, later than half an hour after the boot and less than the interval ago.\<close>

definition recently :: "flap_env \<Rightarrow> string list \<Rightarrow> bool" where
  "recently env stamps \<longleftrightarrow> stamps \<noteq> [] \<and>
     (case parse_stamp (last stamps) of
        Inl _ \<Rightarrow> False
      | Inr d \<Rightarrow> mktime (fe_utc_offset env) (fe_boot env) + 1800 < event_seconds env d
          \<and> mktime (fe_utc_offset env) (fe_now env) - event_seconds env d < 3600 * fe_interval env)"

lemma recent_event_recently: "recent_event env stamps = Inr True \<longleftrightarrow> recently env stamps"
  using stamp_is_no_date [of "last stamps"]
  by (auto simp: recent_event_def recently_def Let_def div_less_iff_less_mult ac_simps split: sum.splits)

lemma recent_event_bad:
  "recent_event env stamps = Inl Bad_date \<longleftrightarrow> stamps \<noteq> [] \<and> (\<exists>e. parse_stamp (last stamps) = Inl e)"
  by (cases "parse_stamp (last stamps)"; cases "projl (parse_stamp (last stamps))")
    (auto simp: recent_event_def Let_def)

lemma event_stamps:
  assumes "(i, e) \<in> set (get_rdma_link_failures lines)"
  shows "le_failures e = stamps_in failure_pattern i lines" and "le_link_down e = stamps_in down_pattern i lines"
  using assms by (auto simp: link_failures_iff events_of_def split: if_splits)

lemma stamped_event:
  assumes "stamps_in p i lines \<noteq> []" and "p = failure_pattern \<or> p = down_pattern"
  shows "\<exists>e. (i, e) \<in> set (get_rdma_link_failures lines)"
  using assms by (auto simp: link_failures_iff events_of_def)

lemma reported_iff:
  assumes "p = failure_pattern \<or> p = down_pattern"
    and "\<And>i e. (i, e) \<in> set (get_rdma_link_failures lines) \<Longrightarrow> stamps_of e = stamps_in p i lines"
  shows "{issue i (stamps_of e) | i e. (i, e) \<in> set (get_rdma_link_failures lines) \<and> recent_event env (stamps_of e) = Inr True}
    = {issue i S | i S. S = stamps_in p i lines \<and> recently env S}" (is "?L = ?R")
proof
  show "?L \<subseteq> ?R" using assms(2) by (auto simp: recent_event_recently)
  show "?R \<subseteq> ?L"
  proof
    fix entry
    assume "entry \<in> ?R"
    then obtain i where i: "entry = issue i (stamps_in p i lines)" "recently env (stamps_in p i lines)" by auto
    then have "stamps_in p i lines \<noteq> []" by (simp add: recently_def)
    then obtain e where "(i, e) \<in> set (get_rdma_link_failures lines)" using stamped_event [OF _ assms(1)] by blast
    then show "entry \<in> ?L" using i assms(2) [of i e] unfolding mem_Collect_eq recent_event_recently by metis
  qed
qed

lemma issues_of_reported:
  assumes "issues_of env stamps_of (get_rdma_link_failures lines) = Inr found"
    and "p = failure_pattern \<or> p = down_pattern"
    and "\<And>i e. (i, e) \<in> set (get_rdma_link_failures lines) \<Longrightarrow> stamps_of e = stamps_in p i lines"
  shows "set found = {issue i S | i S. S = stamps_in p i lines \<and> recently env S}"
  using issues_of_spec [where env = env and stamps_of = stamps_of and data = "get_rdma_link_failures lines"]
    reported_iff [of p lines stamps_of env, OF assms(2,3)] assms(1) by simp

lemma link_issues_reported:
  assumes "check_link_flapping env lines = Inr (failures, link_down)"
  shows "set failures = {issue i S | i S. S = stamps_in failure_pattern i lines \<and> recently env S}"
    and "set link_down = {issue i S | i S. S = stamps_in down_pattern i lines \<and> recently env S}"
  using assms issues_of_reported [where p = failure_pattern and stamps_of = le_failures, OF _ _ event_stamps(1)]
    issues_of_reported [where p = down_pattern and stamps_of = le_link_down, OF _ _ event_stamps(2)]
  by (auto simp: check_link_flapping_def process_rdma_link_flapping_def)

text \<open>
  C35: unless the check raises, it names exactly the interfaces whose last authentication failure
  (and, apart from those, whose last loss of the link) in the log lies more than half an hour
  after the boot and less than the interval in the past, with the number of their events in the
  log. It raises only when the last event of an interface has a stamp that is no date of 1900.
\<close>

theorem flapping_reports_recent:
  "case check_link_flapping env lines of
     Inl _ \<Rightarrow> \<exists>i p e. p \<in> {failure_pattern, down_pattern} \<and> stamps_in p i lines \<noteq> []
       \<and> parse_stamp (last (stamps_in p i lines)) = Inl e
   | Inr (failures, link_down) \<Rightarrow>
       set failures = {issue i S | i S. S = stamps_in failure_pattern i lines \<and> recently env S}
       \<and> set link_down = {issue i S | i S. S = stamps_in down_pattern i lines \<and> recently env S}"
proof -
  let ?data = "get_rdma_link_failures lines"
  note failures = issues_of_spec [where env = env and stamps_of = le_failures and data = ?data, unfolded recent_event_bad]
  note downs = issues_of_spec [where env = env and stamps_of = le_link_down and data = ?data, unfolded recent_event_bad]
  show ?thesis
  proof (cases "check_link_flapping env lines")
    case (Inl x)
    then have "issues_of env le_failures ?data = Inl x \<or> issues_of env le_link_down ?data = Inl x"
      by (auto simp: check_link_flapping_def process_rdma_link_flapping_def rbind_eq_Inl)
    then show ?thesis using Inl failures downs event_stamps by fastforce
  next
    case (Inr issues)
    then show ?thesis using link_issues_reported by (cases issues) simp
  qed
qed

section \<open>The 29th of February\<close>

lemma matches_Cat_in: "(g, x, r) \<in> set (matches (Cat a b) s) \<longleftrightarrow>
    (\<exists>ga xa t gb xb. (ga, xa, t) \<in> set (matches a s) \<and> (gb, xb, r) \<in> set (matches b t) \<and> g = ga @ gb \<and> x = xa @ xb)"
  by force

lemma leap_day_clock: "(g, x, r) \<in> set (matches clock_pattern ('' 29 '' @ t)) \<Longrightarrow> g ! 0 = ''29''"
proof -
  assume m: "(g, x, r) \<in> set (matches clock_pattern ('' 29 '' @ t))"
  obtain sp R where clock: "clock_pattern = Cat sp (Cat (Group day_pattern) (Cat sp R))" and sp: "sp = many1 py_space"
    by (simp add: clock_pattern_def seq_def)
  have space: "matches sp ('' 29 '' @ t) = [([], '' '', ''29 '' @ t)]"
    by (simp add: sp py_space_def)
  have day: "matches (Group day_pattern) (''29 '' @ t) = [([''29''], ''29'', '' '' @ t), ([''2''], ''2'', ''9 '' @ t)]"
    by (simp add: day_pattern_def seq_def digit_in_def one_digit_def is_digit_def starts_with_def)
  have none: "matches sp (''9 '' @ t) = []"
    by (simp add: sp py_space_def)
  obtain ga xa t1 g2 x2 xb t2 where "(ga, xa, t1) \<in> set (matches (Group day_pattern) (''29 '' @ t))"
    and "(x2, xb, t2) \<in> set (matches sp t1)" and "g = ga @ g2"
    using m unfolding clock matches_Cat_in space by (auto simp del: matches.simps append.simps simp: append_Nil)
  then show ?thesis unfolding day using none by auto
qed

lemma leap_day_no_date: "parse_stamp (''Feb 29 '' @ t) = Inl Bad_date"
proof -
  have feb: "month_number ''Feb'' = Some 2" by code_simp
  have n: "number_of ''29'' = 29" "days_in_month 1900 2 = 28" by code_simp+
  have "\<not> number_of (g ! 0) \<le> days_in_month 1900 2" if "match_at clock_pattern ('' 29 '' @ t) = Some (g, x, r)" for g x r
  proof -
    have "(g, x, r) \<in> set (matches clock_pattern ('' 29 '' @ t))"
      using that by (auto simp: match_at_def split: list.splits)
    from leap_day_clock [OF this] show ?thesis by (simp add: n)
  qed
  then show ?thesis unfolding parse_stamp_def
    by (auto simp: feb need_def check_def Let_def split: option.split)
qed

lemma issues_of_stops:
  assumes "(i, e) \<in> set data" and "recent_event env (stamps_of e) = Inl Bad_date"
  shows "issues_of env stamps_of data = Inl Bad_date"
proof (cases "issues_of env stamps_of data")
  case (Inl x)
  then show ?thesis by (cases x) simp
next
  case (Inr found)
  from fold_err_step_ok [OF Inr [unfolded issues_of_def] assms(1)] show ?thesis using assms(2) by auto
qed

text \<open>
  When the last authentication failure of any interface in the log is of a 29th of February,
  the check raises instead of reporting anything, also about other interfaces.
\<close>

lemma leap_day_stops_check:
  assumes "stamps_in failure_pattern i lines = stamps @ [''Feb 29 '' @ t]"
  shows "check_link_flapping env lines = Inl Bad_date"
proof -
  have "stamps_in failure_pattern i lines \<noteq> []" using assms by simp
  then obtain e where e: "(i, e) \<in> set (get_rdma_link_failures lines)" using stamped_event by blast
  have "recent_event env (le_failures e) = Inl Bad_date"
    using leap_day_no_date by (simp add: recent_event_bad event_stamps [OF e] assms)
  from issues_of_stops [where stamps_of = le_failures, OF e this] show ?thesis
    by (simp add: check_link_flapping_def process_rdma_link_flapping_def)
qed

definition leap_sample :: "string list" where
  "leap_sample = [''Feb 29 10:00:00 n wpa_supplicant[7]: rdma0: CTRL-EVENT-EAP-FAILURE EAP authentication failed'']"

definition clock_sample :: flap_env where
  "clock_sample = (let d = \<lparr>dt_year = 2024, dt_month = 2, dt_day = 29, dt_hour = 11, dt_minute = 0, dt_second = 0\<rparr>
     in \<lparr>fe_now = d, fe_boot = d\<lparr>dt_day := 1\<rparr>, fe_utc_offset = (\<lambda>_. 0), fe_interval = 6\<rparr>)"

lemma leap_day_stops_check_witness: "check_link_flapping clock_sample leap_sample = Inl Bad_date"
proof (rule leap_day_stops_check)
  show "stamps_in failure_pattern ''rdma0'' leap_sample = [] @ [''Feb 29 '' @ ''10:00:00'']"
    by code_simp
qed

end
