(* ===== verification/Gpu_Setup.thy ===== *)
theory Gpu_Setup
  imports Gpu_Bandwidth Xid_Check Link_Flapping "HOL-Library.List_Lexorder" "HOL-Library.Char_ord"
begin

text \<open>
  The health check of a GPU node (\<open>playbooks/roles/healthchecks/files/check_gpu_setup.py\<close>): its
  checks, and the reasons for which Slurm drains the node.
\<close>

section \<open>Version of the cloud agent\<close>

definition version_pattern :: regex where
  "version_pattern = seq [many1 is_digit, Lit ''.'', many1 is_digit, Lit ''.'', many1 is_digit]"

definition snap_pattern :: regex where
  "snap_pattern = seq [Lit ''installed:'', many1 py_space, Group version_pattern]"

definition rpm_pattern :: regex where
  "rpm_pattern = seq [Lit ''oracle-cloud-agent-'', Group version_pattern]"

text \<open>The variable \<open>version\<close> is unbound when nothing matches, and the function returns nothing elsewhere than on Linux.\<close>

definition version_in :: "regex \<Rightarrow> string \<Rightarrow> check_error + string" where
  "version_in p out = (case search p out of Some (v # _, _, _) \<Rightarrow> Inr v | _ \<Rightarrow> Inl Check_raised)"

definition get_oca_version :: "host \<Rightarrow> string \<Rightarrow> string \<Rightarrow> check_error + string option" where
  "get_oca_version h os_name distro =
     (if os_name \<noteq> ''Linux'' then Inr None
      else rbind
        (if contains distro ''Ubuntu'' then
           rbind (run_out h (as_root h [''snap'', ''info'', ''oracle-cloud-agent''])) (version_in snap_pattern)
         else if contains distro ''Oracle'' then rbind (run_out h [''rpm'', ''-qa'']) (version_in rpm_pattern)
         else Inl Check_raised) (\<lambda>version. Inr (Some version)))"

definition minimal_version :: string where
  "minimal_version = ''1.39.0''"

definition outdated :: "string \<Rightarrow> bool" where
  "outdated version \<longleftrightarrow> version < minimal_version"

section \<open>The checks\<close>

definition mlx_devices :: "nat list \<Rightarrow> string list" where
  "mlx_devices ns = map (\<lambda>n. ''mlx5_'' @ show_nat n) ns"

definition rttcc_devices :: "string list" where
  "rttcc_devices = mlx_devices [0, 1, 3, 4, 5, 6, 7, 8, 9, 10, 12, 13, 14, 15, 16, 17]"

definition rttcc_command :: "host \<Rightarrow> string \<Rightarrow> string list" where
  "rttcc_command h device =
     (let indexes = ''--indexes=local_port=1,pnat=0,lp_msb=0,algo_slot=0,algo_param_index=0''
      in if \<not> h_root h then [''sudo'', ''mlxreg'', ''-d'', device, ''-y'', ''--get'', ''--reg_name=PPCC'', indexes]
         else [''mlxreg'', ''-d'', device, ''-y'', ''--set'', ''cmd_type=3'', ''--reg_name=PPCC'', indexes])"

definition rttcc_enabled :: "string \<Rightarrow> bool" where
  "rttcc_enabled out \<longleftrightarrow> list_ex (\<lambda>l. starts_with l ''value'' \<and> contains l ''0x00000001'') (lines_of_output out)"

definition check_rttcc_status :: "host \<Rightarrow> check_error + string list" where
  "check_rttcc_status h =
     fold_err (\<lambda>found device. rbind (run_out h (rttcc_command h device)) (\<lambda>out.
       Inr (if rttcc_enabled out then found @ [''RTTCC enabled on: '' @ device] else found))) [] rttcc_devices"

fun every_second :: "'a list \<Rightarrow> 'a list" where
  "every_second (x # _ # xs) = x # every_second xs"
| "every_second xs = xs"

definition ecc_pattern :: "string \<Rightarrow> regex" where
  "ecc_pattern what = seq [Lit what, many1 py_space, Lit '':'', many1 py_space, Group (many1 is_digit)]"

definition gpu_pattern :: regex where
  "gpu_pattern = seq [Lit [CHR 0x0A], Lit ''GPU'', many1 py_space, Group (many any_char), Lit [CHR 0x0A]]"

definition ecc_issue :: "string \<Rightarrow> string \<Rightarrow> string list \<Rightarrow> nat \<Rightarrow> check_error + string list" where
  "ecc_issue gpu what counts i =
     rbind (nth_err counts i) (\<lambda>n. Inr (if n \<noteq> ''0'' then [gpu @ '' - '' @ what @ '' Uncorrectable: '' @ n] else []))"

definition groups :: "regex \<Rightarrow> string \<Rightarrow> string list" where
  "groups p out = map hd (find_all p out)"

definition sram_counts :: "string \<Rightarrow> string list" where
  "sram_counts out =
     (let m = groups (ecc_pattern ''SRAM Uncorrectable'') out
      in if m = [] then groups (ecc_pattern ''SRAM Uncorrectable Parity'') out else m)"

definition dram_counts :: "string \<Rightarrow> string list" where
  "dram_counts out = groups (ecc_pattern ''DRAM Uncorrectable'') out"

text \<open>The volatile counts are the elements \<open>[0::2]\<close>, the aggregate ones \<open>[1::2]\<close>.\<close>

definition gpu_ecc_issues :: "string \<Rightarrow> nat \<times> string \<Rightarrow> check_error + string list" where
  "gpu_ecc_issues out = (\<lambda>(i, gpu).
     rbind (ecc_issue gpu ''Volatile SRAM'' (every_second (sram_counts out)) i) (\<lambda>a.
     rbind (ecc_issue gpu ''Volatile DRAM'' (every_second (dram_counts out)) i) (\<lambda>b.
     rbind (ecc_issue gpu ''Aggregate SRAM'' (every_second (tl (sram_counts out))) i) (\<lambda>c.
     rbind (ecc_issue gpu ''Aggregate DRAM'' (every_second (tl (dram_counts out))) i) (\<lambda>d.
     Inr (a @ b @ c @ d))))))"

definition check_ecc_output :: "string \<Rightarrow> check_error + string list" where
  "check_ecc_output out =
     rbind (map_err (gpu_ecc_issues out) (enumerate 0 (groups gpu_pattern out))) (\<lambda>issues. Inr (concat issues))"

definition check_ecc_errors :: "host \<Rightarrow> check_error + string list" where
  "check_ecc_errors h =
     (case run_out h [''nvidia-smi'', ''-q''] of
        Inl File_not_found \<Rightarrow> Inr [] | Inl Check_raised \<Rightarrow> Inl Check_raised | Inr out \<Rightarrow> check_ecc_output out)"

text \<open>The values of a line of the remapping report: pending, failure, uncorrectable.\<close>

definition remap_values :: "string \<Rightarrow> string list" where
  "remap_values line = map py_strip (split_on CHR '','' line)"

definition remap_line :: "nat \<Rightarrow> string \<Rightarrow> check_error + string list" where
  "remap_line i line =
     (if line = [] then Inr []
      else let tmp_data = remap_values line; gpu = ''GPU: '' @ show_nat i
        in rbind (nth_err tmp_data 0) (\<lambda>pending.
           rbind (nth_err tmp_data 1) (\<lambda>_.
           rbind (nth_err tmp_data 2) (\<lambda>uncorrectable.
           let a = (if pending \<noteq> ''0'' then [gpu @ '' Row Remap Pending: '' @ pending] else [])
           in if uncorrectable = ''0'' then Inr a
              else rbind (need Check_raised (py_int uncorrectable)) (\<lambda>n.
                Inr (a @ [gpu @ (if 512 < n then '' - Row Remap Uncorrectable >512: ''
                                 else '' - Row Remap Uncorrectable <512: '') @ uncorrectable]))))))"

definition check_remap_output :: "string \<Rightarrow> check_error + string list" where
  "check_remap_output out =
     rbind (map_err (\<lambda>(i, line). remap_line i line) (enumerate 0 (lines_of_output out))) (\<lambda>issues. Inr (concat issues))"

definition remap_command :: "string list" where
  "remap_command = [''nvidia-smi'',
     ''--query-remapped-rows=remapped_rows.pending,remapped_rows.failure,remapped_rows.uncorrectable'',
     ''--format=csv,noheader'']"

definition check_row_remap_errors :: "host \<Rightarrow> check_error + string list" where
  "check_row_remap_errors h =
     (case run_out h remap_command of
        Inl File_not_found \<Rightarrow> Inr [] | Inl Check_raised \<Rightarrow> Inl Check_raised | Inr out \<Rightarrow> check_remap_output out)"

text \<open>The RDMA devices of a shape; on any other shape the variable \<open>devices\<close> is unbound.\<close>

definition rdma_devices :: "string \<Rightarrow> check_error + string list" where
  "rdma_devices shape =
     (if shape = ''BM.GPU.H100.8'' then Inr (mlx_devices [0, 1, 3, 4, 5, 6, 7, 8, 9, 10, 12, 13, 14, 15, 16, 17])
      else if shape = ''BM.GPU.B4.8'' \<or> shape = ''BM.GPU.A100-v2.8''
      then Inr (mlx_devices [1, 2, 3, 4, 5, 6, 7, 8, 9, 10, 11, 12, 14, 15, 16, 17])
      else if shape = ''BM.GPU4.8'' then Inr (mlx_devices [0, 1, 2, 3, 6, 7, 8, 9, 10, 11, 12, 13, 14, 15, 16, 17])
      else Inl Check_raised)"

definition char_between :: "nat \<Rightarrow> nat \<Rightarrow> char \<Rightarrow> bool" where
  "char_between lo hi ch \<longleftrightarrow> (let n = of_char ch :: nat in lo \<le> n \<and> n \<le> hi)"

text \<open>The escape sequences of terminal colours.\<close>

definition color_pattern :: regex where
  "color_pattern = Cat (Lit [CHR 0x1B])
     (Alt (times (\<lambda>ch. char_between 64 90 ch \<or> char_between 92 95 ch) 1)
       (seq [Lit ''['', many (char_between 48 63), many (char_between 32 47), times (char_between 64 126) 1]))"

text \<open>\<open>re.search(r'<label>.*', output).group().split(":")[1].strip()\<close>.\<close>

definition link_field :: "string \<Rightarrow> string \<Rightarrow> check_error + string" where
  "link_field label out =
     (case search (seq [Lit label, many any_char]) out of
        None \<Rightarrow> Inl Check_raised
      | Some (_, line, _) \<Rightarrow> rbind (nth_err (split_on CHR '':'' line) 1) (\<lambda>v. Inr (py_strip v)))"

text \<open>\<open>float(physical_BER) < 1e-07\<close>, evaluated only for a bad signal.\<close>

definition tolerated :: "host \<Rightarrow> string \<Rightarrow> string \<Rightarrow> check_error + bool" where
  "tolerated h recommendation physical_BER =
     (if contains recommendation ''Bad signal integrity''
      then rbind (need Check_raised (h_float h physical_BER)) (\<lambda>x. Inr (x < 1 / 10 ^ 7)) else Inr False)"

definition link_issues :: "host \<Rightarrow> string \<Rightarrow> check_error + string list" where
  "link_issues h device =
     rbind (h_run h (as_root h [''mlxlink'', ''-d'', device, ''-m'', ''-c'', ''-e''])) (\<lambda>(out, err).
     if contains err ''-E-'' then Inr [device @ '': '' @ hd (lines_of_output err)]
     else rbind (link_field (CHR 0x0A # ''State'') out) (\<lambda>state.
          rbind (link_field ''Recommendation'' out) (\<lambda>recommendation.
          rbind (link_field ''Vendor Serial Number'' out) (\<lambda>vendor_serial_num.
          rbind (link_field ''Firmware Version'' out) (\<lambda>nic_fw.
          rbind (link_field ''FW Version'' out) (\<lambda>cable_fw_version.
          rbind (link_field ''Raw Physical BER'' out) (\<lambda>physical_BER.
          let link_state = sub_empty color_pattern state;
              nic_fw_version = sub_empty color_pattern nic_fw;
              recommendation = sub_empty color_pattern recommendation;
              prefix = device @ '' - '' @ vendor_serial_num @ '' - '' @ cable_fw_version @ '' - '' @ nic_fw_version @ '': '';
              inactive = (if link_state \<noteq> ''Active'' then [prefix @ link_state] else [])
          in if recommendation = ''No issue was observed'' then Inr inactive
             else rbind (tolerated h recommendation physical_BER) (\<lambda>ok.
               Inr (if ok then inactive else inactive @ [prefix @ recommendation])))))))))"

definition check_rdma_link_status :: "host \<Rightarrow> check_error + string \<Rightarrow> check_error + string list" where
  "check_rdma_link_status h shape =
     rbind shape (\<lambda>shape. rbind (rdma_devices shape) (\<lambda>devices.
     rbind (map_err (link_issues h) devices) (\<lambda>issues. Inr (concat issues))))"

definition check_bus :: "host \<Rightarrow> check_error + string list" where
  "check_bus h =
     rbind (run_out h [''lspci'', ''-v'']) (\<lambda>out.
     Inr (filter (\<lambda>line. contains line ''(rev ff)'') (lines_of_output out)))"

definition lspci_expected_results :: "string list" where
  "lspci_expected_results = map (\<lambda>slot. slot @ '':00.0 3D controller: NVIDIA Corporation Device 2330 (rev a1)'')
     [''0f'', ''2d'', ''44'', ''5b'', ''89'', ''a8'', ''c0'', ''d8'']"

definition missing_gpus :: "string \<Rightarrow> string list" where
  "missing_gpus out =
     (let found = filter (\<lambda>line. contains line ''NVIDIA'' \<and> contains line ''2330'') (lines_of_output out)
      in if length found \<noteq> 8 then map (\<lambda>l. ''Missing GPU: '' @ l) (filter (\<lambda>l. l \<notin> set found) lspci_expected_results)
         else [])"

definition gpu_count_issues :: "string \<Rightarrow> string list" where
  "gpu_count_issues out =
     (let n = length (filter (\<lambda>line. line \<noteq> []) (lines_of_output out))
      in if n = 8 then [] else [''Expected 8 GPUs, found '' @ show_nat n @ '' using nvidia-smi command''])"

definition check_gpu_count :: "host \<Rightarrow> check_error + string list option" where
  "check_gpu_count h =
     (case run_out h [''nvidia-smi'', ''--list-gpus''] of
        Inr out \<Rightarrow> Inr (Some (gpu_count_issues out))
      | Inl Check_raised \<Rightarrow> Inl Check_raised
      | Inl File_not_found \<Rightarrow>
          (case run_out h [''lspci'', ''-v''] of
             Inr out \<Rightarrow> Inr (Some (missing_gpus out))
           | Inl File_not_found \<Rightarrow> Inr None
           | Inl Check_raised \<Rightarrow> Inl Check_raised))"

section \<open>The verdict\<close>

text \<open>The host as the main program sees it: what its commands answer and what it asks other modules.\<close>

record gpu_setup =
  s_host :: host
  s_os_name :: string
  s_distro :: string
  s_shape :: "check_error + string"
  s_log_lines :: "check_error + string list"
  s_flap_env :: flap_env
  s_bw_test :: bool
  s_bw_exe :: string
  s_slurm :: bool

definition or_default :: "'a \<Rightarrow> 'e + 'a \<Rightarrow> 'a" where
  "or_default dflt r = (case r of Inl _ \<Rightarrow> dflt | Inr x \<Rightarrow> x)"

definition link_flapping :: "gpu_setup \<Rightarrow> check_error + string list \<times> string list" where
  "link_flapping s =
     rbind (s_log_lines s) (\<lambda>lines.
     case check_link_flapping (s_flap_env s) lines of Inl _ \<Rightarrow> Inl Check_raised | Inr issues \<Rightarrow> Inr issues)"

definition xid_status :: "gpu_setup \<Rightarrow> check_error + xid_report" where
  "xid_status s = rbind (run_out (s_host s) [''dmesg'']) (\<lambda>dmesg. Inr (check_gpu_xid dmesg))"

definition gpu_bandwidth :: "gpu_setup \<Rightarrow> check_error + bandwidth_verdict option" where
  "gpu_bandwidth s =
     (if s_bw_test s then rbind (bandwidth_test (s_host s) (s_bw_exe s)) (\<lambda>v. Inr (Some v)) else Inr None)"

definition once :: "bool \<Rightarrow> string \<Rightarrow> string list" where
  "once b reason = (if b then [reason] else [])"

definition is_ecc_error :: "string \<Rightarrow> bool" where
  "is_ecc_error msg \<longleftrightarrow> \<not> contains msg ''Skipped'' \<and> \<not> contains msg ''Aggregate''"

text \<open>The calls of \<open>slurm_reason\<close>, in order.\<close>

definition drain_reasons :: "gpu_setup \<Rightarrow> string \<Rightarrow> string list" where
  "drain_reasons s oca_version =
     (let h = s_host s;
          ecc = or_default [] (check_ecc_errors h);
          remap = or_default [] (check_row_remap_errors h);
          xid = or_default \<lparr>xr_failed = False, xr_results = []\<rparr> (xid_status s);
          flap = or_default ([], []) (link_flapping s)
      in once (outdated oca_version) ''OCA version Error''
         @ once (or_default [] (check_rttcc_status h) \<noteq> []) ''RTTCC Error''
         @ once (list_ex is_ecc_error ecc) ''ECC Error''
         @ once (list_ex (\<lambda>msg. \<not> contains msg ''<512'') remap) ''Remap Error''
         @ (if xr_failed xid
            then concat (map (\<lambda>(_, counts, _). map (\<lambda>_. ''XID Error'') counts) (xr_results xid)) else [])
         @ map (\<lambda>_. ''RDMA Link Error'') (or_default [] (check_rdma_link_status h (s_shape s)))
         @ map (\<lambda>_. ''RDMA Link Flapping Error'') (fst flap)
         @ map (\<lambda>_. ''RDMA Link Down Error'') (snd flap)
         @ (case or_default None (gpu_bandwidth s) of
              Some v \<Rightarrow> if bv_failed v then map (\<lambda>_. ''GPU Bwt Error'') (bv_issues v) else []
            | None \<Rightarrow> [])
         @ once (or_default [] (check_bus h) \<noteq> []) ''GPU Bus Error''
         @ once (case or_default None (check_gpu_count h) of Some (_ # _) \<Rightarrow> True | _ \<Rightarrow> False) ''Missing GPU Error'')"

text \<open>
  \<open>sys.exit(1)\<close> of the Xid check leaves the program, since \<open>except Exception\<close> does not catch it; a
  missing version cannot be compared. Otherwise the message that is printed, if any.
\<close>

datatype setup_outcome = Exit_one | Uncaught | Finished "string option"

definition health_message :: "string list \<Rightarrow> string" where
  "health_message reasons = ''Healthcheck:: '' @ butlast (concat (map (\<lambda>r. r @ [CHR 0x0A]) reasons))"

definition check_gpu_setup :: "gpu_setup \<Rightarrow> setup_outcome" where
  "check_gpu_setup s =
     (let version = or_default (Some ''Unknown'') (get_oca_version (s_host s) (s_os_name s) (s_distro s))
      in if \<not> h_root (s_host s) then Exit_one
         else case version of
             None \<Rightarrow> Uncaught
           | Some oca_version \<Rightarrow>
               let reasons = drain_reasons s oca_version
               in Finished (if reasons \<noteq> [] \<and> s_slurm s then Some (health_message reasons) else None))"

section \<open>What drains a node\<close>

lemma in_once [simp]: "x \<in> set (once b reason) \<longleftrightarrow> b \<and> x = reason"
  by (auto simp: once_def)

lemma in_same [simp]: "x \<in> set (map (\<lambda>_. reason) ys) \<longleftrightarrow> ys \<noteq> [] \<and> x = reason"
  by (cases ys) auto

lemma same_image: "c \<in> (\<lambda>_. c) ` set xs \<longleftrightarrow> xs \<noteq> []"
  by (cases xs) auto

lemma in_xid_reasons [simp]:
  "x \<in> set (concat (map (\<lambda>(_, counts, _). map (\<lambda>_. reason) counts) rows))
     \<longleftrightarrow> list_ex (\<lambda>(_, counts, _). counts \<noteq> []) rows \<and> x = reason"
  by (induction rows) (auto simp: same_image)

lemma in_bw_reasons [simp]:
  "x \<in> set (case bw of Some v \<Rightarrow> if bv_failed v then map (\<lambda>_. reason) (bv_issues v) else [] | None \<Rightarrow> [])
     \<longleftrightarrow> (case bw of Some v \<Rightarrow> bv_failed v \<and> bv_issues v \<noteq> [] | None \<Rightarrow> False) \<and> x = reason"
  by (cases bw) (auto simp: same_image)

lemma or_default_simps [simp]: "or_default d (Inl e) = d" "or_default d (Inr x) = x"
  by (simp_all add: or_default_def)

text \<open>Versions are compared as texts.\<close>

lemma versions_as_texts: "outdated ''1.100.0'' \<and> \<not> outdated ''1.4.0''"
  by code_simp

text \<open>A user other than root never gets to the report, whatever the host answers.\<close>

lemma only_root_reports: "\<not> h_root (s_host s) \<Longrightarrow> check_gpu_setup s = Exit_one"
  by (simp add: check_gpu_setup_def Let_def)

lemma health_message_join: "health_message reasons = ''Healthcheck:: '' @ join [CHR 0x0A] reasons"
proof -
  have "butlast (concat (map (\<lambda>r. r @ [CHR 0x0A]) reasons)) = join [CHR 0x0A] reasons"
  proof (induction reasons rule: induct_list012)
    case (3 r r' reasons)
    then show ?case by (simp add: butlast_append)
  qed simp_all
  then show ?thesis by (simp add: health_message_def)
qed

lemma in_reasons:
  "''OCA version Error'' \<in> set (drain_reasons s v) \<longleftrightarrow> outdated v"
  "''RTTCC Error'' \<in> set (drain_reasons s v) \<longleftrightarrow> or_default [] (check_rttcc_status (s_host s)) \<noteq> []"
  "''ECC Error'' \<in> set (drain_reasons s v) \<longleftrightarrow> list_ex is_ecc_error (or_default [] (check_ecc_errors (s_host s)))"
  "''Remap Error'' \<in> set (drain_reasons s v) \<longleftrightarrow>
     list_ex (\<lambda>msg. \<not> contains msg ''<512'') (or_default [] (check_row_remap_errors (s_host s)))"
  "''XID Error'' \<in> set (drain_reasons s v) \<longleftrightarrow>
     (let xid = or_default \<lparr>xr_failed = False, xr_results = []\<rparr> (xid_status s)
      in xr_failed xid \<and> list_ex (\<lambda>(_, counts, _). counts \<noteq> []) (xr_results xid))"
  "''RDMA Link Error'' \<in> set (drain_reasons s v) \<longleftrightarrow> or_default [] (check_rdma_link_status (s_host s) (s_shape s)) \<noteq> []"
  "''RDMA Link Flapping Error'' \<in> set (drain_reasons s v) \<longleftrightarrow> fst (or_default ([], []) (link_flapping s)) \<noteq> []"
  "''RDMA Link Down Error'' \<in> set (drain_reasons s v) \<longleftrightarrow> snd (or_default ([], []) (link_flapping s)) \<noteq> []"
  "''GPU Bwt Error'' \<in> set (drain_reasons s v) \<longleftrightarrow>
     (case or_default None (gpu_bandwidth s) of Some v \<Rightarrow> bv_failed v \<and> bv_issues v \<noteq> [] | None \<Rightarrow> False)"
  "''GPU Bus Error'' \<in> set (drain_reasons s v) \<longleftrightarrow> or_default [] (check_bus (s_host s)) \<noteq> []"
  "''Missing GPU Error'' \<in> set (drain_reasons s v) \<longleftrightarrow>
     (case or_default None (check_gpu_count (s_host s)) of Some (_ # _) \<Rightarrow> True | _ \<Rightarrow> False)"
  by (simp_all add: drain_reasons_def Let_def set_append del: set_map set_concat split: option.split)

lemma critical_event_has_row:
  assumes "xr_failed (check_gpu_xid dmesg)"
  shows "\<exists>(_, counts, _) \<in> set (xr_results (check_gpu_xid dmesg)). counts \<noteq> []"
proof -
  obtain xid d where xid: "(xid, d, Critical) \<in> set xid_ec" "xid_event xid dmesg" using assms by (auto simp: xid_failed_iff)
  then have "map_of xid_ec xid = Some (d, Critical)" using xid_ec_distinct by simp
  then have "map_of (xr_results (check_gpu_xid dmesg)) xid = Some (count_devices (xid_devices dmesg xid), d)"
    using xid by (simp add: xid_results_lookup)
  moreover have "count_devices (xid_devices dmesg xid) \<noteq> []" using xid by (simp add: xid_devices_Nil)
  ultimately show ?thesis by (blast dest: map_of_SomeD)
qed

lemma xid_reason:
  "''XID Error'' \<in> set (drain_reasons s v) \<longleftrightarrow>
     (\<exists>dmesg xid d. run_out (s_host s) [''dmesg''] = Inr dmesg \<and> (xid, d, Critical) \<in> set xid_ec \<and> xid_event xid dmesg)"
proof (cases "run_out (s_host s) [''dmesg'']")
  case (Inl e)
  then show ?thesis by (simp add: in_reasons xid_status_def)
next
  case (Inr dmesg)
  then show ?thesis using critical_event_has_row [of dmesg] xid_failed_iff [of dmesg]
    by (auto simp: in_reasons xid_status_def Let_def list_ex_iff)
qed

text \<open>The interfaces with a recent event, as the log of the system shows them.\<close>

definition link_recently :: "gpu_setup \<Rightarrow> regex \<Rightarrow> bool" where
  "link_recently s p \<longleftrightarrow> (\<exists>lines i. s_log_lines s = Inr lines \<and> (\<exists>issues. check_link_flapping (s_flap_env s) lines = Inr issues)
     \<and> recently (s_flap_env s) (stamps_in p i lines))"

lemma link_reasons:
  "''RDMA Link Flapping Error'' \<in> set (drain_reasons s v) \<longleftrightarrow> link_recently s failure_pattern"
  "''RDMA Link Down Error'' \<in> set (drain_reasons s v) \<longleftrightarrow> link_recently s down_pattern"
proof -
  have ne: "f \<noteq> [] \<longleftrightarrow> set f \<noteq> {}" for f :: "string list" by simp
  have "(''RDMA Link Flapping Error'' \<in> set (drain_reasons s v) \<longleftrightarrow> link_recently s failure_pattern)
      \<and> (''RDMA Link Down Error'' \<in> set (drain_reasons s v) \<longleftrightarrow> link_recently s down_pattern)"
  proof (cases "s_log_lines s")
    case (Inl e)
    then show ?thesis by (simp add: in_reasons link_flapping_def link_recently_def)
  next
    case lines: (Inr lines)
    show ?thesis
    proof (cases "check_link_flapping (s_flap_env s) lines")
      case (Inl e)
      then show ?thesis using lines by (simp add: in_reasons link_flapping_def link_recently_def)
    next
      case (Inr issues)
      then obtain f d where "check_link_flapping (s_flap_env s) lines = Inr (f, d)" by (cases issues) simp
      from link_issues_reported [OF this] this show ?thesis
        using lines unfolding in_reasons ne by (simp add: link_flapping_def link_recently_def)
    qed
  qed
  then show "''RDMA Link Flapping Error'' \<in> set (drain_reasons s v) \<longleftrightarrow> link_recently s failure_pattern"
    "''RDMA Link Down Error'' \<in> set (drain_reasons s v) \<longleftrightarrow> link_recently s down_pattern"
    by blast+
qed

lemma bus_reason:
  "''GPU Bus Error'' \<in> set (drain_reasons s v) \<longleftrightarrow>
     (\<exists>out line. run_out (s_host s) [''lspci'', ''-v''] = Inr out \<and> line \<in> set (lines_of_output out) \<and> contains line ''(rev ff)'')"
  by (auto simp: in_reasons or_default_def check_bus_def filter_empty_conv split: sum.splits)

text \<open>Only volatile errors of a GPU drain the node; aggregate ones are reported without.\<close>

lemma map_err_concat:
  assumes "rbind (map_err f xs) (\<lambda>issues. Inr (concat issues)) = Inr issues" and "m \<in> set issues"
  shows "\<exists>x ms. x \<in> set xs \<and> f x = Inr ms \<and> m \<in> set ms"
proof -
  obtain mss where "map_err f xs = Inr mss" and "m \<in> set (concat mss)" using assms by auto
  then show ?thesis by (induction xs arbitrary: mss) (fastforce split: sum.splits)+
qed

lemma ecc_issue_text:
  "ecc_issue gpu what counts i = Inr ms \<Longrightarrow> m \<in> set ms \<Longrightarrow>
     i < length counts \<and> counts ! i \<noteq> ''0'' \<and> m = gpu @ '' - '' @ what @ '' Uncorrectable: '' @ counts ! i"
  by (auto simp: ecc_issue_def split: if_splits)

lemma contains_part: "contains (a @ b @ sub @ c) sub"
  using contains_append [of "a @ b" sub c] by simp

lemma aggregate_tolerated: "\<not> is_ecc_error (gpu @ '' - '' @ (''Aggregate '' @ what) @ '' Uncorrectable: '' @ n)"
  using contains_part [of gpu "'' - ''" "''Aggregate''" "'' '' @ what @ '' Uncorrectable: '' @ n"] by (simp add: is_ecc_error_def)

definition volatile_error :: "string \<Rightarrow> bool" where
  "volatile_error out \<longleftrightarrow> (\<exists>i counts. i < length (groups gpu_pattern out) \<and> counts \<in> {sram_counts out, dram_counts out}
     \<and> i < length (every_second counts) \<and> every_second counts ! i \<noteq> ''0'')"

lemma ecc_reason:
  assumes "''ECC Error'' \<in> set (drain_reasons s v)"
  shows "\<exists>out. run_out (s_host s) [''nvidia-smi'', ''-q''] = Inr out \<and> volatile_error out"
proof -
  obtain issues m where "check_ecc_errors (s_host s) = Inr issues" and m: "m \<in> set issues" "is_ecc_error m"
    using assms by (cases "check_ecc_errors (s_host s)") (auto simp: in_reasons list_ex_iff)
  then obtain out where out: "run_out (s_host s) [''nvidia-smi'', ''-q''] = Inr out" and "check_ecc_output out = Inr issues"
    by (auto simp: check_ecc_errors_def split: sum.splits check_error.splits)
  from map_err_concat [OF this(2) [unfolded check_ecc_output_def] m(1)] obtain i gpu ms
    where gpu: "(i, gpu) \<in> set (enumerate 0 (groups gpu_pattern out))" "gpu_ecc_issues out (i, gpu) = Inr ms" "m \<in> set ms"
    by auto
  then obtain what counts ms' where w: "ecc_issue gpu what counts i = Inr ms'" "m \<in> set ms'"
    "(what, counts) \<in> {(''Volatile SRAM'', every_second (sram_counts out)), (''Volatile DRAM'', every_second (dram_counts out)),
      (''Aggregate '' @ ''SRAM'', every_second (tl (sram_counts out))), (''Aggregate '' @ ''DRAM'', every_second (tl (dram_counts out)))}"
    unfolding gpu_ecc_issues_def by auto
  note t = ecc_issue_text [OF w(1,2)]
  have "what \<noteq> ''Aggregate '' @ x" for x
  proof
    assume "what = ''Aggregate '' @ x"
    then have "m = gpu @ '' - '' @ (''Aggregate '' @ x) @ '' Uncorrectable: '' @ counts ! i" using t by (simp only:)
    then show False using m(2) aggregate_tolerated [of gpu x "counts ! i"] by (simp only:)
  qed
  then have "counts \<in> {every_second (sram_counts out), every_second (dram_counts out)}"
    using w(3) unfolding insert_iff empty_iff prod.inject by blast
  then have "volatile_error out" unfolding volatile_error_def using t gpu(1) by (auto simp: in_set_enumerate_eq)
  with out show ?thesis by blast
qed

text \<open>
  A line shows a defect when it is not empty, has its three values, and either its number of pending
  remappings is printed as something else than 0 or its uncorrectable ones are a number over 512.
\<close>

definition line_defect :: "string \<Rightarrow> bool" where
  "line_defect line \<longleftrightarrow> line \<noteq> [] \<and> 3 \<le> length (remap_values line)
     \<and> (remap_values line ! 0 \<noteq> ''0'' \<or> (case py_int (remap_values line ! 2) of Some n \<Rightarrow> 512 < n | None \<Rightarrow> False))"

definition remap_defect :: "string \<Rightarrow> bool" where
  "remap_defect out \<longleftrightarrow> list_ex line_defect (lines_of_output out)"

lemma remap_line_values: "remap_line i line = Inr ms \<Longrightarrow> m \<in> set ms \<Longrightarrow> line \<noteq> [] \<and> 3 \<le> length (remap_values line)"
  by (auto simp: remap_line_def Let_def nth_err_def split: if_splits)

lemma remap_line_defect:
  assumes "remap_line i line = Inr ms" and "m \<in> set ms" and "\<not> contains m ''<512''"
  shows "line_defect line"
proof -
  let ?d = "remap_values line"
  have few: "contains (g @ '' - Row Remap Uncorrectable <512: '' @ n) ''<512''" for g n
    using contains_part [of g "'' - Row Remap Uncorrectable ''" "''<512''" "'': '' @ n"] by simp
  have "?d ! 0 \<noteq> ''0'' \<or> (\<exists>n. py_int (?d ! 2) = Some n \<and> 512 < n)"
  proof (cases "?d ! 0 = ''0''")
    case True
    then obtain n where n: "py_int (?d ! 2) = Some n" and m: "m = (''GPU: '' @ show_nat i) @
        (if 512 < n then '' - Row Remap Uncorrectable >512: '' else '' - Row Remap Uncorrectable <512: '') @ ?d ! 2"
      using assms(1,2) unfolding remap_line_def Let_def
      by (auto simp: need_def split: if_splits option.splits)
    have "512 < n"
    proof (rule ccontr)
      assume "\<not> 512 < n"
      then have "m = (''GPU: '' @ show_nat i) @ '' - Row Remap Uncorrectable <512: '' @ ?d ! 2" using m by (simp only: if_False)
      then have "contains m ''<512''" by (rule ssubst) (rule few)
      then show False using assms(3) by contradiction
    qed
    then show ?thesis using n by simp
  qed simp
  with remap_line_values [OF assms(1,2)] show ?thesis by (auto simp: line_defect_def)
qed

lemma remap_reason:
  assumes "''Remap Error'' \<in> set (drain_reasons s v)"
  shows "\<exists>out. run_out (s_host s) remap_command = Inr out \<and> remap_defect out"
proof -
  obtain issues m where "check_row_remap_errors (s_host s) = Inr issues" and m: "m \<in> set issues" "\<not> contains m ''<512''"
    using assms by (cases "check_row_remap_errors (s_host s)") (auto simp: in_reasons list_ex_iff)
  then obtain out where out: "run_out (s_host s) remap_command = Inr out" and "check_remap_output out = Inr issues"
    unfolding check_row_remap_errors_def by (auto split: sum.splits check_error.splits)
  from map_err_concat [OF this(2) [unfolded check_remap_output_def] m(1)] obtain i line ms
    where line: "(i, line) \<in> set (enumerate 0 (lines_of_output out))" "remap_line i line = Inr ms" "m \<in> set ms"
    by auto
  then have "line \<in> set (lines_of_output out)" by (auto simp: in_set_enumerate_eq)
  then have "remap_defect out" using remap_line_defect [OF line(2,3) m(2)] by (auto simp: remap_defect_def list_ex_iff)
  with out show ?thesis by blast
qed

text \<open>A GPU without pending or uncorrectable remappings shows no defect, nor does an empty output.\<close>

lemma healthy_rows:
  "\<not> remap_defect (''0, 0, 0'' @ [CHR 0x0A])" "\<not> remap_defect []"
  "\<not> remap_defect (''0, 0, 512'' @ [CHR 0x0A])" "remap_defect (''0, 0, 513'' @ [CHR 0x0A])"
  by code_simp+

text \<open>
  C38: the message that drains a node gives its reasons, one per line. An Xid error, a flapping or
  lost link and a device off the bus are named exactly when the kernel log holds an event of a
  critical error, an interface has a recent event in the system log, or \<open>lspci\<close> lists a device as
  gone. An ECC error is named only when \<open>nvidia-smi -q\<close> prints for a GPU a volatile count other than
  0, and a remapping error only when the query of the remapped rows printed a line of three values
  whose pending one is not 0 or whose uncorrectable one is over 512.
\<close>

theorem drain_message_is_justified:
  assumes "check_gpu_setup s = Finished (Some m)"
  shows "\<exists>reasons. m = ''Healthcheck:: '' @ join [CHR 0x0A] reasons \<and> reasons \<noteq> [] \<and> s_slurm s
    \<and> (''XID Error'' \<in> set reasons \<longleftrightarrow> (\<exists>dmesg xid d. run_out (s_host s) [''dmesg''] = Inr dmesg
          \<and> (xid, d, Critical) \<in> set xid_ec \<and> xid_event xid dmesg))
    \<and> (''RDMA Link Flapping Error'' \<in> set reasons \<longleftrightarrow> link_recently s failure_pattern)
    \<and> (''RDMA Link Down Error'' \<in> set reasons \<longleftrightarrow> link_recently s down_pattern)
    \<and> (''GPU Bus Error'' \<in> set reasons \<longleftrightarrow> (\<exists>out line. run_out (s_host s) [''lspci'', ''-v''] = Inr out
          \<and> line \<in> set (lines_of_output out) \<and> contains line ''(rev ff)''))
    \<and> (''ECC Error'' \<in> set reasons \<longrightarrow> (\<exists>out. run_out (s_host s) [''nvidia-smi'', ''-q''] = Inr out \<and> volatile_error out))
    \<and> (''Remap Error'' \<in> set reasons \<longrightarrow> (\<exists>out. run_out (s_host s) remap_command = Inr out \<and> remap_defect out))"
proof -
  obtain v where "drain_reasons s v \<noteq> []" "s_slurm s" and m: "m = health_message (drain_reasons s v)"
    using assms by (auto simp: check_gpu_setup_def Let_def split: if_splits option.splits)
  then show ?thesis unfolding m health_message_join
    by (intro exI [of _ "drain_reasons s v"] conjI refl xid_reason link_reasons bus_reason impI ecc_reason remap_reason)
qed

definition lost_device :: gpu_setup where
  "lost_device = \<lparr>s_host = \<lparr>h_root = True,
       h_run = (\<lambda>argv. if argv = [''lspci'', ''-v''] then Inr (''a (rev ff)'', []) else Inl Check_raised),
       h_run_gpu = (\<lambda>_ _. Inl Check_raised), h_float = (\<lambda>_. None)\<rparr>,
     s_os_name = ''Linux'', s_distro = ''Ubuntu'', s_shape = Inl Check_raised, s_log_lines = Inl Check_raised,
     s_flap_env = clock_sample, s_bw_test = False, s_bw_exe = [], s_slurm = True\<rparr>"

lemma drain_message_is_justified_witness: "\<exists>reasons. ''Healthcheck:: GPU Bus Error'' = ''Healthcheck:: '' @ join [CHR 0x0A] reasons"
proof -
  have "check_gpu_setup lost_device = Finished (Some ''Healthcheck:: GPU Bus Error'')" by code_simp
  from drain_message_is_justified [OF this] show ?thesis by blast
qed

text \<open>
  C39: when every command of the checks raises or is missing, and the logs and the metadata cannot
  be read, root sees no error and the node is not drained: a check that fails counts as passed.
\<close>

theorem failed_checks_are_silent:
  assumes "h_root (s_host s)" and "s_os_name s = ''Linux''"
    and "h_run (s_host s) = (\<lambda>argv. Inl (failure argv))" and "h_run_gpu (s_host s) = (\<lambda>device argv. Inl Check_raised)"
    and "s_log_lines s = Inl e" and "s_shape s = Inl e"
  shows "check_gpu_setup s = Finished None"
proof -
  have run: "run_out (s_host s) argv = Inl (failure argv)" for argv by (simp add: run_out_def assms)
  have old: "\<not> outdated ''Unknown''" by code_simp
  have version: "or_default (Some ''Unknown'') (get_oca_version (s_host s) (s_os_name s) (s_distro s)) = Some ''Unknown''"
    by (simp add: get_oca_version_def assms run)
  have rttcc: "or_default [] (check_rttcc_status (s_host s)) = []"
    by (simp add: check_rttcc_status_def rttcc_devices_def mlx_devices_def run)
  have "or_default None (check_gpu_count (s_host s)) = None"
    by (simp add: check_gpu_count_def run split: check_error.split)
  moreover have "or_default [] (check_ecc_errors (s_host s)) = []" "or_default [] (check_row_remap_errors (s_host s)) = []"
    by (simp_all add: check_ecc_errors_def check_row_remap_errors_def run split: check_error.split)
  moreover have "or_default None (gpu_bandwidth s) = None"
    by (simp add: gpu_bandwidth_def bandwidth_test_def measure_gpu_bw_def get_gpus_def run)
  ultimately have "drain_reasons s ''Unknown'' = []"
    using old rttcc by (simp add: drain_reasons_def Let_def once_def xid_status_def link_flapping_def check_bus_def
        check_rdma_link_status_def run assms)
  then show ?thesis unfolding check_gpu_setup_def version by (simp add: assms)
qed

definition broken_host :: gpu_setup where
  "broken_host = lost_device\<lparr>s_host := (s_host lost_device)\<lparr>h_run := (\<lambda>argv. Inl Check_raised)\<rparr>\<rparr>"

lemma failed_checks_are_silent_witness: "check_gpu_setup broken_host = Finished None"
  by (rule failed_checks_are_silent [where failure = "\<lambda>_. Check_raised" and e = Check_raised])
    (simp_all add: broken_host_def lost_device_def)

end
