(* ===== verification/Validation.thy ===== *)
theory Validation
  imports Inventory Py_Regex
begin

text \<open>
  The consistency checks of a deployment (\<open>scripts/validation.py\<close>): the nodes of each cluster according
  to \<open>resize.sh\<close>, \<open>/etc/hosts\<close>, Slurm, the topology file, the inventories and OCI are compared, and the
  differences written to files of a folder. What the commands and services answer is an input; a
  set is a list without duplicates, walked in the order of the list.
\<close>

section \<open>Inputs, errors and the report\<close>

datatype validation_error = V_index | V_key | V_type | V_service | V_exit

record summary =
  sm_state :: string
  sm_id :: string
  sm_pools :: "string list"

record answers =
  va_clusters :: "string list"
  va_resize :: "string \<Rightarrow> string list"
  va_resize_list :: "string list"
  va_display_name :: string
  va_etc_nodes :: "string \<Rightarrow> string list"
  va_console :: "string \<Rightarrow> string list"
  va_sinfo :: "string list"
  va_topology :: "string list"
  va_hostnames :: "string \<Rightarrow> string list"
  va_inventory :: "string \<Rightarrow> string option"
  va_networks :: "string \<Rightarrow> summary list"
  va_pools :: "string \<Rightarrow> summary list"
  va_members :: "string \<Rightarrow> validation_error + string list"
  va_md5 :: "string list"
  va_pdsh :: "string \<Rightarrow> string list"
  va_file :: "string \<Rightarrow> string list"
  va_folder :: string

text \<open>The folder of the report, once it was made; the lines appended to its files; the messages; the
  scripts that were run on the hosts of a file.\<close>

record report =
  vr_path :: "string option"
  vr_lines :: "(string \<times> string) list"
  vr_shown :: "string list"
  vr_scripts :: "(string \<times> string) list"

type_synonym 'a check_cmd = "(report, validation_error, 'a) cmd"

definition show_msg :: "string \<Rightarrow> unit check_cmd" where
  "show_msg m = (\<lambda>s. (Inr (), s\<lparr>vr_shown := vr_shown s @ [m]\<rparr>))"

text \<open>\<open>if path is None: path = createDir(); changeOwner(path)\<close>.\<close>

definition ensure_path :: "answers \<Rightarrow> string check_cmd" where
  "ensure_path a = (\<lambda>s. case vr_path s of
     None \<Rightarrow> (Inr (va_folder a), s\<lparr>vr_path := Some (va_folder a)\<rparr>) | Some p \<Rightarrow> (Inr p, s))"

definition report_line :: "answers \<Rightarrow> string \<Rightarrow> string \<Rightarrow> unit check_cmd" where
  "report_line a name line =
     cbind (ensure_path a) (\<lambda>_. \<lambda>s. (Inr (), s\<lparr>vr_lines := vr_lines s @ [(name, line)]\<rparr>))"

definition word_nth :: "'a list \<Rightarrow> nat \<Rightarrow> validation_error + 'a" where
  "word_nth ws i = (if i < length ws then Inr (ws ! i) else Inl V_index)"

definition bare :: "string \<Rightarrow> string" where
  "bare s = filter (\<lambda>ch. ch \<noteq> CHR 0x22) s"

section \<open>The nodes resize knows\<close>

text \<open>The clusters of the autoscaling folder, or the lines of a file.\<close>

definition get_resize_cluster_names :: "answers \<Rightarrow> string option \<Rightarrow> string list" where
  "get_resize_cluster_names a filepath =
     remdups (case filepath of None \<Rightarrow> filter (\<lambda>c. c \<noteq> ''README'') (va_clusters a) | Some f \<Rightarrow> va_file a f)"

definition instance_lines :: "string list \<Rightarrow> string list" where
  "instance_lines lines = filter (\<lambda>l. contains l ''ocid1.instance.'') lines"

definition listed_nodes :: "string list \<Rightarrow> string list" where
  "listed_nodes lines = remdups (map (\<lambda>l. bare (hd (words_by py_space l))) (instance_lines lines))"

definition permanent_cluster :: "answers \<Rightarrow> string" where
  "permanent_cluster a = sub_empty (Lit ''-controller'') (va_display_name a)"

definition cluster_nodes :: "answers \<Rightarrow> string list \<Rightarrow> (string \<times> string list) list" where
  "cluster_nodes a cluster_names =
     fold (\<lambda>c d. let ns = listed_nodes (va_resize a c) in if ns \<noteq> [] then dset c ns d else d) cluster_names []"

text \<open>The mode 2 asks for all clusters; in mode 1 a file with cluster names may have been given.\<close>

definition get_resize_nodes ::
  "answers \<Rightarrow> bool \<Rightarrow> string list \<Rightarrow> string list \<times> (string \<times> string list) list" where
  "get_resize_nodes a all_clusters cluster_names =
     (let d = cluster_nodes a cluster_names; p = permanent_cluster a; ns = listed_nodes (va_resize_list a)
      in if all_clusters \<and> ns \<noteq> [] \<and> p \<notin> set cluster_names then (cluster_names @ [p], dset p ns d)
         else (cluster_names, d))"

definition by_node :: "(string \<times> string list) list \<Rightarrow> (string \<times> string) list" where
  "by_node d = fold (\<lambda>(c, ns). fold (\<lambda>n. dset n c) ns) d []"

definition get_resize_cluster :: "answers \<Rightarrow> string option \<Rightarrow> (string list \<times> (string \<times> string) list) check_cmd" where
  "get_resize_cluster a cluster_file =
     (let (names, d) = get_resize_nodes a (cluster_file = None) (get_resize_cluster_names a cluster_file)
      in if names = [] \<or> d = [] then cbind (show_msg ''There are no clusters available'') (\<lambda>_. creturn (names, []))
         else creturn (names, by_node d))"

section \<open>The nodes other parts know\<close>

definition nodes_from_etc_hosts :: "answers \<Rightarrow> string list \<Rightarrow> (string \<times> string) list" where
  "nodes_from_etc_hosts a names = fold (\<lambda>c. fold (\<lambda>n. dset n c) (remdups (va_etc_nodes a c))) names []"

definition get_console_node_name :: "answers \<Rightarrow> string \<Rightarrow> string option" where
  "get_console_node_name a node = (case va_console a (node @ ''.local.vcn'') of [] \<Rightarrow> None | n # _ \<Rightarrow> Some n)"

text \<open>The name and cluster of a node of Slurm, when the cluster is one of those checked; nodes that
  \<open>/etc/hosts\<close> or \<open>resize.sh\<close> do not know are reported.\<close>

definition locate ::
  "answers \<Rightarrow> string \<Rightarrow> string list \<Rightarrow> (string \<times> string) list \<Rightarrow> string \<Rightarrow> (string \<times> string) option check_cmd" where
  "locate a name_of_file names all_nodes node =
     (case get_console_node_name a node of
        None \<Rightarrow> cbind (report_line a name_of_file
            (node @ '' not found in /etc/hosts file for getting the oci console name'')) (\<lambda>_. creturn None)
      | Some n \<Rightarrow>
          (case map_of all_nodes n of
             None \<Rightarrow> cbind (report_line a name_of_file (n @ '' not found in resize'')) (\<lambda>_. creturn None)
           | Some c \<Rightarrow> creturn (if c \<in> set names then Some (n, c) else None)))"

type_synonym node_map = "(string \<times> string) list"

definition slurm_line ::
  "answers \<Rightarrow> string list \<Rightarrow> node_map \<Rightarrow> node_map \<times> node_map \<Rightarrow> string \<Rightarrow> (node_map \<times> node_map) check_cmd" where
  "slurm_line a names all_nodes acc line =
     (let ws = words_by py_space line
      in cbind (clift (word_nth ws 0)) (\<lambda>state.
         cbind (clift (word_nth ws 2)) (\<lambda>node.
         cbind (locate a ''slurmNumNodes'' names all_nodes (bare node)) (\<lambda>found.
         creturn (case found of
             None \<Rightarrow> acc
           | Some (n, c) \<Rightarrow> (dset n c (fst acc),
               if ends_with (bare state) ''*'' then dset n (bare state) (snd acc) else snd acc))))))"

definition slurm_get_nodes :: "answers \<Rightarrow> string list \<Rightarrow> node_map \<Rightarrow> (node_map \<times> node_map) check_cmd" where
  "slurm_get_nodes a names all_nodes = cfold (slurm_line a names all_nodes) ([], []) (va_sinfo a)"

definition bracketed :: regex where
  "bracketed = seq [Lit ''['', Group (many (\<lambda>ch. ch \<noteq> CHR '']'')), Lit '']'']"

text \<open>A line names one node, or a list of nodes that \<open>scontrol\<close> expands.\<close>

definition topology_names :: "answers \<Rightarrow> string \<Rightarrow> validation_error + string list" where
  "topology_names a line =
     (if contains line ''SwitchName=inactive'' \<or> contains line ''Switches='' \<or> starts_with line ''#'' then Inr []
      else rbind (word_nth (words_by py_space line) 1) (\<lambda>w.
           rbind (word_nth (split_on CHR ''='' w) 1) (\<lambda>value.
           let node_name = filter (\<lambda>ch. ch \<noteq> CHR '' '') (bare value)
           in Inr (if find_all bracketed node_name = [] then [node_name] else va_hostnames a node_name))))"

definition topology_node ::
  "answers \<Rightarrow> string list \<Rightarrow> node_map \<Rightarrow> node_map \<Rightarrow> string \<Rightarrow> node_map check_cmd" where
  "topology_node a names all_nodes acc node =
     cbind (locate a ''topoNumNodes'' names all_nodes node) (\<lambda>found.
     creturn (case found of None \<Rightarrow> acc | Some (n, c) \<Rightarrow> dset n c acc))"

definition topology_get_nodes :: "answers \<Rightarrow> string list \<Rightarrow> node_map \<Rightarrow> node_map check_cmd" where
  "topology_get_nodes a names all_nodes =
     cfold (\<lambda>acc line. cbind (clift (topology_names a line)) (\<lambda>nodes.
       cfold (topology_node a names all_nodes) acc nodes)) [] (va_topology a)"

definition inventory_path :: "answers \<Rightarrow> string \<Rightarrow> string" where
  "inventory_path a c =
     (if c = permanent_cluster a then ''/etc/ansible/hosts''
      else ''/opt/oci-hpc/autoscaling/clusters/'' @ c @ ''/inventory'')"

definition cluster_inventory :: "answers \<Rightarrow> string \<Rightarrow> validation_error + string list" where
  "cluster_inventory a c =
     rbind (need V_type (parse_inventory (va_inventory a (inventory_path a c)))) (\<lambda>invt.
     rbind (need V_key (map_of invt ''compute_configured'')) (\<lambda>lines.
     map_err (\<lambda>l. word_nth (words_by py_space l) 0) lines))"

definition inventory_nodes :: "answers \<Rightarrow> string list \<Rightarrow> validation_error + node_map" where
  "inventory_nodes a names =
     fold_err (\<lambda>d c. rbind (cluster_inventory a c) (\<lambda>ns. Inr (fold (\<lambda>n. dset n c) ns d))) [] names"

definition running :: "summary list \<Rightarrow> summary list" where
  "running sms = filter (\<lambda>sm. sm_state sm = ''RUNNING'') sms"

text \<open>The last running cluster network of a name, or else the last running instance pool.\<close>

definition get_summary :: "answers \<Rightarrow> string \<Rightarrow> summary option check_cmd" where
  "get_summary a name =
     (let networks = va_networks a name; pools = va_pools a name;
          use_pools = running networks = [];
          found = (if use_pools then running pools else running networks);
          scaling = list_ex (\<lambda>sm. sm_state sm = ''SCALING'') (if use_pools then networks @ pools else networks)
      in if found = [] then
           cbind (show_msg (if scaling
             then ''No running cluster was found but there is a cluster in SCALING mode, try rerunning in a moment''
             else ''The cluster was not found'')) (\<lambda>_. creturn None)
         else cbind (if 1 < length found
             then show_msg (''There were multiple running clusters with this name, we selected the one with OCID:'' @ sm_id (last found))
             else creturn ()) (\<lambda>_.
           cbind (if use_pools then creturn [] else clift (word_nth (sm_pools (last found)) 0)) (\<lambda>_.
           creturn (Some (last found)))))"

definition oci_command :: "answers \<Rightarrow> string list \<Rightarrow> node_map check_cmd" where
  "oci_command a names =
     cfold (\<lambda>d c. cbind (get_summary a c) (\<lambda>found.
       case found of
         None \<Rightarrow> creturn d
       | Some sm \<Rightarrow> cbind (clift (va_members a (sm_id sm))) (\<lambda>ns. creturn (fold (\<lambda>n. dset n c) ns d)))) [] names"

section \<open>Comparing\<close>

text \<open>Equality of dictionaries.\<close>

definition dict_eq :: "node_map \<Rightarrow> node_map \<Rightarrow> bool" where
  "dict_eq d d' \<longleftrightarrow> list_all (\<lambda>k. map_of d k = map_of d' k) (map fst d @ map fst d')"

definition missing_in :: "node_map \<Rightarrow> node_map \<Rightarrow> string list" where
  "missing_in d d' = filter (\<lambda>k. map_of d' k = None) (map fst d)"

definition dict_equal_check :: "answers \<Rightarrow> node_map \<Rightarrow> node_map \<Rightarrow> string \<Rightarrow> string \<Rightarrow> unit check_cmd" where
  "dict_equal_check a resize_dict comp_dict type_name name_of_file =
     (if dict_eq resize_dict comp_dict
      then show_msg (''Number of nodes from '' @ type_name @ '' is same as resize'')
      else cbind (cfold (\<lambda>_ k. report_line a name_of_file (k @ '' is not in '' @ type_name @ '' file'')) ()
          (missing_in resize_dict comp_dict)) (\<lambda>_.
        cfold (\<lambda>_ k. report_line a name_of_file (k @ '' is not in resize list'')) () (missing_in comp_dict resize_dict)))"

definition warn_nodes :: "answers \<Rightarrow> node_map \<Rightarrow> unit check_cmd" where
  "warn_nodes a warning =
     cfold (\<lambda>_ (n, state). report_line a ''slurmWarnNodes'' (n @ '' is in slurm state '' @ state)) () warning"

text \<open>The cluster of every node of every cluster, which tells the clusters of the nodes of Slurm apart.\<close>

definition all_clusters :: "answers \<Rightarrow> string list \<times> (string \<times> string list) list" where
  "all_clusters a = get_resize_nodes a True (get_resize_cluster_names a None)"

definition all_node_clusters :: "answers \<Rightarrow> node_map" where
  "all_node_clusters a =
     (if fst (all_clusters a) = [] \<or> snd (all_clusters a) = [] then [] else by_node (snd (all_clusters a)))"

text \<open>Slurm and the topology are compared only when \<open>/etc/hosts\<close> agrees.\<close>

definition compare_sources :: "answers \<Rightarrow> string list \<Rightarrow> node_map \<Rightarrow> unit check_cmd" where
  "compare_sources a names resize_dict =
     (let etc_dict = nodes_from_etc_hosts a names
      in cbind (slurm_get_nodes a names (all_node_clusters a)) (\<lambda>(slurm_dict, warning).
         cbind (topology_get_nodes a names (all_node_clusters a)) (\<lambda>topo_dict.
         cbind (clift (inventory_nodes a names)) (\<lambda>inventory_dict.
         cbind (oci_command a names) (\<lambda>oci_dict.
         cbind (dict_equal_check a resize_dict etc_dict ''/etc/hosts'' ''etcHostsNumNodes'') (\<lambda>_.
         cbind (if dict_eq resize_dict etc_dict
           then cbind (dict_equal_check a resize_dict slurm_dict ''slurm'' ''slurmNumNodes'') (\<lambda>_.
                dict_equal_check a resize_dict topo_dict ''topology.conf'' ''topoNumNodes'')
           else creturn ()) (\<lambda>_.
         cbind (dict_equal_check a resize_dict inventory_dict ''inventory'' ''inventoryNumNodes'') (\<lambda>_.
         cbind (dict_equal_check a resize_dict oci_dict ''oci cli'' ''ociCliNumNodes'') (\<lambda>_.
         warn_nodes a warning)))))))))"

text \<open>The result is what \<open>resize_node_cluster_dict\<close> holds afterwards.\<close>

definition num_nodes_check :: "answers \<Rightarrow> string option \<Rightarrow> node_map check_cmd" where
  "num_nodes_check a cluster_file =
     cbind (get_resize_cluster a cluster_file) (\<lambda>(names, resize_dict).
     if names = [] then creturn resize_dict
     else cbind (if fst (all_clusters a) = [] \<or> snd (all_clusters a) = []
            then show_msg ''There are no clusters available'' else creturn ()) (\<lambda>_.
          cbind (compare_sources a names resize_dict) (\<lambda>_. creturn resize_dict)))"

section \<open>Checks on the hosts\<close>

datatype host_check = Pcie | Gpu_throttle | Etc_hosts_md5

definition check_name :: "host_check \<Rightarrow> string" where
  "check_name kind = (case kind of Pcie \<Rightarrow> ''pcie'' | Gpu_throttle \<Rightarrow> ''gpu throttle'' | Etc_hosts_md5 \<Rightarrow> ''/etc/hosts md5 sum'')"

definition run_script :: "string \<Rightarrow> string \<Rightarrow> unit check_cmd" where
  "run_script script hostfile = (\<lambda>s. (Inr (), s\<lparr>vr_scripts := vr_scripts s @ [(script, hostfile)]\<rparr>))"

text \<open>One line of \<open>pdsh\<close>: a host that did not answer, or the checksum of a host.\<close>

definition md5_line :: "answers \<Rightarrow> string \<Rightarrow> string list \<Rightarrow> string \<Rightarrow> string list check_cmd" where
  "md5_line a controller_md5 md5_set line =
     (let parts = split_on CHR '':'' line
      in if contains line ''exit'' then
           cbind (ensure_path a) (\<lambda>_.
           cbind (clift (word_nth parts 1)) (\<lambda>h.
           cbind (report_line a ''etcHostsMD5Sum'' (h @ '' not ssh-able at the moment'')) (\<lambda>_. creturn md5_set)))
         else cbind (clift (word_nth parts 1)) (\<lambda>sum.
           let md5 = lstrip_by py_space sum
           in if md5 \<noteq> controller_md5 then
                cbind (report_line a ''etcHostsMD5Sum'' (''/etc/hosts file does not match on '' @ hd parts)) (\<lambda>_.
                creturn (List.insert md5 md5_set))
              else creturn md5_set))"

definition etc_hosts_same :: "answers \<Rightarrow> string \<Rightarrow> unit check_cmd" where
  "etc_hosts_same a nodes =
     cbind (clift (word_nth (va_md5 a) 0)) (\<lambda>first.
     let controller_md5 = bare first
     in cbind (cfold (md5_line a controller_md5) [controller_md5] (va_pdsh a nodes)) (\<lambda>md5_set.
        show_msg (if 1 < length md5_set then ''/etc/hosts on controller and nodes is different''
                  else ''/etc/hosts is same on controller and all nodes that are ssh-able'')))"

definition host_check_on :: "answers \<Rightarrow> host_check \<Rightarrow> string \<Rightarrow> string list \<Rightarrow> unit check_cmd" where
  "host_check_on a kind hostfile hosts_in_file =
     (case kind of
        Pcie \<Rightarrow> run_script ''pcie.sh'' hostfile
      | Gpu_throttle \<Rightarrow> run_script ''gpu_throttle.sh'' hostfile
      | Etc_hosts_md5 \<Rightarrow> etc_hosts_same a (join '','' hosts_in_file))"

text \<open>The lines of \<open>host.txt\<close> in the folder.\<close>

definition written_hosts :: "report \<Rightarrow> string list" where
  "written_hosts s = map snd (filter (\<lambda>(name, _). name = ''host'') (vr_lines s))"

definition write_hosts :: "answers \<Rightarrow> string option \<Rightarrow> node_map \<Rightarrow> bool check_cmd" where
  "write_hosts a cluster_file resize_dict =
     cbind (if resize_dict = [] then get_resize_cluster a cluster_file else creturn ([[]], resize_dict)) (\<lambda>(names, d).
     if names = [] then craise V_exit
     else cbind (ensure_path a) (\<lambda>_.
          cbind (cfold (\<lambda>_ n. report_line a ''host'' n) () (map fst d)) (\<lambda>_. creturn (d \<noteq> []))))"

definition run_checks ::
  "answers \<Rightarrow> string option \<Rightarrow> string option \<Rightarrow> host_check \<Rightarrow> bool \<Rightarrow> node_map \<Rightarrow> bool check_cmd" where
  "run_checks a cluster_file type_arg kind written resize_dict =
     (case type_arg of
        None \<Rightarrow> creturn written
      | Some t \<Rightarrow>
          if t = ''y'' \<or> t = ''Y'' then
            (case cluster_file of
               None \<Rightarrow> cbind (show_msg (''Provide cluster_names file or hosts file to run '' @ check_name kind @ '' check''))
                 (\<lambda>_. creturn written)
             | Some f \<Rightarrow>
                 cbind (if written then creturn True else write_hosts a (Some f) resize_dict) (\<lambda>written'.
                 cbind (ensure_path a) (\<lambda>p. \<lambda>s.
                 cbind (host_check_on a kind (p @ ''/host.txt'') (written_hosts s)) (\<lambda>_. creturn written') s)))
          else cbind (ensure_path a) (\<lambda>_.
               cbind (host_check_on a kind t (va_file a t)) (\<lambda>_. creturn written)))"

record validation_args =
  ar_num_nodes :: bool
  ar_cluster_names :: "string option"
  ar_pcie :: "string option"
  ar_gpu_throttle :: "string option"
  ar_etc_hosts :: "string option"

definition validation_main :: "answers \<Rightarrow> validation_args \<Rightarrow> unit check_cmd" where
  "validation_main a args =
     cbind (if ar_num_nodes args then num_nodes_check a (ar_cluster_names args) else creturn []) (\<lambda>resize_dict.
     cbind (run_checks a (ar_cluster_names args) (ar_pcie args) Pcie False resize_dict) (\<lambda>written.
     cbind (run_checks a (ar_cluster_names args) (ar_gpu_throttle args) Gpu_throttle written resize_dict) (\<lambda>written.
     cbind (run_checks a (ar_cluster_names args) (ar_etc_hosts args) Etc_hosts_md5 written resize_dict) (\<lambda>_. \<lambda>s.
     case vr_path s of None \<Rightarrow> (Inr (), s) | Some p \<Rightarrow> show_msg (''Output is in folder: '' @ p) s))))"

section \<open>A run without a folder\<close>

text \<open>A folder, once made, stays; and every line that is reported makes one.\<close>

definition path_stays :: "report \<Rightarrow> report \<Rightarrow> bool" where
  "path_stays s s' \<longleftrightarrow> (vr_path s \<noteq> None \<longrightarrow> vr_path s' \<noteq> None)"

named_theorems stay_intros

lemma path_stays_order [simp]: "reflp path_stays" "transp path_stays"
  by (auto simp: path_stays_def reflp_def transp_def)

abbreviation stays :: "'a check_cmd \<Rightarrow> bool" where
  "stays \<equiv> keeps path_stays"

lemma stays_simple [stay_intros]:
  "stays (show_msg m)" "stays (ensure_path a)" "stays (creturn x)" "stays (craise e)" "stays (clift r)" "stays (Pair r)"
  by (auto simp: keeps_def path_stays_def show_msg_def ensure_path_def creturn_def craise_def clift_def split: option.splits)

lemma stays_cbind [stay_intros]: "stays m \<Longrightarrow> (\<And>x. stays (f x)) \<Longrightarrow> stays (cbind m f)"
  by (rule keeps_cbind) auto

lemma stays_cfold [stay_intros]: "(\<And>acc x. stays (f acc x)) \<Longrightarrow> stays (cfold f acc xs)"
  by (rule keeps_cfold) auto

lemma stays_report_line [stay_intros]: "stays (report_line a name line)"
  by (auto simp: report_line_def keeps_def path_stays_def ensure_path_def cbind_def split: option.splits)

lemma stays_locate [stay_intros]: "stays (locate a name names all_nodes node)"
  by (auto simp: locate_def intro!: stay_intros split: option.split)

lemma stays_slurm_get_nodes [stay_intros]: "stays (slurm_get_nodes a names all_nodes)"
  by (auto simp: slurm_get_nodes_def slurm_line_def Let_def intro!: stay_intros)

lemma stays_topology_get_nodes [stay_intros]: "stays (topology_get_nodes a names all_nodes)"
  by (auto simp: topology_get_nodes_def topology_node_def intro!: stay_intros)

lemma stays_get_summary [stay_intros]: "stays (get_summary a name)"
  by (auto simp: get_summary_def Let_def intro!: stay_intros)

lemma stays_oci_command [stay_intros]: "stays (oci_command a names)"
  by (auto simp: oci_command_def intro!: stay_intros split: option.split)

lemma stays_dict_equal_check [stay_intros]: "stays (dict_equal_check a d d' t n)"
  by (auto simp: dict_equal_check_def intro!: stay_intros)

lemma stays_warn_nodes [stay_intros]: "stays (warn_nodes a w)"
  by (auto simp: warn_nodes_def intro!: stay_intros)

lemma no_folder_before: "stays m \<Longrightarrow> m s = (r, s') \<Longrightarrow> vr_path s' = None \<Longrightarrow> vr_path s = None"
  by (drule (1) keepsD) (auto simp: path_stays_def)

lemma no_line_reported:
  assumes "cfold (\<lambda>_ x. report_line a name (f x)) () xs s = (r, s')" and "vr_path s' = None"
  shows "xs = []"
proof (cases xs)
  case (Cons x ys)
  obtain q t where q: "report_line a name (f x) s = (q, t)" by fastforce
  then have t: "vr_path t \<noteq> None" by (auto simp: report_line_def ensure_path_def cbind_def split: option.splits)
  have "stays (cfold (\<lambda>_ x. report_line a name (f x)) y ys)" for y by (intro stay_intros)
  then have "vr_path s' \<noteq> None"
    using assms(1) q t by (cases q) (auto simp: Cons cbind_def keeps_def path_stays_def)
  then show ?thesis using assms(2) by simp
qed

lemma missing_Nil: "missing_in d d' = [] \<longleftrightarrow> fst ` set d \<subseteq> fst ` set d'"
  by (auto simp: missing_in_def filter_empty_conv map_of_eq_None_iff)

lemma dict_eq_keys: "dict_eq d d' \<Longrightarrow> fst ` set d = fst ` set d'"
proof -
  assume "dict_eq d d'"
  then have "\<forall>k \<in> fst ` set d \<union> fst ` set d'. map_of d k = map_of d' k"
    by (simp only: dict_eq_def list_all_iff set_append set_map)
  then have "map_of d k = None \<longleftrightarrow> map_of d' k = None" if "k \<in> fst ` set d \<union> fst ` set d'" for k
    using that by metis
  then show ?thesis unfolding map_of_eq_None_iff by blast
qed

lemma quiet_check_same_nodes:
  assumes "dict_equal_check a d d' t n s = (Inr x, s')" and "vr_path s' = None"
  shows "fst ` set d = fst ` set d'"
proof (cases "dict_eq d d'")
  case False
  then obtain q where q: "cfold (\<lambda>_ k. report_line a n (k @ '' is not in '' @ t @ '' file'')) () (missing_in d d') s = (Inr (), q)"
    and "cfold (\<lambda>_ k. report_line a n (k @ '' is not in resize list'')) () (missing_in d' d) q = (Inr (), s')"
    using assms(1) by (auto simp: dict_equal_check_def cbind_Inr_iff)
  note second = this(2)
  have stay: "stays (cfold (\<lambda>_ k. report_line a n (k @ '' is not in resize list'')) () (missing_in d' d))"
    by (intro stay_intros)
  have "missing_in d' d = []" by (rule no_line_reported [OF second assms(2)])
  moreover have "missing_in d d' = []" by (rule no_line_reported [OF q no_folder_before [OF stay second assms(2)]])
  ultimately show ?thesis unfolding missing_Nil by blast
qed (rule dict_eq_keys)

lemma quiet_warnings: "warn_nodes a w s = (r, s') \<Longrightarrow> vr_path s' = None \<Longrightarrow> w = []"
proof -
  assume *: "warn_nodes a w s = (r, s')" "vr_path s' = None"
  have "cfold (\<lambda>_ x. report_line a ''slurmWarnNodes'' (fst x @ '' is in slurm state '' @ snd x)) () w s = (r, s')"
    using *(1) by (simp add: warn_nodes_def case_prod_beta')
  then show "w = []" by (rule no_line_reported [OF _ *(2)])
qed

text \<open>The names of the clusters that are checked.\<close>

definition checked_clusters :: "answers \<Rightarrow> string option \<Rightarrow> string list" where
  "checked_clusters a f = fst (get_resize_nodes a (f = None) (get_resize_cluster_names a f))"

lemma get_resize_cluster_names_checked:
  "get_resize_cluster a f s = (Inr (names, d), s') \<Longrightarrow> names = checked_clusters a f"
  by (auto simp: get_resize_cluster_def checked_clusters_def cbind_Inr_iff split: prod.splits if_splits)

lemma quiet_sources:
  assumes "compare_sources a names d s = (Inr (), s')" and "vr_path s' = None"
  shows "fst ` set (nodes_from_etc_hosts a names) = fst ` set d
    \<and> (\<exists>inv. inventory_nodes a names = Inr inv \<and> fst ` set inv = fst ` set d)
    \<and> (\<exists>oci t t'. oci_command a names t = (Inr oci, t') \<and> fst ` set oci = fst ` set d)
    \<and> (\<exists>slurm warned t t'. slurm_get_nodes a names (all_node_clusters a) t = (Inr (slurm, warned), t') \<and> warned = []
        \<and> (dict_eq d (nodes_from_etc_hosts a names) \<longrightarrow> fst ` set slurm = fst ` set d))
    \<and> (\<exists>topo t t'. topology_get_nodes a names (all_node_clusters a) t = (Inr topo, t')
        \<and> (dict_eq d (nodes_from_etc_hosts a names) \<longrightarrow> fst ` set topo = fst ` set d))"
proof -
  let ?etc = "nodes_from_etc_hosts a names"
  obtain slurm warned s1 where
      slurm: "slurm_get_nodes a names (all_node_clusters a) s = (Inr (slurm, warned), s1)"
    and rest: "cbind (topology_get_nodes a names (all_node_clusters a)) (\<lambda>topo_dict.
         cbind (clift (inventory_nodes a names)) (\<lambda>inventory_dict.
         cbind (oci_command a names) (\<lambda>oci_dict.
         cbind (dict_equal_check a d ?etc ''/etc/hosts'' ''etcHostsNumNodes'') (\<lambda>_.
         cbind (if dict_eq d ?etc
           then cbind (dict_equal_check a d slurm ''slurm'' ''slurmNumNodes'') (\<lambda>_.
                dict_equal_check a d topo_dict ''topology.conf'' ''topoNumNodes'')
           else creturn ()) (\<lambda>_.
         cbind (dict_equal_check a d inventory_dict ''inventory'' ''inventoryNumNodes'') (\<lambda>_.
         cbind (dict_equal_check a d oci_dict ''oci cli'' ''ociCliNumNodes'') (\<lambda>_.
         warn_nodes a warned))))))) s1 = (Inr (), s')"
    using assms(1) unfolding compare_sources_def Let_def by (subst (asm) cbind_Inr_iff) (auto split del: if_split)
  then obtain topo s2 inv oci s3 s4 s5 s6 s7 where
    topo: "topology_get_nodes a names (all_node_clusters a) s1 = (Inr topo, s2)"
    and inv: "inventory_nodes a names = Inr inv"
    and oci: "oci_command a names s2 = (Inr oci, s3)"
    and c1: "dict_equal_check a d ?etc ''/etc/hosts'' ''etcHostsNumNodes'' s3 = (Inr (), s4)"
    and c2: "(if dict_eq d ?etc then cbind (dict_equal_check a d slurm ''slurm'' ''slurmNumNodes'') (\<lambda>_.
                dict_equal_check a d topo ''topology.conf'' ''topoNumNodes'') else creturn ()) s4 = (Inr (), s5)"
    and c3: "dict_equal_check a d inv ''inventory'' ''inventoryNumNodes'' s5 = (Inr (), s6)"
    and c4: "dict_equal_check a d oci ''oci cli'' ''ociCliNumNodes'' s6 = (Inr (), s7)"
    and w: "warn_nodes a warned s7 = (Inr (), s')"
    unfolding cbind_Inr_iff clift_def by (auto split del: if_split)
  note before = no_folder_before [OF stays_dict_equal_check]
  have "stays (warn_nodes a warned)" by (intro stay_intros)
  then have p7: "vr_path s7 = None" using no_folder_before w assms(2) by blast
  note p6 = before [OF c4 p7]
  note p5 = before [OF c3 p6]
  have "stays (if dict_eq d ?etc then cbind (dict_equal_check a d slurm ''slurm'' ''slurmNumNodes'') (\<lambda>_.
      dict_equal_check a d topo ''topology.conf'' ''topoNumNodes'') else creturn ())"
    by (auto intro!: stay_intros)
  then have "path_stays s4 s5" using c2 by (rule keepsD)
  then have p4: "vr_path s4 = None" using p5 by (auto simp: path_stays_def)
  have st: "fst ` set slurm = fst ` set d \<and> fst ` set topo = fst ` set d" if "dict_eq d ?etc"
  proof -
    note eq = that
    obtain q where q: "dict_equal_check a d slurm ''slurm'' ''slurmNumNodes'' s4 = (Inr (), q)"
      "dict_equal_check a d topo ''topology.conf'' ''topoNumNodes'' q = (Inr (), s5)"
      using c2 eq by (auto simp: cbind_Inr_iff)
    show ?thesis using quiet_check_same_nodes [OF q(2) p5] quiet_check_same_nodes [OF q(1) before [OF q(2) p5]] by simp
  qed
  have "fst ` set ?etc = fst ` set d" "fst ` set inv = fst ` set d" "fst ` set oci = fst ` set d" "warned = []"
    using quiet_check_same_nodes [OF c1 p4] quiet_check_same_nodes [OF c3 p6] quiet_check_same_nodes [OF c4 p7]
      quiet_warnings [OF w assms(2)] by simp_all
  note same = this
  show ?thesis
  proof (intro conjI)
    show "\<exists>inv. inventory_nodes a names = Inr inv \<and> fst ` set inv = fst ` set d" using inv same(2) by (intro exI conjI)
    show "\<exists>oci t t'. oci_command a names t = (Inr oci, t') \<and> fst ` set oci = fst ` set d" using oci same(3) by (intro exI conjI)
    show "\<exists>slurm warned t t'. slurm_get_nodes a names (all_node_clusters a) t = (Inr (slurm, warned), t') \<and> warned = []
        \<and> (dict_eq d ?etc \<longrightarrow> fst ` set slurm = fst ` set d)"
      using slurm same(4) st by (intro exI [of _ slurm] exI [of _ warned] exI [of _ s] exI [of _ s1]) auto
    show "\<exists>topo t t'. topology_get_nodes a names (all_node_clusters a) t = (Inr topo, t')
        \<and> (dict_eq d ?etc \<longrightarrow> fst ` set topo = fst ` set d)"
      using topo st by (intro exI [of _ topo] exI [of _ s1] exI [of _ s2]) auto
  qed (rule same)
qed

text \<open>
  C40: when a run of the check returns without a folder for its output, all clusters it checked have
  the same nodes in \<open>/etc/hosts\<close>, the inventories and OCI as \<open>resize.sh\<close> lists; and when \<open>/etc/hosts\<close>
  also agrees on the cluster of every node, Slurm and the topology file have the same nodes, and
  Slurm marks none of them as not responding.
\<close>

theorem quiet_check_means_same_nodes:
  assumes "num_nodes_check a f s = (Inr d, s')" and "vr_path s' = None" and "checked_clusters a f \<noteq> []"
  shows "let names = checked_clusters a f; same = (\<lambda>d'. fst ` set d' = fst ` set d) in
    same (nodes_from_etc_hosts a names)
    \<and> (\<exists>inv. inventory_nodes a names = Inr inv \<and> same inv)
    \<and> (\<exists>oci t t'. oci_command a names t = (Inr oci, t') \<and> same oci)
    \<and> (\<exists>slurm warned t t'. slurm_get_nodes a names (all_node_clusters a) t = (Inr (slurm, warned), t') \<and> warned = []
        \<and> (dict_eq d (nodes_from_etc_hosts a names) \<longrightarrow> same slurm))
    \<and> (\<exists>topo t t'. topology_get_nodes a names (all_node_clusters a) t = (Inr topo, t')
        \<and> (dict_eq d (nodes_from_etc_hosts a names) \<longrightarrow> same topo))"
proof -
  let ?names = "checked_clusters a f"
  obtain s1 where "get_resize_cluster a f s = (Inr (?names, d), s1) \<and> (\<exists>s2. compare_sources a ?names d s2 = (Inr (), s'))"
    using assms(1,3) by (auto simp: num_nodes_check_def cbind_Inr_iff dest: get_resize_cluster_names_checked split: if_splits)
  then obtain s2 where "compare_sources a ?names d s2 = (Inr (), s')" by blast
  from quiet_sources [OF this assms(2)] show ?thesis by (simp only: Let_def)
qed

definition healthy_answers :: answers where
  "healthy_answers = \<lparr>va_clusters = [''README'', ''c''], va_resize = (\<lambda>_. [''n ocid1.instance.x'']), va_resize_list = [],
     va_display_name = ''p-controller'', va_etc_nodes = (\<lambda>_. [''n'']), va_console = (\<lambda>_. [''n'']),
     va_sinfo = [''\"idle 1 m\"''], va_topology = [''SwitchName=s Nodes=m''], va_hostnames = (\<lambda>_. []),
     va_inventory = (\<lambda>_. Some (''[compute_configured]'' @ [CHR 0x0A] @ ''n x'')),
     va_networks = (\<lambda>_. [\<lparr>sm_state = ''RUNNING'', sm_id = ''i'', sm_pools = [''q'']\<rparr>]), va_pools = (\<lambda>_. []),
     va_members = (\<lambda>_. Inr [''n'']), va_md5 = [], va_pdsh = (\<lambda>_. []), va_file = (\<lambda>_. []), va_folder = ''/tmp/1''\<rparr>"

definition fresh_report :: report where
  "fresh_report = \<lparr>vr_path = None, vr_lines = [], vr_shown = [], vr_scripts = []\<rparr>"

lemma quiet_check_means_same_nodes_witness:
  "fst ` set (nodes_from_etc_hosts healthy_answers [''c'']) = {''n''}"
proof -
  have c: "checked_clusters healthy_answers None = [''c'']" by code_simp
  obtain s' where r: "num_nodes_check healthy_answers None fresh_report = (Inr [(''n'', ''c'')], s')" and p: "vr_path s' = None"
  proof
    show "num_nodes_check healthy_answers None fresh_report = (Inr [(''n'', ''c'')],
        fresh_report\<lparr>vr_shown := map (\<lambda>t. ''Number of nodes from '' @ t @ '' is same as resize'')
          [''/etc/hosts'', ''slurm'', ''topology.conf'', ''inventory'', ''oci cli'']\<rparr>)"
      by code_simp
  qed (simp add: fresh_report_def)
  show ?thesis using quiet_check_means_same_nodes [OF r p] by (simp add: c Let_def)
qed

section \<open>Differences that are not reported\<close>

text \<open>Dictionaries that differ only in the cluster of a node lead to no message and no file.\<close>

lemma moved_nodes_unnoticed:
  assumes "fst ` set d = fst ` set d'" and "\<not> dict_eq d d'"
  shows "dict_equal_check a d d' t n s = (Inr (), s)"
proof -
  have "missing_in d d' = []" "missing_in d' d = []" using assms(1) by (simp_all add: missing_Nil)
  then show ?thesis using assms(2) by (simp add: dict_equal_check_def)
qed

lemma blank_inventory_line_raises:
  assumes "parse_inventory (va_inventory a (inventory_path a c)) = Some invt"
    and "map_of invt ''compute_configured'' = Some (ls @ l # ls')" and "words_by py_space l = []"
  shows "\<exists>e. cluster_inventory a c = Inl e"
proof -
  have "map_err (\<lambda>l. word_nth (words_by py_space l) 0) (ls @ l # ls') \<noteq> Inr ys" for ys
    using assms(3) by (auto simp: map_err_Inr list_all2_append1 list_all2_Cons1 word_nth_def)
  then show ?thesis using assms(1,2) by (cases "cluster_inventory a c") (auto simp: cluster_inventory_def need_def)
qed

text \<open>The verdict of the checksums: the same exactly when every host that answered has that of the controller.\<close>

definition host_md5 :: "string \<Rightarrow> string" where
  "host_md5 line = lstrip_by py_space (split_on CHR '':'' line ! 1)"

definition answered :: "string \<Rightarrow> bool" where
  "answered line \<longleftrightarrow> \<not> contains line ''exit''"

lemma md5_line_set:
  assumes "md5_line a m acc line s = (Inr acc', s')"
  shows "acc' = (if answered line \<and> host_md5 line \<noteq> m then List.insert (host_md5 line) acc else acc)"
  using assms
  by (auto simp: md5_line_def answered_def host_md5_def Let_def cbind_Inr_iff word_nth_def split: if_splits)

lemma md5_fold_set:
  assumes "cfold (md5_line a m) acc lines s = (Inr r, s')" and "distinct acc"
  shows "distinct r \<and> set r = set acc \<union> host_md5 ` {l \<in> set lines. answered l \<and> host_md5 l \<noteq> m}"
  using assms
proof (induction lines arbitrary: acc s)
  case (Cons line lines)
  then obtain acc' t where step: "md5_line a m acc line s = (Inr acc', t)" and rest: "cfold (md5_line a m) acc' lines t = (Inr r, s')"
    by (auto simp: cbind_Inr_iff)
  have "distinct acc'" using Cons.prems(2) md5_line_set [OF step] by simp
  from Cons.IH [OF rest this] show ?case using md5_line_set [OF step] by auto
qed simp

lemma same_hosts_message:
  assumes "etc_hosts_same a nodes s = (Inr (), s')"
  shows "\<exists>shown. vr_shown s' = shown @ [if \<forall>line \<in> set (va_pdsh a nodes). answered line \<longrightarrow> host_md5 line = bare (va_md5 a ! 0)
      then ''/etc/hosts is same on controller and all nodes that are ssh-able''
      else ''/etc/hosts on controller and nodes is different'']"
proof -
  let ?m = "bare (va_md5 a ! 0)"
  obtain r t where r: "cfold (md5_line a ?m) [?m] (va_pdsh a nodes) s = (Inr r, t)"
    and s': "s' = snd (show_msg (if 1 < length r then ''/etc/hosts on controller and nodes is different''
                  else ''/etc/hosts is same on controller and all nodes that are ssh-able'') t)"
    using assms by (auto simp: etc_hosts_same_def cbind_Inr_iff word_nth_def Let_def split: if_splits)
  define A where "A = host_md5 ` {l \<in> set (va_pdsh a nodes). answered l \<and> host_md5 l \<noteq> ?m}"
  have r': "distinct r" "set r = insert ?m A" using md5_fold_set [OF r] by (auto simp: A_def)
  have A: "finite A" "?m \<notin> A" by (auto simp: A_def)
  have "length r = Suc (card A)" using distinct_card [OF r'(1)] A by (simp add: r'(2))
  then have "1 < length r \<longleftrightarrow> A \<noteq> {}" using A(1) by (simp add: card_gt_0_iff)
  also have "\<dots> \<longleftrightarrow> \<not> (\<forall>line \<in> set (va_pdsh a nodes). answered line \<longrightarrow> host_md5 line = ?m)"
    by (auto simp: A_def)
  finally have "1 < length r \<longleftrightarrow> \<not> (\<forall>line \<in> set (va_pdsh a nodes). answered line \<longrightarrow> host_md5 line = ?m)" .
  then show ?thesis unfolding s' show_msg_def by (intro exI [of _ "vr_shown t"]) simp
qed

end
