(* ===== verification/Collection.thy ===== *)
theory Collection
  imports Json_Data "HOL-Library.Multiset"
begin

text \<open>
  The scripts that collect logs and metadata of hosts: \<open>scripts/collect_logs.py\<close>,
  \<open>scripts/h100_script.py\<close> and \<open>scripts/collect_metadata/collect_metadata.py\<close>. A command is the text
  given to the shell; its answer, which may depend on the commands before it, is a parameter.
\<close>

section \<open>Commands\<close>

datatype collect_error = C_index | C_type | C_metadata | C_exit

text \<open>The tuple \<open>(9000, ...)\<close> of a command that failed, or the lines of its output.\<close>

datatype cmd_result = Failed_cmd | Lines "string list"

record collect_env =
  ce_answer :: "string list \<Rightarrow> string \<Rightarrow> cmd_result"
  ce_user :: string
  ce_stamp :: string
  ce_mkdir_ok :: bool
  ce_compartment :: "collect_error + string"
  ce_host_words :: "string \<Rightarrow> string list"

type_synonym 'a collect_cmd = "(string list, collect_error, 'a) cmd"

definition run_cmd :: "collect_env \<Rightarrow> string \<Rightarrow> cmd_result collect_cmd" where
  "run_cmd env c = (\<lambda>ran. (Inr (ce_answer env ran c), ran @ [c]))"

definition item :: "'a list \<Rightarrow> nat \<Rightarrow> collect_error + 'a" where
  "item xs i = (if i < length xs then Inr (xs ! i) else Inl C_index)"

definition quoted :: "string \<Rightarrow> string" where
  "quoted s = CHR 0x22 # s @ [CHR 0x22]"

section \<open>Logs of one host\<close>

definition change_owner :: "collect_env \<Rightarrow> string \<Rightarrow> unit collect_cmd" where
  "change_owner env path =
     cbind (run_cmd env (''sudo chown -R '' @ ce_user env @ '':'' @ ce_user env @ '' '' @ path)) (\<lambda>_. creturn ())"

definition create_dir :: "collect_env \<Rightarrow> string \<Rightarrow> collect_error + string" where
  "create_dir env hostname =
     (if ce_mkdir_ok env then Inr (''/home/'' @ ce_user env @ ''/'' @ hostname @ ''_'' @ ce_stamp env) else Inl C_exit)"

definition ssh :: "string \<Rightarrow> string \<Rightarrow> string" where
  "ssh h c = ''ssh '' @ h @ '' '' @ quoted c"

definition ssh_probe :: "string \<Rightarrow> string \<Rightarrow> string" where
  "ssh_probe h c = ''ssh -o ConnectTimeout=10 '' @ h @ '' '' @ quoted c"

definition run_sosreport :: "collect_env \<Rightarrow> string \<Rightarrow> string \<Rightarrow> string \<Rightarrow> bool collect_cmd" where
  "run_sosreport env c h path =
     cbind (run_cmd env c) (\<lambda>r.
     case r of
       Failed_cmd \<Rightarrow> creturn False
     | Lines ls \<Rightarrow>
         cbind (clift (item (filter (\<lambda>l. contains l ''.tar.xz'') ls) 0)) (\<lambda>l.
         cbind (clift (need C_index (rsplit_once CHR ''/'' (py_strip l)))) (\<lambda>(_, sosrepfile).
         cbind (run_cmd env (ssh h (''sudo mv /tmp/'' @ sosrepfile @ '' '' @ path))) (\<lambda>_.
         cbind (change_owner env path) (\<lambda>_.
         cbind (run_cmd env (ssh h (''sudo mv /tmp/'' @ sosrepfile @ ''.sha256 '' @ path))) (\<lambda>_.
         cbind (change_owner env path) (\<lambda>_. creturn True)))))))"

definition nvidia_cmd :: "string \<Rightarrow> string \<Rightarrow> string" where
  "nvidia_cmd h path = ssh h (''cd '' @ path @ ''; sudo /usr/bin/nvidia-bug-report.sh'')"

definition nvidia_bug_report :: "collect_env \<Rightarrow> string \<Rightarrow> string \<Rightarrow> bool collect_cmd" where
  "nvidia_bug_report env h path =
     cbind (run_cmd env (nvidia_cmd h path)) (\<lambda>r.
     case r of
       Failed_cmd \<Rightarrow> creturn False
     | Lines _ \<Rightarrow>
         cbind (run_cmd env (''mv /home/'' @ ce_user env @ ''/nvidia-bug-report.log.gz '' @ path)) (\<lambda>_.
         cbind (change_owner env path) (\<lambda>_. creturn True)))"

definition os_probe :: "string \<Rightarrow> string" where
  "os_probe h = ssh_probe h ''cat /etc/os-release | grep PRETTY_NAME''"

datatype os_version = Oracle | Ubuntu

definition get_os :: "collect_env \<Rightarrow> string \<Rightarrow> os_version option collect_cmd" where
  "get_os env h =
     cbind (run_cmd env (os_probe h)) (\<lambda>r.
     case r of
       Failed_cmd \<Rightarrow> creturn None
     | Lines ls \<Rightarrow> cbind (clift (item ls 0)) (\<lambda>l.
         creturn (if contains l ''Oracle'' then Some Oracle else if contains l ''Ubuntu'' then Some Ubuntu else None)))"

text \<open>Whether \<open>sosreport\<close> is installed; for Ubuntu the fourth line of the output tells.\<close>

definition sos_installed :: "collect_env \<Rightarrow> string \<Rightarrow> os_version \<Rightarrow> bool collect_cmd" where
  "sos_installed env h version =
     cbind (run_cmd env (ssh_probe h (case version of
         Oracle \<Rightarrow> ''sudo yum list installed | grep sos'' | Ubuntu \<Rightarrow> ''sudo apt list --installed | grep sosreport''))) (\<lambda>r.
     case r of
       Failed_cmd \<Rightarrow> creturn False
     | Lines ls \<Rightarrow> (case version of
           Oracle \<Rightarrow> cbind (clift (item ls 0)) (\<lambda>l. creturn (contains l ''sos''))
         | Ubuntu \<Rightarrow> cbind (clift (item ls 3)) (\<lambda>l. creturn (contains l ''sosreport''))))"

definition sos_report :: "collect_env \<Rightarrow> string \<Rightarrow> string \<Rightarrow> bool collect_cmd" where
  "sos_report env h path =
     cbind (get_os env h) (\<lambda>found.
     case found of
       None \<Rightarrow> creturn False
     | Some version \<Rightarrow>
         let install = ssh h (case version of Oracle \<Rightarrow> ''sudo yum install -y sos'' | Ubuntu \<Rightarrow> ''sudo apt install -y sosreport'');
             c = ssh h (case version of
               Oracle \<Rightarrow> ''sudo sosreport --batch -q -k rpm.rpmva=off --tmp-dir /tmp/''
             | Ubuntu \<Rightarrow> ''sudo sos report --batch -q -k rpm.rpmva=off --tmp-dir /tmp/'')
         in cbind (sos_installed env h version) (\<lambda>there.
            if there then run_sosreport env c h path
            else cbind (run_cmd env install) (\<lambda>r.
              case r of Failed_cmd \<Rightarrow> creturn False | Lines _ \<Rightarrow> run_sosreport env c h path)))"

definition console_history_logs :: "collect_env \<Rightarrow> string \<Rightarrow> string \<Rightarrow> string option \<Rightarrow> bool collect_cmd" where
  "console_history_logs env h path compartment =
     cbind (clift (case compartment of None \<Rightarrow> ce_compartment env | Some c \<Rightarrow> Inr c)) (\<lambda>compartment_id.
     cbind (clift (item (ce_host_words env h) 0)) (\<lambda>display_name.
     cbind (run_cmd env (''oci compute instance list --compartment-id '' @ compartment_id @ '' --display-name '' @ display_name
         @ '' --auth instance_principal --query data[0].id'')) (\<lambda>r.
     case r of Failed_cmd \<Rightarrow> creturn False | Lines ls \<Rightarrow>
     cbind (clift (item ls 0)) (\<lambda>instance_id.
     cbind (run_cmd env (''oci compute console-history capture --instance-id '' @ instance_id
         @ '' --auth instance_principal --query data.id'')) (\<lambda>r.
     case r of Failed_cmd \<Rightarrow> creturn False | Lines ls \<Rightarrow>
     cbind (clift (item ls 0)) (\<lambda>history.
     cbind (run_cmd env (''oci compute console-history get-content --file '' @ path @ ''/'' @ h @ ''_console_history''
         @ '' --instance-console-history-id '' @ history @ '' --length 100000 --auth instance_principal'')) (\<lambda>r.
     creturn (r \<noteq> Failed_cmd))))))))"

definition is_node_sshable :: "collect_env \<Rightarrow> string \<Rightarrow> bool collect_cmd" where
  "is_node_sshable env h =
     cbind (run_cmd env (os_probe h)) (\<lambda>r.
     case r of Failed_cmd \<Rightarrow> creturn False | Lines ls \<Rightarrow> cbind (clift (item ls 0)) (\<lambda>l. creturn (contains l ''PRETTY_NAME'')))"

text \<open>The message that names what was collected; without any, the script ends with status -1.\<close>

definition collected :: "bool \<Rightarrow> bool \<Rightarrow> bool \<Rightarrow> string \<Rightarrow> string \<Rightarrow> collect_error + string" where
  "collected bug_report sos console h path =
     (if bug_report \<and> sos \<and> console then Inr (''The nvidia bug report, sosreport, and console history logs for '' @ h @ '' are at '' @ path)
      else if bug_report \<and> \<not> sos \<and> \<not> console then Inr (''The nvidia bug report for '' @ h @ '' is at '' @ path)
      else if bug_report \<and> sos \<and> \<not> console then Inr (''The nvidia bug report and sosreport for '' @ h @ '' are at '' @ path)
      else if bug_report \<and> \<not> sos \<and> console then Inr (''The nvidia bug report and console history logs for '' @ h @ '' are at '' @ path)
      else if \<not> bug_report \<and> sos \<and> \<not> console then Inr (''The sosreport for '' @ h @ '' is at '' @ path)
      else if \<not> bug_report \<and> \<not> sos \<and> console then Inr (''The console history logs for '' @ h @ '' is at '' @ path)
      else if \<not> bug_report \<and> sos \<and> console then Inr (''The sosreport and console history logs for '' @ h @ '' are at '' @ path)
      else Inl C_exit)"

definition collect_logs :: "collect_env \<Rightarrow> string \<Rightarrow> string option \<Rightarrow> string option collect_cmd" where
  "collect_logs env h compartment =
     cbind (clift (create_dir env h)) (\<lambda>path.
     cbind (change_owner env path) (\<lambda>_.
     cbind (is_node_sshable env h) (\<lambda>reachable.
     if reachable then
       cbind (nvidia_bug_report env h path) (\<lambda>bug_report.
       cbind (sos_report env h path) (\<lambda>sos.
       cbind (console_history_logs env h path compartment) (\<lambda>console.
       cbind (clift (collected bug_report sos console h path)) (\<lambda>m. creturn (Some m)))))
     else cbind (console_history_logs env h path compartment) (\<lambda>console.
       creturn (if console then Some (h @ '' is not reachable. The console history logs are at '' @ path) else None)))))"

text \<open>The message is right about the bug report: it names it only if the host ran the script without an error.\<close>

lemma nvidia_bug_report_ran:
  "nvidia_bug_report env h path cs = (Inr True, cs') \<Longrightarrow> \<exists>ls. ce_answer env cs (nvidia_cmd h path) = Lines ls"
  by (auto simp: nvidia_bug_report_def run_cmd_def cbind_Inr_iff split: cmd_result.splits)

lemma nothing_collected: "collected bug_report sos console h path = Inl C_exit \<longleftrightarrow> \<not> bug_report \<and> \<not> sos \<and> \<not> console"
  by (simp add: collected_def)

section \<open>Diagnosis of H100 hosts\<close>

text \<open>Here a command gives its output whether it fails or not. The files are the hosts that answered, those
  that did not, and the lines of \<open>rdmaauth\<close>.\<close>

record diagnosis =
  dg_sshable :: "string list"
  dg_not_sshable :: "string list"
  dg_rdma :: "string list"
  dg_ran :: "string list"

type_synonym 'a diagnose_cmd = "(diagnosis, collect_error, 'a) cmd"

definition run_shell :: "(string list \<Rightarrow> string \<Rightarrow> string list) \<Rightarrow> string \<Rightarrow> string list diagnose_cmd" where
  "run_shell out c = (\<lambda>d. (Inr (out (dg_ran d) c), d\<lparr>dg_ran := dg_ran d @ [c]\<rparr>))"

definition probe_host :: "(string list \<Rightarrow> string \<Rightarrow> string list) \<Rightarrow> string \<Rightarrow> unit diagnose_cmd" where
  "probe_host out line =
     cbind (clift (item (words_by py_space line) 0)) (\<lambda>h.
     cbind (run_shell out (os_probe h)) (\<lambda>answer.
     case answer of
       l # _ \<Rightarrow> if contains l ''PRETTY_NAME'' then (\<lambda>d. (Inr (), d\<lparr>dg_sshable := dg_sshable d @ [h]\<rparr>))
                else (\<lambda>d. (Inr (), d\<lparr>dg_not_sshable := dg_not_sshable d @ [h]\<rparr>))
     | [] \<Rightarrow> (\<lambda>d. (Inr (), d\<lparr>dg_not_sshable := dg_not_sshable d @ [h]\<rparr>))))"

definition get_sshable_nodes :: "(string list \<Rightarrow> string \<Rightarrow> string list) \<Rightarrow> string list \<Rightarrow> unit diagnose_cmd" where
  "get_sshable_nodes out lines = cfold (\<lambda>_ line. probe_host out line) () lines"

definition host_info :: string where
  "host_info = ''hostname; hostname -i; sudo dmidecode -s system-serial-number''"

definition on_every_host :: "string \<Rightarrow> string \<Rightarrow> string \<Rightarrow> string" where
  "on_every_host ssh_hosts inner log_file =
     ''for i in $(cat '' @ ssh_hosts @ ''); do ssh $i '' @ quoted (host_info @ ''; '' @ inner) @ ''; done > '' @ log_file"

definition write_rdma :: "string list \<Rightarrow> unit diagnose_cmd" where
  "write_rdma ls = (\<lambda>d. (Inr (), d\<lparr>dg_rdma := dg_rdma d @ ls\<rparr>))"

definition rdma_auth :: "(string list \<Rightarrow> string \<Rightarrow> string list) \<Rightarrow> unit diagnose_cmd" where
  "rdma_auth out = (\<lambda>d. cfold (\<lambda>_ h.
     cbind (run_shell out (ssh h host_info)) (\<lambda>a.
     cbind (write_rdma a) (\<lambda>_.
     cbind (run_shell out (''ssh '' @ h @ '' '' @ [CHR 0x27]
       @ ''for x in $(seq 0 15) ; do sudo wpa_cli -i rdma$x status | grep EAP ; done'' @ [CHR 0x27])) (\<lambda>b.
     write_rdma b)))) () (dg_sshable d) d)"

definition h100_main :: "(string list \<Rightarrow> string \<Rightarrow> string list) \<Rightarrow> string \<Rightarrow> bool \<Rightarrow> string \<Rightarrow> string list \<Rightarrow> unit diagnose_cmd" where
  "h100_main out user mkdir_ok path lines =
     (let hosts = path @ ''/sshable'';
          log = (\<lambda>name inner. cbind (run_shell out (on_every_host hosts inner (path @ ''/'' @ name))) (\<lambda>_. creturn ()))
      in cbind (clift (check C_exit mkdir_ok)) (\<lambda>_.
         cbind (run_shell out (''sudo chown -R '' @ user @ '':'' @ user @ '' '' @ path)) (\<lambda>_.
         cbind (get_sshable_nodes out lines) (\<lambda>_.
         cbind (log ''ibdev2netdev'' ''ibdev2netdev | grep Down'') (\<lambda>_.
         cbind (log ''eapfailure'' (''cat /var/log/syslog | grep '' @ quoted ''EAP-FAILURE'')) (\<lambda>_.
         cbind (rdma_auth out) (\<lambda>_.
         cbind (log ''linkflapping'' (''cat /var/log/syslog | grep '' @ quoted ''Link '' @ '' | tail -36'')) (\<lambda>_.
         cbind (log ''lspci'' (''lspci | grep '' @ quoted ''rev ff'')) (\<lambda>_.
         cbind (log ''nvrm'' ''sudo dmesg | grep NVRM'') (\<lambda>_.
         cbind (log ''pending_remaps'' (''nvidia-smi -q | grep '' @ quoted ''Pending                           : Yes'')) (\<lambda>_.
         log ''remapping_failures'' (''nvidia-smi -q | grep '' @ quoted ''Remapping Failure Occurred        : Yes''))))))))))))"

text \<open>Every host of the file is written to exactly one of the two files.\<close>

lemma probe_files_hosts:
  assumes "get_sshable_nodes out lines d = (Inr (), d')"
  shows "\<exists>a b. dg_sshable d' = dg_sshable d @ a \<and> dg_not_sshable d' = dg_not_sshable d @ b
    \<and> mset (a @ b) = mset (map (\<lambda>l. words_by py_space l ! 0) lines)"
  using assms
proof (induction lines arbitrary: d)
  case Nil
  then show ?case by (simp add: get_sshable_nodes_def)
next
  case (Cons line lines)
  then obtain t where step: "probe_host out line d = (Inr (), t)" and rest: "get_sshable_nodes out lines t = (Inr (), d')"
    by (auto simp: get_sshable_nodes_def cbind_Inr_iff)
  obtain a b where ab: "dg_sshable d' = dg_sshable t @ a" "dg_not_sshable d' = dg_not_sshable t @ b"
    "mset (a @ b) = mset (map (\<lambda>l. words_by py_space l ! 0) lines)" using Cons.IH [OF rest] by blast
  let ?h = "words_by py_space line ! 0"
  have "dg_sshable t = dg_sshable d @ [?h] \<and> dg_not_sshable t = dg_not_sshable d
      \<or> dg_sshable t = dg_sshable d \<and> dg_not_sshable t = dg_not_sshable d @ [?h]"
    using step by (cases "words_by py_space line = []"; cases "out (dg_ran d) (os_probe ?h)")
      (auto simp: probe_host_def run_shell_def item_def cbind_Inr_iff split: if_splits)
  then show ?case
  proof
    assume *: "dg_sshable t = dg_sshable d @ [?h] \<and> dg_not_sshable t = dg_not_sshable d"
    show ?thesis by (rule exI [of _ "?h # a"], rule exI [of _ b]) (use * ab in simp)
  next
    assume *: "dg_sshable t = dg_sshable d \<and> dg_not_sshable t = dg_not_sshable d @ [?h]"
    show ?thesis by (rule exI [of _ a], rule exI [of _ "?h # b"]) (use * ab in simp)
  qed
qed

section \<open>Metadata\<close>

definition specific_fieldnames :: "string list" where
  "specific_fieldnames = [''displayName'', ''hostname'', ''privateIp'', ''networkBlockId'', ''rackid'', ''ociAdName'', ''id'']"

text \<open>The three documents of a host, or the failure to get them.\<close>

record host_documents =
  hd_instance :: "char json"
  hd_host :: "char json"
  hd_vnics :: "char json"

text \<open>\<open>{**parsed_instance, **parsed_host, **first_vnic}\<close> and the required fields; every exception gives \<open>None\<close>.\<close>

definition process_entry :: "host_documents option \<Rightarrow> char jdict option" where
  "process_entry documents =
     Option.bind documents (\<lambda>d.
     Option.bind (as_arr (hd_vnics d)) (\<lambda>vnics.
     case vnics of [] \<Rightarrow> None | v # _ \<Rightarrow>
     Option.bind (as_obj (hd_instance d)) (\<lambda>inst.
     Option.bind (as_obj (hd_host d)) (\<lambda>host_info.
     Option.bind (as_obj v) (\<lambda>first_vnic.
     let parsed_data = dupdate (dupdate inst host_info) first_vnic
     in Some (map (\<lambda>field. (field, jget_or parsed_data field (JStr []))) specific_fieldnames))))))"

text \<open>The rows of the table, for a file of hosts and for a single one: iterating over \<open>None\<close> raises.\<close>

definition metadata_rows :: "(string \<Rightarrow> host_documents option) \<Rightarrow> string list \<Rightarrow> collect_error + char jdict list" where
  "metadata_rows documents entries = map_err (\<lambda>e. need C_type (process_entry (documents e))) entries"

definition file_entries :: "string list \<Rightarrow> string list" where
  "file_entries lines = map py_strip lines"

lemma one_host_spoils_all:
  assumes "e \<in> set entries" and "documents e = None"
  shows "\<exists>x. metadata_rows documents entries = Inl x"
proof (cases "metadata_rows documents entries")
  case (Inr rows)
  then have "process_entry (documents e) \<noteq> None"
    using assms(1) by (auto simp: metadata_rows_def map_err_Inr list_all2_conv_all_nth in_set_conv_nth need_def split: option.splits)
  then show ?thesis using assms(2) by (simp add: process_entry_def)
qed simp

end
