(* ===== verification/Spec2Isabelle.thy ===== *)
theory Spec2Isabelle
  imports Topic_Cleanup Mailprog Resize_Safety Rack_Order Partition_Report Gpu_Setup
    Validation Collection
begin

text \<open>
  Oracle's HPC stack for OCI (\<open>oci-hpc\<close>) deploys a Slurm cluster with Terraform and Ansible.
  This development models the Python programs of the repository that decide what happens to
  cloud resources, inventories and notifications, and proves what they promise.

  \<^bold>\<open>The program.\<close> \<open>bin/resize.py\<close> runs on the controller: it adds nodes to a cluster, removes
  nodes, lists them, runs the Ansible playbooks on the inventory, and cleans up before a destroy. A
  node may have a local Block Volume; taking such a node out of its pool is journalled on disk, so
  that an interrupted removal is finished by a later run. Under \<open>playbooks/roles/slurm/files\<close>,
  \<open>slurm_oci_mailprog.py\<close> turns the mail of a Slurm job into a queued message,
  \<open>slurm_oci_notify_worker.py\<close> publishes queued messages to OCI Notifications,
  \<open>slurm_notification_registry_seed.py\<close> maintains the registry both read, and
  \<open>slurm_oci_notification_cleanup.py\<close> deletes the Topics of a deployment when it is destroyed. Under
  \<open>playbooks/roles/healthchecks/files\<close>, \<open>check_gpu_setup.py\<close> decides whether Slurm drains a GPU node, with
  the checks of \<open>xid_checker.py\<close>, \<open>rdma_link_flapping.py\<close> and \<open>gpu_bw_test.py\<close>;
  \<open>node_ordering_by_rack.py\<close> orders hosts for MPI, and the scripts under \<open>scripts\<close> report on partitions,
  compare what the parts of a deployment know of its nodes, and collect logs and metadata.

  \<^bold>\<open>How code is modelled.\<close> A function that only computes is a HOL function; one that raises
  returns a sum (\<open>Inl\<close> the exception). Code with effects is a command \<open>'s \<Rightarrow> ('e + 'a) \<times> 's\<close> of
  \<open>Prelude\<close>, which keeps the effects made before an exception. The OCI services, the OCI command
  line, the clock, the file system's failures and the playbooks are fields of a record that is a
  parameter (\<open>'w cloud\<close>, \<open>'w cleanup_env\<close>, \<open>'w worker_env\<close>): any result and any effect on an abstract world
  \<open>'w\<close> is possible. Requests are appended to a trace, with the journal on disk at that moment; the
  theorems about effects speak of that trace. Strings are lists of characters (of code points
  where the program handles Unicode), Python's integers are \<open>int\<close>, times are rational seconds.

  \<^bold>\<open>Theories.\<close>

  \<^item> \<open>Prelude\<close>, \<open>Py_String\<close>, \<open>Json_Data\<close>: checks, folds and comprehensions that may raise, commands,
    dictionaries in insertion order; the string methods of Python; JSON values as \<open>json.load\<close>
    returns them. \<open>keeps\<close> is the calculus of relations every part of a command keeps.
  \<^item> \<open>Registry_Seed\<close> (\<open>slurm_notification_registry_seed.py\<close>): merging the bootstrap file into the
    registry loses no scope and is idempotent.
  \<^item> \<open>Topic_Cleanup\<close> (\<open>slurm_oci_notification_cleanup.py\<close>): the configuration, the scopes a deployment
    has used, ownership of Topics, and the polling loop of the deletions. Only owned Topics are
    deleted, each once, after validation, in every recorded scope; success means a last listing
    without owned Topics.
  \<^item> \<open>Cloud\<close>: the SDK objects and calls \<open>resize.py\<close> uses, its exceptions, runs with their trace, and the
    waiting loop \<open>poll_until\<close>, which ends when the clock advances by the time slept.
  \<^item> \<open>Local_Volume\<close>, \<open>Volume_Attachment\<close>: the volume configuration in the inventory and in the tags of an
    instance, mount points, and which attachment of an instance counts as its own.
  \<^item> \<open>Journal\<close>, \<open>Terraform\<close>, \<open>Removal\<close>, \<open>Resume\<close>: the journal of pending deletions, the rewriting of the
    Terraform state, the removal of a pool member, retrying and finalizing removals. The update of
    the Terraform files may fail before the state is pushed, while it is pushed, and after it; the
    variables file is never ahead of the state. A removal records exactly the volume its readings show
    to be the node's own, no change is requested without its record on disk, no volume is deleted
    unseen, records go only after the size of the pool was recorded in Terraform, and a retry
    followed by a finalization empties the journal.
  \<^item> \<open>Inventory\<close>: reading and writing inventories, host lines, and preparing an inventory with the
    iSCSI coordinates of the volume each run saw as the node's own.
  \<^item> \<open>Cluster_View\<close>, \<open>Reconfigure\<close>, \<open>Node_Selection\<close>: the nodes of a cluster and their addresses, waiting
    for a cluster, roll-backs, the clean-up before a destroy; the inventory edits around each
    playbook run, which add, and wait for, exactly the nodes without a line, and keep the inventory when
    a run fails; which nodes a removal takes.
  \<^item> \<open>Resize_Main\<close>, \<open>Resize_Safety\<close>: the main program of \<open>resize.py\<close> and what a whole run may do: a refused
    run changes nothing, every request is one of the mode, nodes go only after the removal
    playbook succeeded (unless \<open>--force\<close> or \<open>--no_reconfigure\<close> is given), and a failed addition is taken
    back, each launched node by the termination it is due.
  \<^item> \<open>Notification_Text\<close>, \<open>Utf8\<close>, \<open>Worker\<close>, \<open>Mailprog\<close>: the size of a published message as JSON, encoding and
    decoding UTF-8, the worker's run over the queue, and the mail program up to the queued
    message. No message is lost, publications are paced while the clock flows and the lock file works, a
    queued message passes the validation of the worker when the registry's region and topic do, and
    the body of a message is the largest that fits.

  \<^item> \<open>Py_Regex\<close>: the part of Python's \<open>re\<close> the health checks use, as a backtracking matcher that gives all
    matches in the order they are tried.
  \<^item> \<open>Xid_Check\<close>, \<open>Link_Flapping\<close>, \<open>Gpu_Bandwidth\<close>, \<open>Gpu_Setup\<close>: the health check of a GPU node. A node is
    drained for an Xid error, a flapping link or a lost device exactly when the logs and \<open>lspci\<close> show
    one, and for memory errors only when the counts \<open>nvidia-smi\<close> prints say so; a check that raises
    counts as passed.
  \<^item> \<open>Rack_Order\<close>, \<open>Partition_Report\<close>: hosts of a rack stay together, larger racks first, in all four files,
    with the ParallelSSH library and without; the largest job that fits evenly on the clusters of a
    partition.
  \<^item> \<open>Validation\<close>: the comparison of the nodes of a deployment, source by source; a run without a report
    means that the sources agree.
  \<^item> \<open>Collection\<close>: the commands that collect logs, and the rows of the metadata table.

  \<^bold>\<open>Interfaces.\<close> \<open>record_store\<close> (in \<open>Journal\<close>) is what the removals rely on in the journal, interpreted on the
    journal file; \<open>sized_search\<close> (in \<open>Mailprog\<close>) is the binary search both body limits use,
    interpreted on the plain body and on the table.

  \<^bold>\<open>Loops and bounds.\<close> Loops over data are structural recursion or recursion with a measure. A waiting
  loop carries a number of rounds, \<open>rounds_for limit step\<close> (at least \<open>limit / step + 1\<close>), and ends with
  \<open>Diverged\<close> when they are used up; \<open>poll_until_ends\<close> and \<open>waiting_ends\<close> show that this does not happen
  when the clock does not go back and advances by the time slept. The polling loop of the Topic
  clean-up has the bound of the code, 30 attempts.

  \<^bold>\<open>Not modelled.\<close> Log output and messages to the terminal, except where a value is returned; owners and
  modes of files, temporary files beside an atomic replacement (preparing them is a step that may fail,
  the replacement one that may fail before or after the file is in place); locks, except whether they are obtained; the command
  line parsers; the construction of SDK clients and what a launched node copies from its template.
  SHA-256, base64, the Unicode database above ASCII, floating point numbers in the output of commands
  and the parsing of JSON text are parameters. Patterns and dates are those of ASCII text and English
  month names. The output of shell commands is an input, as are the answers of hosts and of the
  metadata service. The Terraform configuration, the playbooks, templates and shell scripts are
  configuration of other systems.
\<close>

end
